(* ===== verification/Prelude.thy ===== *)
theory Prelude
  imports Main "HOL-Library.Word"
begin

unbundle bit_operations_syntax

text \<open>
  Shared vocabulary of the development: the machine integers of the C sources, byte buffers,
  little- and big-endian access to them, and the generic facts on words, bytes and lists that the
  component theories use.  The host is little endian (the harness is compiled for x86-64), so
  \<^verbatim>\<open>le16_to_cpu\<close>, \<^verbatim>\<open>cpu_to_le32\<close> and their kin are the identity on values.
\<close>

subsection \<open>Machine integers\<close>

type_synonym u8 = "8 word"
type_synonym u16 = "16 word"
type_synonym u32 = "32 word"
type_synonym u64 = "64 word"

text \<open>A C condition \<^verbatim>\<open>w & m\<close>.\<close>

abbreviation tst :: "'a::len word \<Rightarrow> 'a word \<Rightarrow> bool" where
  "tst w m \<equiv> (w AND m) \<noteq> 0"

subsection \<open>Collections of rules\<close>

named_theorems buf_simps \<comment> \<open>reading and writing byte buffers\<close>
named_theorems word_bits \<comment> \<open>set and cleared bits of a word\<close>

subsection \<open>Set and cleared bits\<close>

lemma or_mask_and_mask [simp, word_bits]: "(x OR m) AND m = (m :: 'a::len word)"
  by (rule bit_word_eqI) (auto simp: bit_simps)

lemma and_not_mask_and_mask [simp, word_bits]: "(x AND NOT m) AND m = (0 :: 'a::len word)"
  by (rule bit_word_eqI) (auto simp: bit_simps)

lemma and_not_mask_other [word_bits]:
  assumes "m AND k = (0 :: 'a::len word)"
  shows "(x AND NOT m) AND k = x AND k"
proof (rule bit_word_eqI)
  fix n assume "n < LENGTH('a)"
  with arg_cong [OF assms, of "\<lambda>w. bit w n"]
  show "bit ((x AND NOT m) AND k) n = bit (x AND k) n" by (auto simp: bit_simps)
qed

lemma or_mask_other [word_bits]:
  "m AND k = 0 \<Longrightarrow> (x OR m) AND k = x AND (k :: 'a::len word)"
  by (simp add: bit.conj_disj_distrib2)

lemma word_and_or_zero_iff [word_bits]:
  "(x OR y) AND m = 0 \<longleftrightarrow> x AND m = 0 \<and> y AND m = (0 :: 'a::len word)"
  by (simp add: bit.conj_disj_distrib2 or_eq_0_iff)

lemma word_and_bound: "unat (x AND m) \<le> unat (m :: 'a::len word)"
  using word_and_le1 [of x m] by (simp add: word_le_nat_alt and.commute)

lemma and_idem_mask [simp]: "(x AND m) AND m = x AND (m :: 'a::len word)"
  by (rule bit_word_eqI) (auto simp: bit_simps)

subsection \<open>Ranges\<close>

lemma u8_bound: "unat (w :: u8) < 256"
  using unsigned_less [of w] by simp

lemma u16_bound: "unat (w :: u16) < 65536"
  using unsigned_less [of w] by simp

lemma u32_bound: "unat (w :: u32) < 4294967296"
  using unsigned_less [of w] by simp

subsection \<open>Bytes of a word\<close>

text \<open>The \<open>n\<close> low-order bytes of a word, least significant first, and back.\<close>

definition bytes_le :: "nat \<Rightarrow> 'a::len word \<Rightarrow> u8 list" where
  "bytes_le n w = map (\<lambda>i. ucast (drop_bit (8 * i) w)) [0..<n]"

primrec le_word :: "u8 list \<Rightarrow> 'a::len word" where
  "le_word [] = 0"
| "le_word (b # bs) = ucast b OR push_bit 8 (le_word bs)"

lemma length_bytes_le [simp]: "length (bytes_le n w) = n"
  by (simp add: bytes_le_def)

lemma nth_bytes_le [simp]: "i < n \<Longrightarrow> bytes_le n w ! i = ucast (drop_bit (8 * i) w)"
  by (simp add: bytes_le_def)

lemma bit_le_word:
  "bit (le_word bs :: 'a::len word) i \<longleftrightarrow>
     i < LENGTH('a) \<and> i < 8 * length bs \<and> bit (bs ! (i div 8)) (i mod 8)"
proof (induction bs arbitrary: i)
  case Nil
  then show ?case by simp
next
  case (Cons b bs)
  show ?case
  proof (cases "i < 8")
    case True
    then show ?thesis by (auto simp: bit_simps)
  next
    case False
    then have "i div 8 = Suc ((i - 8) div 8)" and "i mod 8 = (i - 8) mod 8"
      by (auto simp: le_div_geq le_mod_geq)
    with False show ?thesis
      by (auto simp: bit_simps Cons.IH not_less dest: bit_imp_le_length)
  qed
qed

lemma le_word_bytes_le:
  "8 * n = LENGTH('a) \<Longrightarrow> le_word (bytes_le n w) = (w :: 'a::len word)"
  by (rule bit_word_eqI) (auto simp: bit_le_word bit_simps less_mult_imp_div_less)

subsection \<open>Byte buffers\<close>

text \<open>
  A C array of bytes that is updated in place is a function from indices to bytes.  The size of
  the array is not part of it: that an index stays inside is a theorem of the component.
\<close>

type_synonym buf = "nat \<Rightarrow> u8"

definition buf_read :: "buf \<Rightarrow> nat \<Rightarrow> nat \<Rightarrow> u8 list" where
  "buf_read b off n = map (\<lambda>i. b (off + i)) [0..<n]"

definition buf_write :: "buf \<Rightarrow> nat \<Rightarrow> u8 list \<Rightarrow> buf" where
  "buf_write b off bs = (\<lambda>i. if off \<le> i \<and> i < off + length bs then bs ! (i - off) else b i)"

lemma length_buf_read [simp, buf_simps]: "length (buf_read b off n) = n"
  by (simp add: buf_read_def)

lemma nth_buf_read [simp, buf_simps]: "i < n \<Longrightarrow> buf_read b off n ! i = b (off + i)"
  by (simp add: buf_read_def)

lemma buf_read_0 [simp]: "buf_read b off 0 = []"
  by (simp add: buf_read_def)

lemma buf_write_Nil [simp]: "buf_write b off [] = b"
  by (auto simp: buf_write_def fun_eq_iff)

lemma buf_write_same [buf_simps]:
  "off \<le> i \<Longrightarrow> i < off + length bs \<Longrightarrow> buf_write b off bs i = bs ! (i - off)"
  by (simp add: buf_write_def)

lemma buf_write_other [buf_simps]:
  "i < off \<or> off + length bs \<le> i \<Longrightarrow> buf_write b off bs i = b i"
  by (auto simp: buf_write_def)

lemma buf_read_write [buf_simps]: "n = length bs \<Longrightarrow> buf_read (buf_write b off bs) off n = bs"
  by (rule nth_equalityI) (simp_all add: buf_write_def)

lemma buf_read_write_disjoint [buf_simps]:
  "off + n \<le> off' \<or> off' + length bs \<le> off \<Longrightarrow>
   buf_read (buf_write b off' bs) off n = buf_read b off n"
  by (auto simp: buf_write_def intro!: nth_equalityI)

lemma buf_read_append: "buf_read b off (m + n) = buf_read b off m @ buf_read b (off + m) n"
proof (rule nth_equalityI)
  fix i assume "i < length (buf_read b off (m + n))"
  then show "buf_read b off (m + n) ! i = (buf_read b off m @ buf_read b (off + m) n) ! i"
    by (auto simp: nth_append)
qed simp

text \<open>Big-endian access (\<^verbatim>\<open>include/qemu/bswap.h\<close>): \<^verbatim>\<open>be16_to_cpup\<close>, \<^verbatim>\<open>stw_be_p\<close>, \<^verbatim>\<open>ldl_be_p\<close>, \<^verbatim>\<open>stl_be_p\<close>.\<close>

definition be16_to_cpup :: "buf \<Rightarrow> nat \<Rightarrow> u16" where
  "be16_to_cpup b p = push_bit 8 (ucast (b p)) OR ucast (b (p + 1))"

definition stw_be_p :: "buf \<Rightarrow> nat \<Rightarrow> u16 \<Rightarrow> buf" where
  "stw_be_p b p v = b(p := ucast (drop_bit 8 v), p + 1 := ucast v)"

definition ldl_be_p :: "buf \<Rightarrow> nat \<Rightarrow> u32" where
  "ldl_be_p b p = push_bit 24 (ucast (b p)) OR push_bit 16 (ucast (b (p + 1))) OR
     push_bit 8 (ucast (b (p + 2))) OR ucast (b (p + 3))"

definition stl_be_p :: "buf \<Rightarrow> nat \<Rightarrow> u32 \<Rightarrow> buf" where
  "stl_be_p b p v = b(p := ucast (drop_bit 24 v), p + 1 := ucast (drop_bit 16 v),
     p + 2 := ucast (drop_bit 8 v), p + 3 := ucast v)"

lemma be16_to_cpup_stw_be_p [simp]: "be16_to_cpup (stw_be_p b p v) p = v"
  by (rule bit_word_eqI) (auto simp: be16_to_cpup_def stw_be_p_def bit_simps)

lemma ldl_be_p_stl_be_p [simp]: "ldl_be_p (stl_be_p b p v) p = v"
proof (rule bit_word_eqI)
  fix n assume "n < LENGTH(32)"
  then consider "n < 8" | "8 \<le> n" "n < 16" | "16 \<le> n" "n < 24" | "24 \<le> n" "n < 32"
    by fastforce
  then show "bit (ldl_be_p (stl_be_p b p v) p) n = bit v n"
    by cases (auto simp: ldl_be_p_def stl_be_p_def bit_simps)
qed

lemma stw_be_p_other [buf_simps]: "i < p \<or> p + 1 < i \<Longrightarrow> stw_be_p b p v i = b i"
  by (auto simp: stw_be_p_def)

lemma stl_be_p_other [buf_simps]: "i < p \<or> p + 3 < i \<Longrightarrow> stl_be_p b p v i = b i"
  by (auto simp: stl_be_p_def)

text \<open>Entries of a dispatch table written as a cascade of conditionals.\<close>

lemma if_SomeE:
  "(if b then Some x else y) = Some f \<Longrightarrow> (b \<Longrightarrow> f = x \<Longrightarrow> R) \<Longrightarrow> (y = Some f \<Longrightarrow> R) \<Longrightarrow> R"
  by (cases b) simp_all

lemma bytes_le_4:
  "bytes_le 4 (ucast a OR push_bit 8 (ucast b) OR push_bit 16 (ucast c) OR push_bit 24 (ucast d) :: u32) =
   [a, b, c, d]"
proof -
  let ?w = "ucast a OR push_bit 8 (ucast b) OR push_bit 16 (ucast c) OR push_bit 24 (ucast d) :: u32"
  have "ucast ?w = a" "ucast (drop_bit 8 ?w) = b" "ucast (drop_bit 16 ?w) = c" "ucast (drop_bit 24 ?w) = d"
    by (rule bit_word_eqI; simp add: bit_or_iff bit_push_bit_iff bit_unsigned_iff bit_drop_bit_eq;
        auto dest: bit_imp_le_length)+
  moreover have "[0..<4] = [0, 1, 2, 3 :: nat]" by (simp add: upt_conv_Cons)
  ultimately show ?thesis by (simp add: bytes_le_def)
qed

subsection \<open>Loops over lists\<close>

text \<open>A loop over a list that stops at a crash.\<close>

primrec for_list :: "'b list \<Rightarrow> ('b \<Rightarrow> 'a \<Rightarrow> 'a option) \<Rightarrow> 'a \<Rightarrow> 'a option" where
  "for_list [] f s = Some s"
| "for_list (x # xs) f s = Option.bind (f x s) (for_list xs f)"

lemma for_list_cong [fundef_cong]:
  "xs = ys \<Longrightarrow> s = t \<Longrightarrow> (\<And>x s. x \<in> set ys \<Longrightarrow> f x s = g x s) \<Longrightarrow> for_list xs f s = for_list ys g t"
  by (induction xs arbitrary: ys s t) (auto intro!: Option.bind_cong)

lemma for_list_append: "for_list (xs @ ys) f s = Option.bind (for_list xs f s) (for_list ys f)"
  by (induction xs arbitrary: s) (auto split: Option.bind_splits)

lemma for_list_concat: "for_list (concat xss) f s = for_list xss (\<lambda>xs. for_list xs f) s"
  by (induction xss arbitrary: s) (auto simp: for_list_append split: Option.bind_splits)

lemma for_list_map: "for_list (map g xs) f s = for_list xs (\<lambda>x. f (g x)) s"
  by (induction xs arbitrary: s) (auto intro!: Option.bind_cong)

lemma for_list_mono [partial_function_mono]:
  assumes "\<And>x s. mono_option (\<lambda>f. B f x s)"
  shows "mono_option (\<lambda>f. for_list xs (B f) s)"
proof (induction xs arbitrary: s)
  case (Cons x xs)
  show ?case by (simp, rule bind_mono) (use assms Cons in auto)
qed (simp add: option.const_mono)

end
