(* ===== verification/E1000_Regs.thy ===== *)
theory E1000_Regs
  imports Prelude
begin

text \<open>
  The register map and the bit masks of the 8254x controller, from
  \<^verbatim>\<open>src/harness/qemu/hw/net/e1000_regs.h\<close>, as \<^verbatim>\<open>src/harness/e1000/e1000.c\<close> uses them.

  The indices of \<^verbatim>\<open>mac_reg\<close> are the enumeration that \<^verbatim>\<open>defreg\<close> builds: the byte offset of the
  register shifted right by two.  They are abbreviations of numerals, so that the simplifier
  decides whether two of them are equal.  The masks are opaque constants; their values are in
  the collection \<^verbatim>\<open>e1000_mask\<close>, which a proof unfolds only where a value matters.
\<close>

named_theorems e1000_mask

subsection \<open>Indices of the MAC registers (e1000.c, \<^verbatim>\<open>defreg\<close>)\<close>

abbreviation (input) CTRL :: nat where "CTRL \<equiv> 0x0"
abbreviation (input) EECD :: nat where "EECD \<equiv> 0x4"
abbreviation (input) EERD :: nat where "EERD \<equiv> 0x5"
abbreviation (input) GPRC :: nat where "GPRC \<equiv> 0x101d"
abbreviation (input) GPTC :: nat where "GPTC \<equiv> 0x1020"
abbreviation (input) ICR :: nat where "ICR \<equiv> 0x30"
abbreviation (input) ICS :: nat where "ICS \<equiv> 0x32"
abbreviation (input) IMC :: nat where "IMC \<equiv> 0x36"
abbreviation (input) IMS :: nat where "IMS \<equiv> 0x34"
abbreviation (input) LEDCTL :: nat where "LEDCTL \<equiv> 0x380"
abbreviation (input) MANC :: nat where "MANC \<equiv> 0x1608"
abbreviation (input) MDIC :: nat where "MDIC \<equiv> 0x8"
abbreviation (input) MPC :: nat where "MPC \<equiv> 0x1004"
abbreviation (input) PBA :: nat where "PBA \<equiv> 0x400"
abbreviation (input) RCTL :: nat where "RCTL \<equiv> 0x40"
abbreviation (input) RDBAH :: nat where "RDBAH \<equiv> 0xa01"
abbreviation (input) RDBAL :: nat where "RDBAL \<equiv> 0xa00"
abbreviation (input) RDH :: nat where "RDH \<equiv> 0xa04"
abbreviation (input) RDLEN :: nat where "RDLEN \<equiv> 0xa02"
abbreviation (input) RDT :: nat where "RDT \<equiv> 0xa06"
abbreviation (input) STATUS :: nat where "STATUS \<equiv> 0x2"
abbreviation (input) SWSM :: nat where "SWSM \<equiv> 0x16d4"
abbreviation (input) TCTL :: nat where "TCTL \<equiv> 0x100"
abbreviation (input) TDBAH :: nat where "TDBAH \<equiv> 0xe01"
abbreviation (input) TDBAL :: nat where "TDBAL \<equiv> 0xe00"
abbreviation (input) TDH :: nat where "TDH \<equiv> 0xe04"
abbreviation (input) TDLEN :: nat where "TDLEN \<equiv> 0xe02"
abbreviation (input) TDT :: nat where "TDT \<equiv> 0xe06"
abbreviation (input) TORH :: nat where "TORH \<equiv> 0x1031"
abbreviation (input) TORL :: nat where "TORL \<equiv> 0x1030"
abbreviation (input) TOTH :: nat where "TOTH \<equiv> 0x1033"
abbreviation (input) TOTL :: nat where "TOTL \<equiv> 0x1032"
abbreviation (input) TPR :: nat where "TPR \<equiv> 0x1034"
abbreviation (input) TPT :: nat where "TPT \<equiv> 0x1035"
abbreviation (input) TXDCTL :: nat where "TXDCTL \<equiv> 0xe0a"
abbreviation (input) WUFC :: nat where "WUFC \<equiv> 0x1602"
abbreviation (input) RA :: nat where "RA \<equiv> 0x1500"
abbreviation (input) MTA :: nat where "MTA \<equiv> 0x1480"
abbreviation (input) CRCERRS :: nat where "CRCERRS \<equiv> 0x1000"
abbreviation (input) VFTA :: nat where "VFTA \<equiv> 0x1580"
abbreviation (input) VET :: nat where "VET \<equiv> 0xe"
abbreviation (input) RDTR :: nat where "RDTR \<equiv> 0xa08"
abbreviation (input) RADV :: nat where "RADV \<equiv> 0xa0b"
abbreviation (input) TADV :: nat where "TADV \<equiv> 0xe0b"
abbreviation (input) ITR :: nat where "ITR \<equiv> 0x31"

subsection \<open>Indices of the PHY registers\<close>

abbreviation (input) PHY_CTRL :: nat where "PHY_CTRL \<equiv> 0x00"
abbreviation (input) PHY_STATUS :: nat where "PHY_STATUS \<equiv> 0x01"
abbreviation (input) PHY_ID1 :: nat where "PHY_ID1 \<equiv> 0x02"
abbreviation (input) PHY_ID2 :: nat where "PHY_ID2 \<equiv> 0x03"
abbreviation (input) PHY_AUTONEG_ADV :: nat where "PHY_AUTONEG_ADV \<equiv> 0x04"
abbreviation (input) PHY_LP_ABILITY :: nat where "PHY_LP_ABILITY \<equiv> 0x05"
abbreviation (input) PHY_1000T_CTRL :: nat where "PHY_1000T_CTRL \<equiv> 0x09"
abbreviation (input) PHY_1000T_STATUS :: nat where "PHY_1000T_STATUS \<equiv> 0x0A"
abbreviation (input) M88E1000_PHY_SPEC_CTRL :: nat where "M88E1000_PHY_SPEC_CTRL \<equiv> 0x10"
abbreviation (input) M88E1000_PHY_SPEC_STATUS :: nat where "M88E1000_PHY_SPEC_STATUS \<equiv> 0x11"
abbreviation (input) M88E1000_EXT_PHY_SPEC_CTRL :: nat where "M88E1000_EXT_PHY_SPEC_CTRL \<equiv> 0x14"
abbreviation (input) M88E1000_RX_ERR_CNTR :: nat where "M88E1000_RX_ERR_CNTR \<equiv> 0x15"

subsection \<open>Shifts and small constants\<close>

abbreviation (input) E1000_MDIC_REG_SHIFT :: nat where "E1000_MDIC_REG_SHIFT \<equiv> 16"
abbreviation (input) E1000_MDIC_PHY_SHIFT :: nat where "E1000_MDIC_PHY_SHIFT \<equiv> 21"
abbreviation (input) E1000_RCTL_MO_SHIFT :: nat where "E1000_RCTL_MO_SHIFT \<equiv> 12"
abbreviation (input) E1000_EEPROM_RW_REG_DATA :: nat where "E1000_EEPROM_RW_REG_DATA \<equiv> 16"
abbreviation (input) E1000_EEPROM_RW_ADDR_SHIFT :: nat where "E1000_EEPROM_RW_ADDR_SHIFT \<equiv> 8"
abbreviation (input) EEPROM_CHECKSUM_REG :: nat where "EEPROM_CHECKSUM_REG \<equiv> 0x003F"

subsection \<open>Masks\<close>

definition E1000_CTRL_RST :: u32 where [e1000_mask]: "E1000_CTRL_RST = 0x04000000"
definition E1000_CTRL_SLU :: u32 where [e1000_mask]: "E1000_CTRL_SLU = 0x00000040"
definition E1000_CTRL_SPD_1000 :: u32 where [e1000_mask]: "E1000_CTRL_SPD_1000 = 0x00000200"
definition E1000_CTRL_SWDPIN0 :: u32 where [e1000_mask]: "E1000_CTRL_SWDPIN0 = 0x00040000"
definition E1000_CTRL_SWDPIN2 :: u32 where [e1000_mask]: "E1000_CTRL_SWDPIN2 = 0x00100000"
definition E1000_CTRL_VME :: u32 where [e1000_mask]: "E1000_CTRL_VME = 0x40000000"
definition E1000_STATUS_FD :: u32 where [e1000_mask]: "E1000_STATUS_FD = 0x00000001"
definition E1000_STATUS_LU :: u32 where [e1000_mask]: "E1000_STATUS_LU = 0x00000002"
definition E1000_STATUS_SPEED_1000 :: u32 where [e1000_mask]: "E1000_STATUS_SPEED_1000 = 0x00000080"
definition E1000_STATUS_ASDV :: u32 where [e1000_mask]: "E1000_STATUS_ASDV = 0x00000300"
definition E1000_STATUS_MTXCKOK :: u32 where [e1000_mask]: "E1000_STATUS_MTXCKOK = 0x00000400"
definition E1000_STATUS_GIO_MASTER_ENABLE :: u32 where [e1000_mask]: "E1000_STATUS_GIO_MASTER_ENABLE = 0x00080000"
definition E1000_EECD_SK :: u32 where [e1000_mask]: "E1000_EECD_SK = 0x00000001"
definition E1000_EECD_CS :: u32 where [e1000_mask]: "E1000_EECD_CS = 0x00000002"
definition E1000_EECD_DI :: u32 where [e1000_mask]: "E1000_EECD_DI = 0x00000004"
definition E1000_EECD_DO :: u32 where [e1000_mask]: "E1000_EECD_DO = 0x00000008"
definition E1000_EECD_FWE_MASK :: u32 where [e1000_mask]: "E1000_EECD_FWE_MASK = 0x00000030"
definition E1000_EECD_REQ :: u32 where [e1000_mask]: "E1000_EECD_REQ = 0x00000040"
definition E1000_EECD_GNT :: u32 where [e1000_mask]: "E1000_EECD_GNT = 0x00000080"
definition E1000_EECD_PRES :: u32 where [e1000_mask]: "E1000_EECD_PRES = 0x00000100"
definition E1000_EEPROM_RW_REG_DONE :: u32 where [e1000_mask]: "E1000_EEPROM_RW_REG_DONE = 0x10"
definition E1000_EEPROM_RW_REG_START :: u32 where [e1000_mask]: "E1000_EEPROM_RW_REG_START = 1"
definition EEPROM_READ_OPCODE_MICROWIRE :: u32 where [e1000_mask]: "EEPROM_READ_OPCODE_MICROWIRE = 0x6"
definition E1000_ICR_TXDW :: u32 where [e1000_mask]: "E1000_ICR_TXDW = 0x00000001"
definition E1000_ICR_TXQE :: u32 where [e1000_mask]: "E1000_ICR_TXQE = 0x00000002"
definition E1000_ICR_LSC :: u32 where [e1000_mask]: "E1000_ICR_LSC = 0x00000004"
definition E1000_ICR_RXDMT0 :: u32 where [e1000_mask]: "E1000_ICR_RXDMT0 = 0x00000010"
definition E1000_ICR_RXO :: u32 where [e1000_mask]: "E1000_ICR_RXO = 0x00000040"
definition E1000_ICR_RXT0 :: u32 where [e1000_mask]: "E1000_ICR_RXT0 = 0x00000080"
definition E1000_ICR_MDAC :: u32 where [e1000_mask]: "E1000_ICR_MDAC = 0x00000200"
definition E1000_ICR_INT_ASSERTED :: u32 where [e1000_mask]: "E1000_ICR_INT_ASSERTED = 0x80000000"
definition E1000_MANC_RMCP_EN :: u32 where [e1000_mask]: "E1000_MANC_RMCP_EN = 0x00000100"
definition E1000_MANC_0298_EN :: u32 where [e1000_mask]: "E1000_MANC_0298_EN = 0x00000200"
definition E1000_MANC_ARP_EN :: u32 where [e1000_mask]: "E1000_MANC_ARP_EN = 0x00002000"
definition E1000_MANC_RCV_TCO_EN :: u32 where [e1000_mask]: "E1000_MANC_RCV_TCO_EN = 0x00020000"
definition E1000_MANC_EN_MNG2HOST :: u32 where [e1000_mask]: "E1000_MANC_EN_MNG2HOST = 0x00200000"
definition E1000_MDIC_DATA_MASK :: u32 where [e1000_mask]: "E1000_MDIC_DATA_MASK = 0x0000FFFF"
definition E1000_MDIC_REG_MASK :: u32 where [e1000_mask]: "E1000_MDIC_REG_MASK = 0x001F0000"
definition E1000_MDIC_PHY_MASK :: u32 where [e1000_mask]: "E1000_MDIC_PHY_MASK = 0x03E00000"
definition E1000_MDIC_OP_WRITE :: u32 where [e1000_mask]: "E1000_MDIC_OP_WRITE = 0x04000000"
definition E1000_MDIC_OP_READ :: u32 where [e1000_mask]: "E1000_MDIC_OP_READ = 0x08000000"
definition E1000_MDIC_READY :: u32 where [e1000_mask]: "E1000_MDIC_READY = 0x10000000"
definition E1000_MDIC_INT_EN :: u32 where [e1000_mask]: "E1000_MDIC_INT_EN = 0x20000000"
definition E1000_MDIC_ERROR :: u32 where [e1000_mask]: "E1000_MDIC_ERROR = 0x40000000"
definition E1000_RAH_AV :: u32 where [e1000_mask]: "E1000_RAH_AV = 0x80000000"
definition E1000_RCTL_EN :: u32 where [e1000_mask]: "E1000_RCTL_EN = 0x00000002"
definition E1000_RCTL_SBP :: u32 where [e1000_mask]: "E1000_RCTL_SBP = 0x00000004"
definition E1000_RCTL_UPE :: u32 where [e1000_mask]: "E1000_RCTL_UPE = 0x00000008"
definition E1000_RCTL_MPE :: u32 where [e1000_mask]: "E1000_RCTL_MPE = 0x00000010"
definition E1000_RCTL_LPE :: u32 where [e1000_mask]: "E1000_RCTL_LPE = 0x00000020"
definition E1000_RCTL_RDMTS_QUAT :: u32 where [e1000_mask]: "E1000_RCTL_RDMTS_QUAT = 0x00000100"
definition E1000_RCTL_BAM :: u32 where [e1000_mask]: "E1000_RCTL_BAM = 0x00008000"
definition E1000_RCTL_SZ_2048 :: u32 where [e1000_mask]: "E1000_RCTL_SZ_2048 = 0x00000000"
definition E1000_RCTL_SZ_1024 :: u32 where [e1000_mask]: "E1000_RCTL_SZ_1024 = 0x00010000"
definition E1000_RCTL_SZ_512 :: u32 where [e1000_mask]: "E1000_RCTL_SZ_512 = 0x00020000"
definition E1000_RCTL_SZ_256 :: u32 where [e1000_mask]: "E1000_RCTL_SZ_256 = 0x00030000"
definition E1000_RCTL_SZ_16384 :: u32 where [e1000_mask]: "E1000_RCTL_SZ_16384 = 0x00010000"
definition E1000_RCTL_SZ_8192 :: u32 where [e1000_mask]: "E1000_RCTL_SZ_8192 = 0x00020000"
definition E1000_RCTL_SZ_4096 :: u32 where [e1000_mask]: "E1000_RCTL_SZ_4096 = 0x00030000"
definition E1000_RCTL_VFE :: u32 where [e1000_mask]: "E1000_RCTL_VFE = 0x00040000"
definition E1000_RCTL_BSEX :: u32 where [e1000_mask]: "E1000_RCTL_BSEX = 0x02000000"
definition E1000_RCTL_SECRC :: u32 where [e1000_mask]: "E1000_RCTL_SECRC = 0x04000000"
definition E1000_TCTL_EN :: u32 where [e1000_mask]: "E1000_TCTL_EN = 0x00000002"
definition E1000_TXD_DTYP_D :: u32 where [e1000_mask]: "E1000_TXD_DTYP_D = 0x00100000"
definition E1000_TXD_CMD_EOP :: u32 where [e1000_mask]: "E1000_TXD_CMD_EOP = 0x01000000"
definition E1000_TXD_CMD_RS :: u32 where [e1000_mask]: "E1000_TXD_CMD_RS = 0x08000000"
definition E1000_TXD_CMD_RPS :: u32 where [e1000_mask]: "E1000_TXD_CMD_RPS = 0x10000000"
definition E1000_TXD_CMD_DEXT :: u32 where [e1000_mask]: "E1000_TXD_CMD_DEXT = 0x20000000"
definition E1000_TXD_CMD_VLE :: u32 where [e1000_mask]: "E1000_TXD_CMD_VLE = 0x40000000"
definition E1000_TXD_CMD_IDE :: u32 where [e1000_mask]: "E1000_TXD_CMD_IDE = 0x80000000"
definition E1000_TXD_STAT_DD :: u32 where [e1000_mask]: "E1000_TXD_STAT_DD = 0x00000001"
definition E1000_TXD_STAT_EC :: u32 where [e1000_mask]: "E1000_TXD_STAT_EC = 0x00000002"
definition E1000_TXD_STAT_LC :: u32 where [e1000_mask]: "E1000_TXD_STAT_LC = 0x00000004"
definition E1000_TXD_STAT_TU :: u32 where [e1000_mask]: "E1000_TXD_STAT_TU = 0x00000008"
definition E1000_TXD_CMD_TCP :: u32 where [e1000_mask]: "E1000_TXD_CMD_TCP = 0x01000000"
definition E1000_TXD_CMD_IP :: u32 where [e1000_mask]: "E1000_TXD_CMD_IP = 0x02000000"
definition E1000_TXD_CMD_TSE :: u32 where [e1000_mask]: "E1000_TXD_CMD_TSE = 0x04000000"

definition MII_CR_AUTO_NEG_EN :: u16 where [e1000_mask]: "MII_CR_AUTO_NEG_EN = 0x1000"
definition MII_CR_LOOPBACK :: u16 where [e1000_mask]: "MII_CR_LOOPBACK = 0x4000"
definition MII_CR_RESTART_AUTO_NEG :: u16 where [e1000_mask]: "MII_CR_RESTART_AUTO_NEG = 0x0200"
definition MII_SR_AUTONEG_COMPLETE :: u16 where [e1000_mask]: "MII_SR_AUTONEG_COMPLETE = 0x0020"
definition MII_SR_LINK_STATUS :: u16 where [e1000_mask]: "MII_SR_LINK_STATUS = 0x0004"
definition EEPROM_SUM :: u16 where [e1000_mask]: "EEPROM_SUM = 0xBABA"
definition E1000_DEV_ID_82544GC_COPPER :: u16 where [e1000_mask]: "E1000_DEV_ID_82544GC_COPPER = 0x100C"
definition E1000_DEV_ID_82540EM :: u16 where [e1000_mask]: "E1000_DEV_ID_82540EM = 0x100E"
definition E1000_DEV_ID_82547EI_MOBILE :: u16 where [e1000_mask]: "E1000_DEV_ID_82547EI_MOBILE = 0x101A"
definition E1000_DEV_ID_82573L :: u16 where [e1000_mask]: "E1000_DEV_ID_82573L = 0x109A"

definition E1000_RXD_STAT_DD :: u8 where [e1000_mask]: "E1000_RXD_STAT_DD = 0x01"
definition E1000_RXD_STAT_EOP :: u8 where [e1000_mask]: "E1000_RXD_STAT_EOP = 0x02"
definition E1000_RXD_STAT_IXSM :: u8 where [e1000_mask]: "E1000_RXD_STAT_IXSM = 0x04"
definition E1000_RXD_STAT_VP :: u8 where [e1000_mask]: "E1000_RXD_STAT_VP = 0x08"
definition E1000_TXD_POPTS_IXSM :: u8 where [e1000_mask]: "E1000_TXD_POPTS_IXSM = 0x01"
definition E1000_TXD_POPTS_TXSM :: u8 where [e1000_mask]: "E1000_TXD_POPTS_TXSM = 0x02"

end
