(* ===== verification/Iov.thy ===== *)
theory Iov
  imports Prelude
begin

text \<open>
  Scatter/gather vectors: \<^verbatim>\<open>src/harness/qemu/util/iov.c\<close> (the harness carries copies of its first
  functions in \<^verbatim>\<open>klee_external_function_calls.c\<close>).

  An \<^verbatim>\<open>iovec\<close> element is the list of bytes it points at, so its \<^verbatim>\<open>iov_len\<close> is the length of that
  list, and a vector is the list of its elements; the elements are separate buffers.  A failing
  \<^verbatim>\<open>assert\<close> is \<open>None\<close>.  The reference semantics of every operation is a slice of the linear buffer
  \<open>concat iov\<close>.
\<close>

type_synonym iovec = "u8 list"

subsection \<open>Definitions\<close>

text \<open>The loop of \<^verbatim>\<open>iov_from_buf\<close>: the final \<^verbatim>\<open>offset\<close>, \<^verbatim>\<open>done\<close> and the updated vector.\<close>

primrec iov_from_buf_loop ::
  "iovec list \<Rightarrow> nat \<Rightarrow> u8 list \<Rightarrow> nat \<Rightarrow> nat \<Rightarrow> nat \<times> nat \<times> iovec list" where
  "iov_from_buf_loop [] offset buf bytes done = (offset, done, [])"
| "iov_from_buf_loop (v # vs) offset buf bytes done =
     (if offset \<noteq> 0 \<or> done < bytes then
        if offset < length v then
          let len = min (length v - offset) (bytes - done);
              v' = take offset v @ take len (drop done buf) @ drop (offset + len) v;
              (o', d', vs') = iov_from_buf_loop vs 0 buf bytes (done + len)
          in (o', d', v' # vs')
        else
          let (o', d', vs') = iov_from_buf_loop vs (offset - length v) buf bytes done
          in (o', d', v # vs')
      else (offset, done, v # vs))"

definition iov_from_buf ::
  "iovec list \<Rightarrow> nat \<Rightarrow> u8 list \<Rightarrow> nat \<Rightarrow> (nat \<times> iovec list) option" where
  "iov_from_buf iov offset buf bytes =
     (case iov_from_buf_loop iov offset buf bytes 0 of
        (offset', done, iov') \<Rightarrow> if offset' = 0 then Some (done, iov') else None)"

text \<open>The loop of \<^verbatim>\<open>iov_to_buf\<close>: the final \<^verbatim>\<open>offset\<close> and the bytes stored at \<^verbatim>\<open>buf\<close>; \<^verbatim>\<open>done\<close> is their number.\<close>

primrec iov_to_buf_loop :: "iovec list \<Rightarrow> nat \<Rightarrow> nat \<Rightarrow> u8 list \<Rightarrow> nat \<times> u8 list" where
  "iov_to_buf_loop [] offset bytes buf = (offset, buf)"
| "iov_to_buf_loop (v # vs) offset bytes buf =
     (if offset \<noteq> 0 \<or> length buf < bytes then
        if offset < length v then
          let len = min (length v - offset) (bytes - length buf)
          in iov_to_buf_loop vs 0 bytes (buf @ take len (drop offset v))
        else iov_to_buf_loop vs (offset - length v) bytes buf
      else (offset, buf))"

definition iov_to_buf :: "iovec list \<Rightarrow> nat \<Rightarrow> nat \<Rightarrow> u8 list option" where
  "iov_to_buf iov offset bytes =
     (case iov_to_buf_loop iov offset bytes [] of
        (offset', buf) \<Rightarrow> if offset' = 0 then Some buf else None)"

primrec iov_memset_loop ::
  "iovec list \<Rightarrow> nat \<Rightarrow> u8 \<Rightarrow> nat \<Rightarrow> nat \<Rightarrow> nat \<times> nat \<times> iovec list" where
  "iov_memset_loop [] offset fillc bytes done = (offset, done, [])"
| "iov_memset_loop (v # vs) offset fillc bytes done =
     (if offset \<noteq> 0 \<or> done < bytes then
        if offset < length v then
          let len = min (length v - offset) (bytes - done);
              v' = take offset v @ replicate len fillc @ drop (offset + len) v;
              (o', d', vs') = iov_memset_loop vs 0 fillc bytes (done + len)
          in (o', d', v' # vs')
        else
          let (o', d', vs') = iov_memset_loop vs (offset - length v) fillc bytes done
          in (o', d', v # vs')
      else (offset, done, v # vs))"

definition iov_memset ::
  "iovec list \<Rightarrow> nat \<Rightarrow> u8 \<Rightarrow> nat \<Rightarrow> (nat \<times> iovec list) option" where
  "iov_memset iov offset fillc bytes =
     (case iov_memset_loop iov offset fillc bytes 0 of
        (offset', done, iov') \<Rightarrow> if offset' = 0 then Some (done, iov') else None)"

primrec iov_size :: "iovec list \<Rightarrow> nat" where
  "iov_size [] = 0"
| "iov_size (v # vs) = length v + iov_size vs"

text \<open>\<^verbatim>\<open>iov_copy\<close>: the elements of \<^verbatim>\<open>dst_iov\<close> that are filled, as slices of the source elements.\<close>

primrec iov_copy_loop :: "nat \<Rightarrow> iovec list \<Rightarrow> nat \<Rightarrow> nat \<Rightarrow> nat \<times> iovec list" where
  "iov_copy_loop dst_iov_cnt [] offset bytes = (offset, [])"
| "iov_copy_loop dst_iov_cnt (v # vs) offset bytes =
     (if dst_iov_cnt = 0 \<or> bytes = 0 then (offset, [])
      else if offset \<ge> length v then iov_copy_loop dst_iov_cnt vs (offset - length v) bytes
      else
        let len = min bytes (length v - offset);
            (o', dst) = iov_copy_loop (dst_iov_cnt - 1) vs 0 (bytes - len)
        in (o', take len (drop offset v) # dst))"

definition iov_copy :: "nat \<Rightarrow> iovec list \<Rightarrow> nat \<Rightarrow> nat \<Rightarrow> iovec list option" where
  "iov_copy dst_iov_cnt iov offset bytes =
     (case iov_copy_loop dst_iov_cnt iov offset bytes of
        (offset', dst) \<Rightarrow> if offset' = 0 then Some dst else None)"

text \<open>\<^verbatim>\<open>iov_discard_front\<close> and \<^verbatim>\<open>iov_discard_back\<close>: the number of bytes dropped and the vector left.\<close>

primrec iov_discard_front :: "iovec list \<Rightarrow> nat \<Rightarrow> nat \<times> iovec list" where
  "iov_discard_front [] bytes = (0, [])"
| "iov_discard_front (cur # vs) bytes =
     (if length cur > bytes then (bytes, drop bytes cur # vs)
      else let (tot, vs') = iov_discard_front vs (bytes - length cur)
           in (length cur + tot, vs'))"

text \<open>The loop of \<^verbatim>\<open>iov_discard_back\<close> walks from the last element; the argument is the reversed vector.\<close>

primrec iov_discard_back_loop :: "iovec list \<Rightarrow> nat \<Rightarrow> nat \<times> iovec list" where
  "iov_discard_back_loop [] bytes = (0, [])"
| "iov_discard_back_loop (cur # vs) bytes =
     (if length cur > bytes then (bytes, take (length cur - bytes) cur # vs)
      else let (tot, vs') = iov_discard_back_loop vs (bytes - length cur)
           in (length cur + tot, vs'))"

definition iov_discard_back :: "iovec list \<Rightarrow> nat \<Rightarrow> nat \<times> iovec list" where
  "iov_discard_back iov bytes =
     (let (tot, vs) = iov_discard_back_loop (rev iov) bytes in (tot, rev vs))"

subsection \<open>The linear buffer behind a vector\<close>

lemma iov_size_concat: "iov_size iov = length (concat iov)"
  by (induction iov) auto

lemma iov_to_buf_loop_eq:
  "length buf \<le> bytes \<Longrightarrow>
   iov_to_buf_loop iov offset bytes buf =
     (offset - iov_size iov, buf @ take (bytes - length buf) (drop offset (concat iov)))"
proof (induction iov arbitrary: offset buf)
  case Nil
  then show ?case by simp
next
  case (Cons v vs)
  then show ?case by (auto simp: Let_def min_def)
qed

lemma iov_from_buf_loop_eq:
  assumes "done \<le> bytes" and "bytes \<le> length buf"
  shows "iov_from_buf_loop iov offset buf bytes done = (o', d', iov') \<Longrightarrow>
     o' = offset - iov_size iov \<and> d' = done + min (bytes - done) (iov_size iov - offset) \<and>
     map length iov' = map length iov \<and>
     concat iov' = take offset (concat iov) @ take (d' - done) (drop done buf) @
       drop (offset + (d' - done)) (concat iov)"
  using assms
proof (induction iov arbitrary: offset "done" o' d' iov')
  case Nil
  then show ?case by simp
next
  case (Cons v vs)
  consider (stop) "offset = 0" "done = bytes" | (skip) "length v \<le> offset" "offset \<noteq> 0 \<or> done < bytes"
    | (copy) "offset < length v" "offset \<noteq> 0 \<or> done < bytes"
    using Cons.prems by linarith
  then show ?case
  proof cases
    case stop
    with Cons.prems show ?thesis by auto
  next
    case skip
    with Cons.prems obtain vs' where vs': "iov' = v # vs'"
      "iov_from_buf_loop vs (offset - length v) buf bytes done = (o', d', vs')"
      by (auto split: prod.splits)
    from Cons.IH [OF vs'(2)] Cons.prems(2,3) skip vs'(1) show ?thesis by auto
  next
    case copy
    define len where "len = min (length v - offset) (bytes - done)"
    obtain o2 d2 vs' where rec: "iov_from_buf_loop vs 0 buf bytes (done + len) = (o2, d2, vs')"
      by (metis prod_cases3)
    with Cons.prems(1) copy have vs':
      "iov' = (take offset v @ take len (drop done buf) @ drop (offset + len) v) # vs'"
      "iov_from_buf_loop vs 0 buf bytes (done + len) = (o', d', vs')"
      by (simp_all add: len_def [symmetric] Let_def)
    have len: "len \<le> length v - offset" "done + len \<le> bytes"
      "len = length v - offset \<or> done + len = bytes"
      using Cons.prems(2) by (auto simp: len_def)
    define k where "k = d' - (done + len)"
    from Cons.IH [OF vs'(2) len(2) Cons.prems(3)]
    have IH: "o' = 0" "d' = done + len + min (bytes - (done + len)) (iov_size vs)"
      "map length vs' = map length vs"
      "concat vs' = take k (drop (done + len) buf) @ drop k (concat vs)"
      by (simp_all add: k_def)
    have k: "d' - done = len + k" "k = 0 \<or> len = length v - offset"
      using IH(2) len(3) by (auto simp: k_def)
    have "concat iov' = take offset v @ take (len + k) (drop done buf) @
        drop (offset + len) v @ drop k (concat vs)"
      using k(2) by (auto simp: vs'(1) IH(4) take_add add.commute [of _ "done"])
    moreover have "drop (offset + len) v @ drop k (concat vs) =
        drop (offset + (len + k)) (concat (v # vs))"
      using k(2) copy len(1) by auto
    moreover have "d' = done + min (bytes - done) (iov_size (v # vs) - offset)"
      using copy len IH(2) unfolding iov_size.simps by linarith
    moreover have "map length iov' = map length (v # vs)"
      using copy len Cons.prems(3) IH(3) by (simp add: vs'(1))
    ultimately show ?thesis
      unfolding k(1) using copy IH(1) by simp
  qed
qed

subsection \<open>Correctness\<close>

lemma iov_to_buf_eq:
  "iov_to_buf iov offset bytes =
     (if offset \<le> iov_size iov then Some (take bytes (drop offset (concat iov))) else None)"
  by (simp add: iov_to_buf_def iov_to_buf_loop_eq)

lemma iov_from_buf_SomeD:
  assumes "iov_from_buf iov offset buf bytes = Some (n, iov')" and "bytes \<le> length buf"
  shows "offset \<le> iov_size iov" and "n = min bytes (iov_size iov - offset)"
    and "map length iov' = map length iov"
    and "concat iov' = take offset (concat iov) @ take n buf @ drop (offset + n) (concat iov)"
proof -
  obtain o' where loop: "iov_from_buf_loop iov offset buf bytes 0 = (o', n, iov')" and "o' = 0"
    using assms(1) by (auto simp: iov_from_buf_def split: prod.splits if_splits)
  with iov_from_buf_loop_eq [OF _ assms(2) loop]
  show "offset \<le> iov_size iov" and "n = min bytes (iov_size iov - offset)"
    and "map length iov' = map length iov"
    and "concat iov' = take offset (concat iov) @ take n buf @ drop (offset + n) (concat iov)"
    by auto
qed

lemma iov_from_buf_defined:
  assumes "bytes \<le> length buf"
  shows "(iov_from_buf iov offset buf bytes = None) = (iov_size iov < offset)"
proof -
  obtain o' d' iov' where "iov_from_buf_loop iov offset buf bytes 0 = (o', d', iov')"
    by (metis prod_cases3)
  with iov_from_buf_loop_eq [OF _ assms this] show ?thesis
    by (auto simp: iov_from_buf_def)
qed

lemma iov_size_cong: "map length iov' = map length iov \<Longrightarrow> iov_size iov' = iov_size iov"
  by (simp add: iov_size_concat length_concat)

text \<open>\<^verbatim>\<open>iov_memset\<close> is \<^verbatim>\<open>iov_from_buf\<close> with a constant source buffer.\<close>

lemma iov_memset_loop_from_buf:
  "done \<le> bytes \<Longrightarrow>
   iov_memset_loop iov offset c bytes done =
     iov_from_buf_loop iov offset (replicate bytes c) bytes done"
proof (induction iov arbitrary: offset "done")
  case (Cons v vs)
  then show ?case by (simp add: Let_def)
qed simp

lemma iov_memset_from_buf:
  "iov_memset iov offset c bytes = iov_from_buf iov offset (replicate bytes c) bytes"
  by (simp add: iov_memset_def iov_from_buf_def iov_memset_loop_from_buf)

lemma iov_copy_loop_eq:
  "iov_copy_loop cnt iov offset bytes = (o', dst) \<Longrightarrow>
     length dst \<le> cnt \<and> (\<exists>zs. take bytes (drop offset (concat iov)) = concat dst @ zs) \<and>
     (length iov \<le> cnt \<longrightarrow> concat dst = take bytes (drop offset (concat iov)))"
proof (induction iov arbitrary: cnt offset bytes o' dst)
  case Nil
  then show ?case by simp
next
  case (Cons v vs)
  show ?case
  proof (cases "cnt = 0 \<or> bytes = 0")
    case True
    with Cons.prems show ?thesis by auto
  next
    case nz: False
    show ?thesis
    proof (cases "length v \<le> offset")
      case True
      with Cons.prems nz have "iov_copy_loop cnt vs (offset - length v) bytes = (o', dst)" by simp
      from Cons.IH [OF this] True show ?thesis by auto
    next
      case False
      define len where "len = min bytes (length v - offset)"
      obtain o2 dst' where rec: "iov_copy_loop (cnt - 1) vs 0 (bytes - len) = (o2, dst')"
        by (metis surj_pair)
      with False Cons.prems nz have dst: "dst = take len (drop offset v) # dst'"
        by (simp add: len_def [symmetric] Let_def)
      have split: "take bytes (drop offset (concat (v # vs))) =
          take len (drop offset v) @ take (bytes - len) (concat vs)"
        using False by (auto simp: len_def min_def)
      have IH: "length dst' \<le> cnt - 1" "\<exists>zs. take (bytes - len) (concat vs) = concat dst' @ zs"
        "length vs \<le> cnt - 1 \<Longrightarrow> concat dst' = take (bytes - len) (concat vs)"
        using Cons.IH [OF rec] by (simp_all only: drop_0)
      show ?thesis
        unfolding dst split using nz IH(1) by (auto simp: IH(2) intro: IH(3))
    qed
  qed
qed

lemma iov_discard_front_eq:
  "iov_discard_front iov bytes = (tot, iov') \<Longrightarrow>
     tot = min bytes (iov_size iov) \<and> concat iov' = drop bytes (concat iov)"
proof (induction iov arbitrary: bytes tot iov')
  case Nil
  then show ?case by simp
next
  case (Cons v vs)
  show ?case
  proof (cases "bytes < length v")
    case True
    with Cons.prems show ?thesis by auto
  next
    case False
    with Cons.prems obtain t where t: "tot = length v + t"
      "iov_discard_front vs (bytes - length v) = (t, iov')"
      by (auto split: prod.splits)
    from Cons.IH [OF t(2)] False t(1) show ?thesis by auto
  qed
qed

lemma iov_discard_back_loop_eq:
  "iov_discard_back_loop riov bytes = (tot, riov') \<Longrightarrow>
     tot = min bytes (iov_size riov) \<and>
     concat (rev riov') = take (iov_size riov - bytes) (concat (rev riov))"
proof (induction riov arbitrary: bytes tot riov')
  case Nil
  then show ?case by simp
next
  case (Cons v vs)
  have size: "iov_size vs = length (concat (rev vs))"
    by (simp add: iov_size_concat length_concat rev_map [symmetric])
  show ?case
  proof (cases "bytes < length v")
    case True
    with Cons.prems size show ?thesis by auto
  next
    case False
    with Cons.prems obtain t where t: "tot = length v + t"
      "iov_discard_back_loop vs (bytes - length v) = (t, riov')"
      by (auto split: prod.splits)
    from Cons.IH [OF t(2)] False t(1) size show ?thesis by (auto simp: add.commute)
  qed
qed

end
