(* ===== verification/Net_Queue.thy ===== *)
theory Net_Queue
  imports Iov
begin

text \<open>
  The packet queues between network clients: \<^verbatim>\<open>src/harness/qemu/net/queue.c\<close>, with the copies the
  harness keeps in \<^verbatim>\<open>klee_external_function_calls.c\<close>.

  A client is a number, a \<^verbatim>\<open>NetPacketSent\<close> callback a number too (\<open>None\<close> is the null pointer).  The
  function pointers of the code are arguments: \<open>deliver\<close> is \<^verbatim>\<open>qemu_deliver_packet\<close> on the client that
  owns the queue, \<open>can_send\<close> is \<^verbatim>\<open>qemu_can_send_packet\<close>, \<open>run_cb\<close> calls a callback.  They act on \<open>'r\<close>,
  the world outside this queue; a packet sent to the queue while it delivers is the case
  \<^verbatim>\<open>delivering\<close> of \<^verbatim>\<open>qemu_net_queue_send\<close>.  A delivery handler that never returns is \<open>None\<close>.
\<close>

subsection \<open>Packets and queues\<close>

record NetPacket =
  np_sender :: nat
  np_flags :: u32
  np_sent_cb :: "nat option"
  np_data :: "u8 list"

record NetQueue =
  nq_maxlen :: u32
  nq_count :: u32
  packets :: "NetPacket list"
  delivering :: bool

type_synonym 'r deliver_fn = "'r \<Rightarrow> nat \<Rightarrow> u32 \<Rightarrow> u8 list \<Rightarrow> (int \<times> 'r) option"
type_synonym 'r deliver_iov_fn = "'r \<Rightarrow> nat \<Rightarrow> u32 \<Rightarrow> iovec list \<Rightarrow> (int \<times> 'r) option"
type_synonym 'r sent_cb_fn = "nat \<Rightarrow> nat \<Rightarrow> int \<Rightarrow> 'r \<Rightarrow> 'r"

definition qemu_new_net_queue :: NetQueue where
  "qemu_new_net_queue = \<lparr>nq_maxlen = 10000, nq_count = 0, packets = [], delivering = False\<rparr>"

definition qemu_net_queue_append ::
  "NetQueue \<Rightarrow> nat \<Rightarrow> u32 \<Rightarrow> u8 list \<Rightarrow> nat option \<Rightarrow> NetQueue" where
  "qemu_net_queue_append queue sender flags buf sent_cb =
     (if nq_count queue \<ge> nq_maxlen queue \<and> sent_cb = None then queue
      else
        let packet = \<lparr>np_sender = sender, np_flags = flags, np_sent_cb = sent_cb, np_data = buf\<rparr>
        in queue\<lparr>nq_count := nq_count queue + 1, packets := packets queue @ [packet]\<rparr>)"

text \<open>The copying loop of \<^verbatim>\<open>qemu_net_queue_append_iov\<close>: the data gathered so far.\<close>

primrec append_iov_loop :: "iovec list \<Rightarrow> u8 list \<Rightarrow> u8 list" where
  "append_iov_loop [] data = data"
| "append_iov_loop (v # vs) data = append_iov_loop vs (data @ v)"

definition qemu_net_queue_append_iov ::
  "NetQueue \<Rightarrow> nat \<Rightarrow> u32 \<Rightarrow> iovec list \<Rightarrow> nat option \<Rightarrow> NetQueue" where
  "qemu_net_queue_append_iov queue sender flags iov sent_cb =
     (if nq_count queue \<ge> nq_maxlen queue \<and> sent_cb = None then queue
      else
        let packet = \<lparr>np_sender = sender, np_flags = flags, np_sent_cb = sent_cb,
                      np_data = append_iov_loop iov []\<rparr>
        in queue\<lparr>nq_count := nq_count queue + 1, packets := packets queue @ [packet]\<rparr>)"

definition qemu_net_queue_deliver ::
  "'r deliver_fn \<Rightarrow> NetQueue \<Rightarrow> 'r \<Rightarrow> nat \<Rightarrow> u32 \<Rightarrow> u8 list \<Rightarrow> (int \<times> NetQueue \<times> 'r) option" where
  "qemu_net_queue_deliver deliver queue r sender flags data =
     (let queue = queue\<lparr>delivering := True\<rparr>
      in case deliver r sender flags data of
           None \<Rightarrow> None
         | Some (ret, r) \<Rightarrow> Some (ret, queue\<lparr>delivering := False\<rparr>, r))"

definition qemu_net_queue_deliver_iov ::
  "'r deliver_iov_fn \<Rightarrow> NetQueue \<Rightarrow> 'r \<Rightarrow> nat \<Rightarrow> u32 \<Rightarrow> iovec list \<Rightarrow> (int \<times> NetQueue \<times> 'r) option" where
  "qemu_net_queue_deliver_iov deliver_iov queue r sender flags iov =
     (let queue = queue\<lparr>delivering := True\<rparr>
      in case deliver_iov r sender flags iov of
           None \<Rightarrow> None
         | Some (ret, r) \<Rightarrow> Some (ret, queue\<lparr>delivering := False\<rparr>, r))"

text \<open>
  \<^verbatim>\<open>qemu_net_queue_flush\<close>.  Each round of the loop takes the head packet off the queue, so the loop is
  a recursion on the packets; the queue record in the argument carries the other fields.
\<close>

primrec flush_loop ::
  "'r deliver_fn \<Rightarrow> 'r sent_cb_fn \<Rightarrow> NetPacket list \<Rightarrow> NetQueue \<Rightarrow> 'r \<Rightarrow> (bool \<times> NetQueue \<times> 'r) option" where
  "flush_loop deliver run_cb [] queue r = Some (True, queue\<lparr>packets := []\<rparr>, r)"
| "flush_loop deliver run_cb (packet # rest) queue r =
     (let queue = queue\<lparr>packets := rest, nq_count := nq_count queue - 1\<rparr>
      in case qemu_net_queue_deliver deliver queue r (np_sender packet) (np_flags packet)
                (np_data packet) of
           None \<Rightarrow> None
         | Some (ret, queue, r) \<Rightarrow>
             if ret = 0 then
               Some (False, queue\<lparr>nq_count := nq_count queue + 1,
                                  packets := packet # packets queue\<rparr>, r)
             else
               flush_loop deliver run_cb rest queue
                 (case np_sent_cb packet of None \<Rightarrow> r
                  | Some cb \<Rightarrow> run_cb cb (np_sender packet) ret r))"

definition qemu_net_queue_flush ::
  "'r deliver_fn \<Rightarrow> 'r sent_cb_fn \<Rightarrow> NetQueue \<Rightarrow> 'r \<Rightarrow> (bool \<times> NetQueue \<times> 'r) option" where
  "qemu_net_queue_flush deliver run_cb queue r = flush_loop deliver run_cb (packets queue) queue r"

definition qemu_net_queue_send ::
  "'r deliver_fn \<Rightarrow> 'r sent_cb_fn \<Rightarrow> ('r \<Rightarrow> nat \<Rightarrow> bool) \<Rightarrow> NetQueue \<Rightarrow> 'r \<Rightarrow> nat \<Rightarrow> u32 \<Rightarrow> u8 list \<Rightarrow>
   nat option \<Rightarrow> (int \<times> NetQueue \<times> 'r) option" where
  "qemu_net_queue_send deliver run_cb can_send queue r sender flags data sent_cb =
     (if delivering queue \<or> \<not> can_send r sender then
        Some (0, qemu_net_queue_append queue sender flags data sent_cb, r)
      else
        case qemu_net_queue_deliver deliver queue r sender flags data of
          None \<Rightarrow> None
        | Some (ret, queue, r) \<Rightarrow>
            if ret = 0 then Some (0, qemu_net_queue_append queue sender flags data sent_cb, r)
            else
              case qemu_net_queue_flush deliver run_cb queue r of
                None \<Rightarrow> None
              | Some (b, queue, r) \<Rightarrow> Some (ret, queue, r))"

definition qemu_net_queue_send_iov ::
  "'r deliver_fn \<Rightarrow> 'r deliver_iov_fn \<Rightarrow> 'r sent_cb_fn \<Rightarrow> ('r \<Rightarrow> nat \<Rightarrow> bool) \<Rightarrow> NetQueue \<Rightarrow> 'r \<Rightarrow> nat \<Rightarrow>
   u32 \<Rightarrow> iovec list \<Rightarrow> nat option \<Rightarrow> (int \<times> NetQueue \<times> 'r) option" where
  "qemu_net_queue_send_iov deliver deliver_iov run_cb can_send queue r sender flags iov sent_cb =
     (if delivering queue \<or> \<not> can_send r sender then
        Some (0, qemu_net_queue_append_iov queue sender flags iov sent_cb, r)
      else
        case qemu_net_queue_deliver_iov deliver_iov queue r sender flags iov of
          None \<Rightarrow> None
        | Some (ret, queue, r) \<Rightarrow>
            if ret = 0 then Some (0, qemu_net_queue_append_iov queue sender flags iov sent_cb, r)
            else
              case qemu_net_queue_flush deliver run_cb queue r of
                None \<Rightarrow> None
              | Some (b, queue, r) \<Rightarrow> Some (ret, queue, r))"

text \<open>\<^verbatim>\<open>qemu_net_queue_purge\<close>: every packet of one sender is removed and the counter follows.\<close>

primrec purge_loop :: "NetPacket list \<Rightarrow> nat \<Rightarrow> u32 \<Rightarrow> NetPacket list \<times> u32" where
  "purge_loop [] from count = ([], count)"
| "purge_loop (packet # rest) from count =
     (if np_sender packet = from then purge_loop rest from (count - 1)
      else let (ps, count') = purge_loop rest from count in (packet # ps, count'))"

definition qemu_net_queue_purge :: "NetQueue \<Rightarrow> nat \<Rightarrow> NetQueue" where
  "qemu_net_queue_purge queue from =
     (let (ps, count) = purge_loop (packets queue) from (nq_count queue)
      in queue\<lparr>packets := ps, nq_count := count\<rparr>)"

subsection \<open>The counter counts\<close>

text \<open>The invariant of a queue at rest: the counter is the number of packets held.\<close>

definition queue_wf :: "NetQueue \<Rightarrow> bool" where
  "queue_wf queue \<longleftrightarrow> nq_count queue = of_nat (length (packets queue)) \<and> \<not> delivering queue"

lemma queue_wf_new: "queue_wf qemu_new_net_queue"
  by (simp add: queue_wf_def qemu_new_net_queue_def)

lemma queue_wf_append: "queue_wf queue \<Longrightarrow> queue_wf (qemu_net_queue_append queue s f d cb)"
  by (simp add: queue_wf_def qemu_net_queue_append_def Let_def)

lemma append_iov_loop_eq: "append_iov_loop iov data = data @ concat iov"
  by (induction iov arbitrary: data) simp_all

text \<open>Queueing a vector is queueing its linear buffer.\<close>

lemma append_iov_flat:
  "qemu_net_queue_append_iov queue s f iov cb = qemu_net_queue_append queue s f (concat iov) cb"
  by (simp add: qemu_net_queue_append_iov_def qemu_net_queue_append_def append_iov_loop_eq)

lemma purge_loop_eq:
  "purge_loop ps from count =
     (filter (\<lambda>p. np_sender p \<noteq> from) ps,
      count - of_nat (length (filter (\<lambda>p. np_sender p = from) ps)))"
  by (induction ps arbitrary: count) (auto simp: algebra_simps)

lemma queue_wf_purge: "queue_wf queue \<Longrightarrow> queue_wf (qemu_net_queue_purge queue from)"
proof -
  assume wf: "queue_wf queue"
  have "length (packets queue) =
      length (filter (\<lambda>p. np_sender p \<noteq> from) (packets queue)) +
      length (filter (\<lambda>p. np_sender p = from) (packets queue))"
    using sum_length_filter_compl [of "\<lambda>p. np_sender p = from" "packets queue"] by simp
  with wf show ?thesis
    by (simp add: queue_wf_def qemu_net_queue_purge_def purge_loop_eq)
qed

subsection \<open>Flushing delivers in order and loses nothing\<close>

text \<open>
  \<open>accepts deliver run_cb ps r r'\<close>: the packets \<open>ps\<close> are delivered one after the other from the world
  \<open>r\<close>, each is taken (a nonzero return) and its callback runs before the next; the end is \<open>r'\<close>.
\<close>

inductive accepts :: "'r deliver_fn \<Rightarrow> 'r sent_cb_fn \<Rightarrow> NetPacket list \<Rightarrow> 'r \<Rightarrow> 'r \<Rightarrow> bool"
  for deliver run_cb where
  accepts_Nil: "accepts deliver run_cb [] r r"
| accepts_Cons:
    "\<lbrakk>deliver r (np_sender p) (np_flags p) (np_data p) = Some (ret, r1); ret \<noteq> 0;
      r2 = (case np_sent_cb p of None \<Rightarrow> r1 | Some cb \<Rightarrow> run_cb cb (np_sender p) ret r1);
      accepts deliver run_cb ps r2 r'\<rbrakk> \<Longrightarrow> accepts deliver run_cb (p # ps) r r'"

inductive_cases accepts_ConsE: "accepts deliver run_cb (p # ps) r r'"

lemma flush_loop_spec:
  "flush_loop deliver run_cb ps queue r = Some (b, queue', r') \<Longrightarrow>
   \<exists>taken left r1. ps = taken @ left \<and> packets queue' = left \<and> (b \<longleftrightarrow> left = []) \<and>
     nq_count queue' = nq_count queue - of_nat (length taken) \<and>
     nq_maxlen queue' = nq_maxlen queue \<and> (delivering queue' \<longrightarrow> delivering queue) \<and>
     accepts deliver run_cb taken r r1 \<and>
     (case left of [] \<Rightarrow> r' = r1
      | p # _ \<Rightarrow> deliver r1 (np_sender p) (np_flags p) (np_data p) = Some (0, r'))"
proof (induction ps arbitrary: queue r)
  case Nil
  then show ?case by (auto intro: accepts_Nil)
next
  case (Cons p ps)
  define q where "q = queue\<lparr>packets := ps, nq_count := nq_count queue - 1, delivering := False\<rparr>"
  obtain ret r2 where d: "deliver r (np_sender p) (np_flags p) (np_data p) = Some (ret, r2)"
    using Cons.prems by (auto simp: qemu_net_queue_deliver_def Let_def split: option.splits)
  show ?case
  proof (cases "ret = 0")
    case True
    with Cons.prems d have "\<not> b" "r' = r2" "queue' = q\<lparr>packets := p # ps, nq_count := nq_count queue\<rparr>"
      by (auto simp: qemu_net_queue_deliver_def Let_def q_def)
    with True d show ?thesis
      by (intro exI [of _ "[]"] exI [of _ "p # ps"] exI [of _ r]) (auto simp: q_def intro: accepts_Nil)
  next
    case False
    define r3 where "r3 = (case np_sent_cb p of None \<Rightarrow> r2 | Some cb \<Rightarrow> run_cb cb (np_sender p) ret r2)"
    have "flush_loop deliver run_cb ps q r3 = Some (b, queue', r')"
      using Cons.prems d False
      by (simp add: qemu_net_queue_deliver_def Let_def q_def r3_def)
    from Cons.IH [OF this] obtain taken left r1 where
      IH: "ps = taken @ left" "packets queue' = left" "b \<longleftrightarrow> left = []"
        "nq_count queue' = nq_count q - of_nat (length taken)"
        "nq_maxlen queue' = nq_maxlen q" "delivering queue' \<longrightarrow> delivering q"
        "accepts deliver run_cb taken r3 r1"
        "case left of [] \<Rightarrow> r' = r1
         | p # _ \<Rightarrow> deliver r1 (np_sender p) (np_flags p) (np_data p) = Some (0, r')"
      by blast
    have "accepts deliver run_cb (p # taken) r r1"
      using d False r3_def IH(7) by (rule accepts_Cons)
    with IH show ?thesis
      by (intro exI [of _ "p # taken"] exI [of _ left] exI [of _ r1]) (auto simp: q_def)
  qed
qed

lemma queue_wf_flush:
  assumes "queue_wf queue" and "qemu_net_queue_flush deliver run_cb queue r = Some (b, queue', r')"
  shows "queue_wf queue'"
  using flush_loop_spec [OF assms(2) [unfolded qemu_net_queue_flush_def]] assms(1)
  by (auto simp: queue_wf_def)

lemma queue_wf_send:
  assumes "queue_wf queue"
    and "qemu_net_queue_send deliver run_cb can_send queue r s f d cb = Some (ret, queue', r')"
  shows "queue_wf queue'"
proof -
  have "queue_wf (queue\<lparr>delivering := False\<rparr>)" using assms(1) by (simp add: queue_wf_def)
  with assms show ?thesis
    by (auto simp: qemu_net_queue_send_def qemu_net_queue_deliver_def Let_def
        intro: queue_wf_append queue_wf_flush split: if_splits option.splits)
qed

subsection \<open>The contract of a receiver\<close>

text \<open>
  What a client that owns a queue promises to it: its delivery handler and the callbacks keep the
  client's invariant.  Then every queue operation that returns has kept it.
\<close>

locale queue_client =
  fixes deliver :: "'r deliver_fn" and run_cb :: "'r sent_cb_fn" and inv :: "'r \<Rightarrow> bool"
  assumes deliver_inv: "inv r \<Longrightarrow> deliver r s f d = Some (ret, r') \<Longrightarrow> inv r'"
    and run_cb_inv: "inv r \<Longrightarrow> inv (run_cb cb s ret r)"
begin

lemma accepts_inv: "accepts deliver run_cb ps r r' \<Longrightarrow> inv r \<Longrightarrow> inv r'"
proof (induction rule: accepts.induct)
  case (accepts_Cons r p ret r1 r2 ps r')
  have "inv r1" using accepts_Cons.prems accepts_Cons.hyps(1) by (rule deliver_inv)
  then have "inv r2" using accepts_Cons.hyps(3) by (simp add: run_cb_inv split: option.splits)
  then show ?case by (rule accepts_Cons.IH)
qed

lemma flush_inv:
  assumes "qemu_net_queue_flush deliver run_cb queue r = Some (b, queue', r')" and "inv r"
  shows "inv r'"
proof -
  obtain taken and left :: "NetPacket list" and r1 where taken: "accepts deliver run_cb taken r r1"
    and last: "case left of [] \<Rightarrow> r' = r1
      | p # _ \<Rightarrow> deliver r1 (np_sender p) (np_flags p) (np_data p) = Some (0, r')"
    using flush_loop_spec [OF assms(1) [unfolded qemu_net_queue_flush_def]] by blast
  have "inv r1" using taken assms(2) by (rule accepts_inv)
  with last show ?thesis by (cases left) (auto dest: deliver_inv)
qed

lemma send_inv:
  assumes "qemu_net_queue_send deliver run_cb can_send queue r s f d cb = Some (ret, queue', r')"
    and "inv r"
  shows "inv r'"
  using assms
  by (auto simp: qemu_net_queue_send_def qemu_net_queue_deliver_def Let_def
      split: if_splits option.splits dest!: deliver_inv [OF assms(2)] dest: flush_inv)

end

text \<open>A receiver's handler also returns in every state of the invariant; then the queue operations return.\<close>

locale receiver = queue_client +
  assumes deliver_returns: "inv r \<Longrightarrow> deliver r s f d \<noteq> None"
begin

lemma flush_loop_returns:
  "inv r \<Longrightarrow> \<exists>b queue' r'. flush_loop deliver run_cb ps queue r = Some (b, queue', r') \<and> inv r'"
proof (induction ps arbitrary: queue r)
  case (Cons p ps)
  obtain ret r1 where "deliver r (np_sender p) (np_flags p) (np_data p) = Some (ret, r1)" "inv r1"
    using deliver_returns [OF Cons.prems] deliver_inv [OF Cons.prems] by (metis not_Some_eq surj_pair)
  then show ?case
    by (auto simp: qemu_net_queue_deliver_def Let_def run_cb_inv intro: Cons.IH split: option.split)
qed auto

lemma flush_returns:
  "inv r \<Longrightarrow> \<exists>b queue' r'. qemu_net_queue_flush deliver run_cb queue r = Some (b, queue', r') \<and> inv r'"
  unfolding qemu_net_queue_flush_def by (rule flush_loop_returns)

lemma send_returns:
  assumes "inv r"
  shows "\<exists>ret queue' r'. qemu_net_queue_send deliver run_cb can_send queue r s f d cb =
    Some (ret, queue', r') \<and> inv r'"
proof (cases "delivering queue \<or> \<not> can_send r s")
  case False
  obtain ret r1 where "deliver r s f d = Some (ret, r1)" "inv r1"
    using deliver_returns [OF assms] deliver_inv [OF assms] by (metis not_Some_eq surj_pair)
  moreover from flush_returns [OF \<open>inv r1\<close>, of "queue\<lparr>delivering := False\<rparr>"]
  obtain b q r2 where
    "qemu_net_queue_flush deliver run_cb (queue\<lparr>delivering := False\<rparr>) r1 = Some (b, q, r2)" "inv r2"
    by blast
  ultimately show ?thesis
    using False by (auto simp: qemu_net_queue_send_def qemu_net_queue_deliver_def Let_def)
qed (auto simp: qemu_net_queue_send_def assms)

end

end
