(* ===== verification/E1000_State.thy ===== *)
theory E1000_State
  imports E1000_Regs Net_Queue
begin

text \<open>
  The state of the e1000 device model (\<^verbatim>\<open>src/harness/e1000/e1000.c\<close>, \<^verbatim>\<open>E1000State\<close>) together with what
  the device acts on: its net client (\<^verbatim>\<open>NetClientState\<close>), guest memory, the virtual clock and the
  interrupt pin.

  Register files and byte arrays are functions from indices; that the code indexes them inside
  their bounds is proved with the operations.  Flags that the code only sets to 0 or 1 are
  booleans.  A timer is \<open>None\<close> when it is not pending and otherwise its expiry time, in the unit of
  its scale.  Guest memory is the RAM that bus-master accesses reach.
\<close>

subsection \<open>Records\<close>

record NetClientState =
  link_down :: bool
  receive_disabled :: bool
  incoming_queue :: NetQueue
  has_peer :: bool
  peer_is_hubport :: bool
  nc_model :: string
  info_str :: string

record e1000_tx =
  tp_header :: buf
  tp_vlan_header :: buf
  tp_vlan :: buf
  tp_data :: buf
  tp_size :: u16
  tp_sum_needed :: u8
  tp_vlan_needed :: bool
  tp_ipcss :: u8
  tp_ipcso :: u8
  tp_ipcse :: u16
  tp_tucss :: u8
  tp_tucso :: u8
  tp_tucse :: u16
  tp_hdr_len :: u8
  tp_mss :: u16
  tp_paylen :: u32
  tp_tso_frames :: u16
  tp_tse :: bool
  tp_ip :: bool
  tp_tcp :: bool
  tp_cptse :: bool

record eecd_state =
  val_in :: u32
  bitnum_in :: u16
  bitnum_out :: u16
  reading :: bool
  old_eecd :: u32

record E1000State =
  nc :: NetClientState
  macaddr :: "u8 list"
  mac_reg :: "nat \<Rightarrow> u32"
  phy_reg :: "nat \<Rightarrow> u16"
  eeprom_data :: "nat \<Rightarrow> u16"
  rxbuf_size :: u32
  rxbuf_min_shift :: u32
  tx :: e1000_tx
  eecd :: eecd_state
  autoneg_timer :: "int option"
  mit_timer :: "int option"
  mit_timer_on :: bool
  mit_irq_level :: bool
  mit_ide :: u32
  compat_flags :: u32
  \<comment> \<open>the machine around the device\<close>
  ram :: "u64 \<Rightarrow> u8"
  clock_ns :: int
  pci_irq :: bool
  sent_packets :: "u8 list list"
  notify_count :: nat
  hub_flushes :: nat
  sent_cbs :: "(nat \<times> nat \<times> int) list"

abbreviation mac_set :: "nat \<Rightarrow> u32 \<Rightarrow> E1000State \<Rightarrow> E1000State" where
  "mac_set r v s \<equiv> s\<lparr>mac_reg := (mac_reg s)(r := v)\<rparr>"

abbreviation phy_set :: "nat \<Rightarrow> u16 \<Rightarrow> E1000State \<Rightarrow> E1000State" where
  "phy_set r v s \<equiv> s\<lparr>phy_reg := (phy_reg s)(r := v)\<rparr>"

subsection \<open>Constants of e1000.c\<close>

definition E1000_DEVID :: u16 where
  "E1000_DEVID = E1000_DEV_ID_82540EM"

definition PHY_ID2_INIT :: u16 where
  "PHY_ID2_INIT =
     (if E1000_DEVID = E1000_DEV_ID_82573L then 0xcc2
      else if E1000_DEVID = E1000_DEV_ID_82544GC_COPPER then 0xc30
      else 0xc20)"

definition E1000_FLAG_AUTONEG :: u32 where [e1000_mask]: "E1000_FLAG_AUTONEG = 0x1"
definition E1000_FLAG_MIT :: u32 where [e1000_mask]: "E1000_FLAG_MIT = 0x2"

abbreviation (input) MIN_BUF_SIZE :: nat where "MIN_BUF_SIZE \<equiv> 60"
abbreviation (input) MAXIMUM_ETHERNET_VLAN_SIZE :: nat where "MAXIMUM_ETHERNET_VLAN_SIZE \<equiv> 1522"
abbreviation (input) MAXIMUM_ETHERNET_LPE_SIZE :: nat where "MAXIMUM_ETHERNET_LPE_SIZE \<equiv> 16384"
abbreviation (input) MAXIMUM_ETHERNET_HDR_LEN :: nat where "MAXIMUM_ETHERNET_HDR_LEN \<equiv> 14 + 4"

subsection \<open>Guest memory\<close>

text \<open>
  \<^verbatim>\<open>pci_dma_read\<close> and \<^verbatim>\<open>pci_dma_write\<close>.  Addresses are 64-bit words, so a transfer that passes the
  top of the address space wraps.
\<close>

definition ram_read :: "(u64 \<Rightarrow> u8) \<Rightarrow> u64 \<Rightarrow> nat \<Rightarrow> u8 list" where
  "ram_read m a n = map (\<lambda>i. m (a + of_nat i)) [0..<n]"

definition ram_write :: "(u64 \<Rightarrow> u8) \<Rightarrow> u64 \<Rightarrow> u8 list \<Rightarrow> (u64 \<Rightarrow> u8)" where
  "ram_write m a bs = (\<lambda>x. if unat (x - a) < length bs then bs ! unat (x - a) else m x)"

definition pci_dma_read :: "E1000State \<Rightarrow> u64 \<Rightarrow> nat \<Rightarrow> u8 list" where
  "pci_dma_read s a n = ram_read (ram s) a n"

definition pci_dma_write :: "E1000State \<Rightarrow> u64 \<Rightarrow> u8 list \<Rightarrow> E1000State" where
  "pci_dma_write s a bs = s\<lparr>ram := ram_write (ram s) a bs\<rparr>"

text \<open>
  What the device relies on when it talks to memory through the bus: a transfer returns the bytes
  last written, and leaves other bytes alone.
\<close>

locale dma_memory =
  fixes rd :: "'m \<Rightarrow> u64 \<Rightarrow> nat \<Rightarrow> u8 list" and wr :: "'m \<Rightarrow> u64 \<Rightarrow> u8 list \<Rightarrow> 'm"
  assumes length_rd: "length (rd m a n) = n"
    and rd_add: "rd m a (k + n) = rd m a k @ rd m (a + of_nat k) n"
    and rd_wr_same: "length bs \<le> 2 ^ 64 \<Longrightarrow> rd (wr m a bs) a (length bs) = bs"
    and rd_wr_disjoint:
      "\<lbrakk>\<And>i j. i < n \<Longrightarrow> j < length bs \<Longrightarrow> a + of_nat i \<noteq> b + of_nat j\<rbrakk> \<Longrightarrow>
       rd (wr m b bs) a n = rd m a n"
begin

text \<open>A slice of a region that was written in one transfer.\<close>

lemma rd_wr_slice:
  assumes "length bs \<le> 2 ^ 64" and "k + n \<le> length bs"
  shows "rd (wr m a bs) (a + of_nat k) n = take n (drop k bs)"
proof -
  let ?m = "wr m a bs" and ?r = "length bs - (k + n)"
  have len: "length bs = k + (n + ?r)" using assms(2) by simp
  have "bs = rd ?m a (k + (n + ?r))"
    using rd_wr_same [OF assms(1), of m a] len by simp
  also have "\<dots> = rd ?m a k @ rd ?m (a + of_nat k) n @ rd ?m (a + of_nat k + of_nat n) ?r"
    by (simp only: rd_add)
  finally have "drop k bs = rd ?m (a + of_nat k) n @ rd ?m (a + of_nat k + of_nat n) ?r"
    by (metis append_eq_conv_conj length_rd)
  then show ?thesis by (simp add: length_rd)
qed

end

lemma length_ram_read [simp]: "length (ram_read m a n) = n"
  by (simp add: ram_read_def)

lemma unat_of_nat_u64: "i < 2 ^ 64 \<Longrightarrow> unat (of_nat i :: u64) = i"
  by (simp add: unat_of_nat)

interpretation guest_ram: dma_memory ram_read ram_write
proof
  show "length (ram_read m a n) = n" for m a n by simp
  show "ram_read m a (k + n) = ram_read m a k @ ram_read m (a + of_nat k) n" for m a k n
    by (rule nth_equalityI) (auto simp: ram_read_def nth_append add.assoc simp flip: of_nat_add)
  show "ram_read (ram_write m a bs) a (length bs) = bs" if "length bs \<le> 2 ^ 64" for m a bs
    using that by (intro nth_equalityI) (simp_all add: ram_read_def ram_write_def unat_of_nat_u64)
  show "ram_read (ram_write m b bs) a n = ram_read m a n"
    if *: "\<And>i j. i < n \<Longrightarrow> j < length bs \<Longrightarrow> a + of_nat i \<noteq> b + of_nat j" for m b bs a n
  proof (rule nth_equalityI)
    fix i assume "i < length (ram_read (ram_write m b bs) a n)"
    then have i: "i < n" by simp
    have "\<not> unat (a + of_nat i - b) < length bs"
      using * [OF i, of "unat (a + of_nat i - b)"] by auto
    with i show "ram_read (ram_write m b bs) a n ! i = ram_read m a n ! i"
      by (simp add: ram_read_def ram_write_def)
  qed simp
qed

subsection \<open>Timers and the interrupt pin\<close>

definition qemu_clock_get_ns :: "E1000State \<Rightarrow> int" where
  "qemu_clock_get_ns s = clock_ns s"

definition qemu_clock_get_ms :: "E1000State \<Rightarrow> int" where
  "qemu_clock_get_ms s = clock_ns s div 1000000"

definition pci_set_irq :: "E1000State \<Rightarrow> bool \<Rightarrow> E1000State" where
  "pci_set_irq s level = s\<lparr>pci_irq := level\<rparr>"

end
