(* ===== verification/E1000_Intr.thy ===== *)
theory E1000_Intr
  imports E1000_State
begin

text \<open>
  Link state, interrupt causes with their mitigation, and the PHY behind the MDI control register
  (\<^verbatim>\<open>src/harness/e1000/e1000.c\<close>, \<^verbatim>\<open>e1000_link_down\<close> to \<^verbatim>\<open>set_mdic\<close>).

  The invariant \<open>intr_inv\<close> is the contract of the interrupt logic: the pin shows what the driver has
  unmasked, except inside a mitigation window that a pending timer will close.
\<close>

subsection \<open>Link status\<close>

definition e1000_link_down :: "E1000State \<Rightarrow> E1000State" where
  "e1000_link_down s =
     (let s = mac_set STATUS (mac_reg s STATUS AND NOT E1000_STATUS_LU) s
      in phy_set PHY_STATUS (phy_reg s PHY_STATUS AND NOT MII_SR_LINK_STATUS) s)"

definition e1000_link_up :: "E1000State \<Rightarrow> E1000State" where
  "e1000_link_up s =
     (let s = mac_set STATUS (mac_reg s STATUS OR E1000_STATUS_LU) s
      in phy_set PHY_STATUS (phy_reg s PHY_STATUS OR MII_SR_LINK_STATUS) s)"

definition set_phy_ctrl :: "E1000State \<Rightarrow> nat \<Rightarrow> u16 \<Rightarrow> E1000State" where
  "set_phy_ctrl s index val =
     (if \<not> tst (compat_flags s) E1000_FLAG_AUTONEG then s
      else if tst val MII_CR_AUTO_NEG_EN \<and> tst val MII_CR_RESTART_AUTO_NEG then
        let s = e1000_link_down s;
            s = phy_set PHY_STATUS (phy_reg s PHY_STATUS AND NOT MII_SR_AUTONEG_COMPLETE) s
        in s\<lparr>autoneg_timer := Some (qemu_clock_get_ms s + 500)\<rparr>
      else s)"

definition e1000_autoneg_timer :: "E1000State \<Rightarrow> E1000State" where
  "e1000_autoneg_timer s =
     (let s = (if \<not> link_down (nc s) then e1000_link_up s else s)
      in phy_set PHY_STATUS (phy_reg s PHY_STATUS OR MII_SR_AUTONEG_COMPLETE) s)"

definition phyreg_writeops :: "nat \<Rightarrow> (E1000State \<Rightarrow> nat \<Rightarrow> u16 \<Rightarrow> E1000State) option" where
  "phyreg_writeops addr = (if addr = PHY_CTRL then Some set_phy_ctrl else None)"

abbreviation (input) NPHYWRITEOPS :: nat where "NPHYWRITEOPS \<equiv> 1"

definition PHY_R :: u8 where "PHY_R = 1"
definition PHY_W :: u8 where "PHY_W = 2"
definition PHY_RW :: u8 where "PHY_RW = PHY_R OR PHY_W"

definition phy_regcap :: "nat \<Rightarrow> u8" where
  "phy_regcap =
     (\<lambda>_. 0)(PHY_STATUS := PHY_R, M88E1000_EXT_PHY_SPEC_CTRL := PHY_RW,
             PHY_ID1 := PHY_R, M88E1000_PHY_SPEC_CTRL := PHY_RW,
             PHY_CTRL := PHY_RW, PHY_1000T_CTRL := PHY_RW,
             PHY_LP_ABILITY := PHY_R, PHY_1000T_STATUS := PHY_R,
             PHY_AUTONEG_ADV := PHY_RW, M88E1000_RX_ERR_CNTR := PHY_R,
             PHY_ID2 := PHY_R, M88E1000_PHY_SPEC_STATUS := PHY_R)"

subsection \<open>Interrupt causes\<close>

text \<open>\<^verbatim>\<open>mit_update_delay\<close>: the new value of \<^verbatim>\<open>*curr\<close>.\<close>

definition mit_update_delay :: "u32 \<Rightarrow> u32 \<Rightarrow> u32" where
  "mit_update_delay cur value =
     (if value \<noteq> 0 \<and> (cur = 0 \<or> value < cur) then value else cur)"

text \<open>The delay computed inside \<^verbatim>\<open>set_interrupt_cause\<close>, in units of 256 ns; 0 means no delay.\<close>

definition mit_delay :: "E1000State \<Rightarrow> u32 \<Rightarrow> u32" where
  "mit_delay s pending_ints =
     (let d = 0;
          d = (if mit_ide s \<noteq> 0 \<and> tst pending_ints (E1000_ICR_TXQE OR E1000_ICR_TXDW)
               then mit_update_delay d (mac_reg s TADV * 4) else d);
          d = (if mac_reg s RDTR \<noteq> 0 \<and> tst pending_ints E1000_ICR_RXT0
               then mit_update_delay d (mac_reg s RADV * 4) else d)
      in mit_update_delay d (mac_reg s ITR))"

text \<open>The rearming of the mitigation timer inside \<^verbatim>\<open>set_interrupt_cause\<close>.\<close>

definition mit_rearm :: "E1000State \<Rightarrow> u32 \<Rightarrow> E1000State" where
  "mit_rearm s pending_ints =
     (let d = mit_delay s pending_ints;
          s = (if d \<noteq> 0 then
                 s\<lparr>mit_timer_on := True,
                   mit_timer := Some (qemu_clock_get_ns s + uint (d * 256))\<rparr>
               else s)
      in s\<lparr>mit_ide := 0\<rparr>)"

definition set_interrupt_cause :: "E1000State \<Rightarrow> nat \<Rightarrow> u32 \<Rightarrow> E1000State" where
  "set_interrupt_cause s index val =
     (let val = (if val \<noteq> 0 \<and> E1000_DEVID \<ge> E1000_DEV_ID_82547EI_MOBILE
                 then val OR E1000_ICR_INT_ASSERTED else val);
          s = mac_set ICR val s;
          s = mac_set ICS val s;
          pending_ints = mac_reg s IMS AND mac_reg s ICR
      in if \<not> mit_irq_level s \<and> pending_ints \<noteq> 0 \<and> mit_timer_on s then s
         else
           let s = (if \<not> mit_irq_level s \<and> pending_ints \<noteq> 0 \<and> tst (compat_flags s) E1000_FLAG_MIT
                    then mit_rearm s pending_ints else s);
               s = s\<lparr>mit_irq_level := pending_ints \<noteq> 0\<rparr>
           in pci_set_irq s (mit_irq_level s))"

definition e1000_mit_timer :: "E1000State \<Rightarrow> E1000State" where
  "e1000_mit_timer s =
     (let s = s\<lparr>mit_timer_on := False\<rparr> in set_interrupt_cause s 0 (mac_reg s ICR))"

definition set_ics :: "E1000State \<Rightarrow> nat \<Rightarrow> u32 \<Rightarrow> E1000State" where
  "set_ics s index val = set_interrupt_cause s 0 (val OR mac_reg s ICR)"

definition mac_icr_read :: "E1000State \<Rightarrow> nat \<Rightarrow> u32 \<times> E1000State" where
  "mac_icr_read s index = (mac_reg s ICR, set_interrupt_cause s 0 0)"

definition set_icr :: "E1000State \<Rightarrow> nat \<Rightarrow> u32 \<Rightarrow> E1000State" where
  "set_icr s index val = set_interrupt_cause s 0 (mac_reg s ICR AND NOT val)"

definition set_imc :: "E1000State \<Rightarrow> nat \<Rightarrow> u32 \<Rightarrow> E1000State" where
  "set_imc s index val = set_ics (mac_set IMS (mac_reg s IMS AND NOT val) s) 0 0"

definition set_ims :: "E1000State \<Rightarrow> nat \<Rightarrow> u32 \<Rightarrow> E1000State" where
  "set_ims s index val = set_ics (mac_set IMS (mac_reg s IMS OR val) s) 0 0"

definition e1000_set_link_status :: "E1000State \<Rightarrow> E1000State" where
  "e1000_set_link_status s =
     (let old_status = mac_reg s STATUS;
          s = (if link_down (nc s) then e1000_link_down s else e1000_link_up s)
      in if mac_reg s STATUS \<noteq> old_status then set_ics s 0 E1000_ICR_LSC else s)"

subsection \<open>MDI control\<close>

text \<open>The access itself: the value for the register (before the ready bit) and the state.\<close>

definition mdic_access :: "E1000State \<Rightarrow> nat \<Rightarrow> u32 \<Rightarrow> u32 \<times> E1000State" where
  "mdic_access s index val =
     (let data = val AND E1000_MDIC_DATA_MASK;
          addr = unat (drop_bit E1000_MDIC_REG_SHIFT (val AND E1000_MDIC_REG_MASK))
      in if drop_bit E1000_MDIC_PHY_SHIFT (val AND E1000_MDIC_PHY_MASK) \<noteq> 1 then
           (mac_reg s MDIC OR E1000_MDIC_ERROR, s)
         else if tst val E1000_MDIC_OP_READ then
           if \<not> tst (phy_regcap addr) PHY_R then (val OR E1000_MDIC_ERROR, s)
           else ((val XOR data) OR ucast (phy_reg s addr), s)
         else if tst val E1000_MDIC_OP_WRITE then
           if \<not> tst (phy_regcap addr) PHY_W then (val OR E1000_MDIC_ERROR, s)
           else
             let s = (if addr < NPHYWRITEOPS then
                        case phyreg_writeops addr of None \<Rightarrow> s | Some f \<Rightarrow> f s index (ucast data)
                      else s)
             in (val, phy_set addr (ucast data) s)
         else (val, s))"

definition set_mdic :: "E1000State \<Rightarrow> nat \<Rightarrow> u32 \<Rightarrow> E1000State" where
  "set_mdic s index val =
     (let (val, s) = mdic_access s index val;
          s = mac_set MDIC (val OR E1000_MDIC_READY) s
      in if tst val E1000_MDIC_INT_EN then set_ics s 0 E1000_ICR_MDAC else s)"

subsection \<open>What the interrupt operations leave alone\<close>

lemmas intr_defs = set_interrupt_cause_def mit_rearm_def pci_set_irq_def Let_def

lemma set_interrupt_cause_frame [simp]:
  "nc (set_interrupt_cause s i v) = nc s"
  "macaddr (set_interrupt_cause s i v) = macaddr s"
  "phy_reg (set_interrupt_cause s i v) = phy_reg s"
  "eeprom_data (set_interrupt_cause s i v) = eeprom_data s"
  "rxbuf_size (set_interrupt_cause s i v) = rxbuf_size s"
  "rxbuf_min_shift (set_interrupt_cause s i v) = rxbuf_min_shift s"
  "tx (set_interrupt_cause s i v) = tx s"
  "eecd (set_interrupt_cause s i v) = eecd s"
  "autoneg_timer (set_interrupt_cause s i v) = autoneg_timer s"
  "compat_flags (set_interrupt_cause s i v) = compat_flags s"
  "ram (set_interrupt_cause s i v) = ram s"
  "clock_ns (set_interrupt_cause s i v) = clock_ns s"
  "sent_packets (set_interrupt_cause s i v) = sent_packets s"
  "notify_count (set_interrupt_cause s i v) = notify_count s"
  "hub_flushes (set_interrupt_cause s i v) = hub_flushes s"
  by (simp_all add: intr_defs)

lemma set_ics_frame [simp]:
  "nc (set_ics s i v) = nc s"
  "macaddr (set_ics s i v) = macaddr s"
  "phy_reg (set_ics s i v) = phy_reg s"
  "eeprom_data (set_ics s i v) = eeprom_data s"
  "rxbuf_size (set_ics s i v) = rxbuf_size s"
  "rxbuf_min_shift (set_ics s i v) = rxbuf_min_shift s"
  "tx (set_ics s i v) = tx s"
  "eecd (set_ics s i v) = eecd s"
  "autoneg_timer (set_ics s i v) = autoneg_timer s"
  "compat_flags (set_ics s i v) = compat_flags s"
  "ram (set_ics s i v) = ram s"
  "clock_ns (set_ics s i v) = clock_ns s"
  "sent_packets (set_ics s i v) = sent_packets s"
  "notify_count (set_ics s i v) = notify_count s"
  "hub_flushes (set_ics s i v) = hub_flushes s"
  by (simp_all add: set_ics_def)

lemma set_interrupt_cause_mac_reg:
  "mac_reg (set_interrupt_cause s i v) = (mac_reg s)(ICR := v, ICS := v)"
  by (simp add: intr_defs E1000_DEVID_def E1000_DEV_ID_82540EM_def E1000_DEV_ID_82547EI_MOBILE_def)

lemma set_ics_mac_reg:
  "mac_reg (set_ics s i v) = (mac_reg s)(ICR := v OR mac_reg s ICR, ICS := v OR mac_reg s ICR)"
  by (simp add: set_ics_def set_interrupt_cause_mac_reg)

lemmas intr_mac_reg = set_interrupt_cause_mac_reg set_ics_mac_reg

subsection \<open>The contract of the interrupt logic\<close>

definition pending :: "E1000State \<Rightarrow> u32" where
  "pending s = mac_reg s IMS AND mac_reg s ICR"

text \<open>What \<^verbatim>\<open>set_interrupt_cause\<close> needs of its callers.\<close>

definition intr_pre :: "E1000State \<Rightarrow> bool" where
  "intr_pre s \<longleftrightarrow> mit_irq_level s = pci_irq s \<and> (mit_timer_on s \<longrightarrow> mit_timer s \<noteq> None)"

definition intr_inv :: "E1000State \<Rightarrow> bool" where
  "intr_inv s \<longleftrightarrow> intr_pre s \<and> mac_reg s ICS = mac_reg s ICR \<and>
     (pci_irq s \<longrightarrow> pending s \<noteq> 0) \<and> (pending s \<noteq> 0 \<longrightarrow> pci_irq s \<or> mit_timer_on s)"

lemma intr_inv_pre [simp]: "intr_inv s \<Longrightarrow> intr_pre s"
  by (simp add: intr_inv_def)

lemma intr_inv_set_interrupt_cause:
  "intr_pre s \<Longrightarrow> intr_inv (set_interrupt_cause s i v)"
  by (auto simp: intr_inv_def intr_pre_def pending_def intr_defs qemu_clock_get_ns_def)

lemma intr_inv_set_ics: "intr_pre s \<Longrightarrow> intr_inv (set_ics s i v)"
  by (simp add: set_ics_def intr_inv_set_interrupt_cause)

text \<open>An update that touches no interrupt register and no interrupt field keeps the contract.\<close>

lemma intr_inv_cong:
  assumes "intr_inv s" and "mac_reg t ICR = mac_reg s ICR" and "mac_reg t ICS = mac_reg s ICS"
    and "mac_reg t IMS = mac_reg s IMS" and "mit_irq_level t = mit_irq_level s"
    and "pci_irq t = pci_irq s" and "mit_timer_on t = mit_timer_on s"
    and "mit_timer t = mit_timer s"
  shows "intr_inv t"
  using assms by (simp add: intr_inv_def intr_pre_def pending_def)

lemma intr_pre_cong:
  assumes "intr_pre s" and "mit_irq_level t = mit_irq_level s"
    and "pci_irq t = pci_irq s" and "mit_timer_on t = mit_timer_on s"
    and "mit_timer t = mit_timer s"
  shows "intr_pre t"
  using assms by (simp add: intr_pre_def)

text \<open>With the timer off, the pin is exactly the masked cause.\<close>

lemma set_interrupt_cause_level:
  "mit_timer_on s = False \<Longrightarrow>
   pci_irq (set_interrupt_cause s i v) = (mac_reg s IMS AND v \<noteq> 0)"
  by (simp add: intr_defs E1000_DEVID_def E1000_DEV_ID_82540EM_def E1000_DEV_ID_82547EI_MOBILE_def)

lemma link_down_intr [simp]:
  "mac_reg (e1000_link_down s) = (mac_reg s)(STATUS := mac_reg s STATUS AND NOT E1000_STATUS_LU)"
  "mac_reg (e1000_link_up s) = (mac_reg s)(STATUS := mac_reg s STATUS OR E1000_STATUS_LU)"
  by (simp_all add: e1000_link_down_def e1000_link_up_def Let_def)

lemma link_intr_fields [simp]:
  "mit_irq_level (e1000_link_down s) = mit_irq_level s" "pci_irq (e1000_link_down s) = pci_irq s"
  "mit_timer_on (e1000_link_down s) = mit_timer_on s" "mit_timer (e1000_link_down s) = mit_timer s"
  "mit_irq_level (e1000_link_up s) = mit_irq_level s" "pci_irq (e1000_link_up s) = pci_irq s"
  "mit_timer_on (e1000_link_up s) = mit_timer_on s" "mit_timer (e1000_link_up s) = mit_timer s"
  by (simp_all add: e1000_link_down_def e1000_link_up_def Let_def)

lemma intr_inv_link [intro]:
  "intr_inv s \<Longrightarrow> intr_inv (e1000_link_down s)" "intr_inv s \<Longrightarrow> intr_inv (e1000_link_up s)"
  by (erule intr_inv_cong; simp)+

lemma intr_inv_set_phy_ctrl [intro]: "intr_inv s \<Longrightarrow> intr_inv (set_phy_ctrl s i v)"
  by (erule intr_inv_cong) (simp_all add: set_phy_ctrl_def Let_def)

lemma intr_inv_autoneg_timer [intro]: "intr_inv s \<Longrightarrow> intr_inv (e1000_autoneg_timer s)"
  by (erule intr_inv_cong) (simp_all add: e1000_autoneg_timer_def Let_def)

lemma intr_inv_mit_timer: "intr_pre s \<Longrightarrow> intr_inv (e1000_mit_timer s)"
  by (auto simp: e1000_mit_timer_def Let_def intr_pre_def intro!: intr_inv_set_interrupt_cause)

lemma intr_inv_causes:
  assumes "intr_inv s"
  shows "intr_inv (snd (mac_icr_read s i))" and "intr_inv (set_icr s i v)"
    and "intr_inv (set_imc s i v)" and "intr_inv (set_ims s i v)"
    and "intr_inv (e1000_set_link_status s)"
proof -
  have pre: "intr_pre s" using assms by simp
  show "intr_inv (snd (mac_icr_read s i))" and "intr_inv (set_icr s i v)"
    using pre by (simp_all add: mac_icr_read_def set_icr_def intr_inv_set_interrupt_cause)
  show "intr_inv (set_imc s i v)" and "intr_inv (set_ims s i v)"
    using pre unfolding set_imc_def set_ims_def
    by (auto intro!: intr_inv_set_ics intr_pre_cong [OF pre])
  show "intr_inv (e1000_set_link_status s)"
    using assms by (auto simp: e1000_set_link_status_def Let_def intro!: intr_inv_set_ics intro: intr_inv_pre)
qed

lemma intr_inv_phy_set [intro]: "intr_inv s \<Longrightarrow> intr_inv (phy_set a w s)"
  by (erule intr_inv_cong) simp_all

lemma intr_inv_mac_set [intro]:
  "intr_inv s \<Longrightarrow> r \<noteq> ICR \<Longrightarrow> r \<noteq> ICS \<Longrightarrow> r \<noteq> IMS \<Longrightarrow> intr_inv (mac_set r w s)"
  by (erule intr_inv_cong) simp_all

lemma intr_inv_mdic_access: "intr_inv s \<Longrightarrow> intr_inv (snd (mdic_access s i v))"
  unfolding mdic_access_def phyreg_writeops_def Let_def
  by (simp add: intr_inv_phy_set intr_inv_set_phy_ctrl)

lemma intr_inv_set_mdic: "intr_inv s \<Longrightarrow> intr_inv (set_mdic s i v)"
proof -
  assume "intr_inv s"
  then have "intr_inv (snd (mdic_access s i v))" by (rule intr_inv_mdic_access)
  then have "intr_inv (mac_set MDIC w (snd (mdic_access s i v)))" for w
    by (rule intr_inv_mac_set) simp_all
  then show ?thesis
    by (simp add: set_mdic_def Let_def case_prod_unfold intr_inv_set_ics)
qed

subsection \<open>The length of the mitigation window\<close>

lemma mit_update_delay_bound: "unat cur \<le> n \<Longrightarrow> unat v \<le> n \<Longrightarrow> unat (mit_update_delay cur v) \<le> n"
  by (simp add: mit_update_delay_def)

lemma mit_delay_bound:
  assumes "mac_reg s TADV \<le> 0xffff" and "mac_reg s RADV \<le> 0xffff" and "mac_reg s ITR \<le> 0xffff"
  shows "unat (mit_delay s p) \<le> 0xffff * 4"
proof -
  have "unat (r * 4) \<le> 0xffff * 4" if "r \<le> 0xffff" for r :: u32
    using that by (simp add: word_le_nat_alt unat_word_ariths)
  moreover have "unat (mac_reg s ITR) \<le> 0xffff * 4" using assms(3) by (simp add: word_le_nat_alt)
  ultimately show ?thesis
    unfolding mit_delay_def Let_def using assms by (auto intro!: mit_update_delay_bound)
qed

lemma delay_ns:
  assumes "d \<noteq> 0" and "unat (d :: u32) \<le> 0xffff * 4"
  shows "0 < uint (d * 256)" and "uint (d * 256) \<le> 0xffff * 4 * 256"
proof -
  have "unat (d * 256) = unat d * 256" using assms(2) by (simp add: unat_word_ariths)
  moreover have "uint (d * 256) = int (unat (d * 256))" by simp
  moreover have "0 < unat d" using assms(1) by (simp add: unat_gt_0)
  ultimately show "0 < uint (d * 256)" and "uint (d * 256) \<le> 0xffff * 4 * 256"
    using assms(2) by linarith+
qed

end
