(* ===== verification/E1000_Eeprom.thy ===== *)
theory E1000_Eeprom
  imports E1000_Intr
begin

text \<open>
  The EEPROM of the card (\<^verbatim>\<open>src/harness/e1000/e1000.c\<close>): the Microwire port that a driver clocks bit by
  bit through EECD (\<^verbatim>\<open>get_eecd\<close>, \<^verbatim>\<open>set_eecd\<close>), the read register EERD (\<^verbatim>\<open>flash_eerd_read\<close>), and the
  contents that \<^verbatim>\<open>pci_e1000_init\<close> builds.
\<close>

subsection \<open>Definitions\<close>

definition get_eecd :: "E1000State \<Rightarrow> nat \<Rightarrow> u32 \<times> E1000State" where
  "get_eecd s index =
     (let ret = E1000_EECD_PRES OR E1000_EECD_GNT OR old_eecd (eecd s);
          ret = (if \<not> reading (eecd s) \<or>
                    tst (drop_bit (unat ((bitnum_out (eecd s) AND 0xf) XOR 0xf))
                          (eeprom_data s (unat (drop_bit 4 (bitnum_out (eecd s)) AND 0x3f)))) 1
                 then ret OR E1000_EECD_DO else ret)
      in (ret, s))"

text \<open>The transition of \<^verbatim>\<open>eecd_state\<close> made by a write to EECD.\<close>

definition eecd_write :: "eecd_state \<Rightarrow> u32 \<Rightarrow> eecd_state" where
  "eecd_write e val =
     (let oldval = old_eecd e;
          e = e\<lparr>old_eecd := val AND (E1000_EECD_SK OR E1000_EECD_CS OR E1000_EECD_DI OR
                                     E1000_EECD_FWE_MASK OR E1000_EECD_REQ)\<rparr>
      in if \<not> tst E1000_EECD_CS val then e
         else
           let e = (if tst E1000_EECD_CS (val XOR oldval) then
                      e\<lparr>val_in := 0, bitnum_in := 0, bitnum_out := 0, reading := False\<rparr>
                    else e)
           in if \<not> tst E1000_EECD_SK (val XOR oldval) then e
              else if \<not> tst E1000_EECD_SK val then e\<lparr>bitnum_out := bitnum_out e + 1\<rparr>
              else
                let e = e\<lparr>val_in := push_bit 1 (val_in e)\<rparr>;
                    e = (if tst val E1000_EECD_DI then e\<lparr>val_in := val_in e OR 1\<rparr> else e);
                    e = e\<lparr>bitnum_in := bitnum_in e + 1\<rparr>
                in if bitnum_in e = 9 \<and> \<not> reading e then
                     e\<lparr>bitnum_out := ucast (push_bit 4 (val_in e AND 0x3f) - 1),
                       reading := (drop_bit 6 (val_in e) AND 7 = EEPROM_READ_OPCODE_MICROWIRE)\<rparr>
                   else e)"

definition set_eecd :: "E1000State \<Rightarrow> nat \<Rightarrow> u32 \<Rightarrow> E1000State" where
  "set_eecd s index val = s\<lparr>eecd := eecd_write (eecd s) val\<rparr>"

definition flash_eerd_read :: "E1000State \<Rightarrow> nat \<Rightarrow> u32 \<times> E1000State" where
  "flash_eerd_read s x =
     (let r = mac_reg s EERD AND NOT E1000_EEPROM_RW_REG_START;
          index = unat (drop_bit E1000_EEPROM_RW_ADDR_SHIFT r)
      in if mac_reg s EERD AND E1000_EEPROM_RW_REG_START = 0 then (mac_reg s EERD, s)
         else if index > EEPROM_CHECKSUM_REG then (E1000_EEPROM_RW_REG_DONE OR r, s)
         else (push_bit E1000_EEPROM_RW_REG_DATA (ucast (eeprom_data s index)) OR
               E1000_EEPROM_RW_REG_DONE OR r, s))"

text \<open>\<^verbatim>\<open>e1000_eeprom_template\<close> and the way \<^verbatim>\<open>pci_e1000_init\<close> fills the EEPROM from it.\<close>

definition e1000_eeprom_template :: "u16 list" where
  "e1000_eeprom_template =
     [0x0000, 0x0000, 0x0000, 0x0000,      0xffff, 0x0000,      0x0000, 0x0000,
      0x3000, 0x1000, 0x6403, E1000_DEVID, 0x8086, E1000_DEVID, 0x8086, 0x3040,
      0x0008, 0x2000, 0x7e14, 0x0048,      0x1000, 0x00d8,      0x0000, 0x2700,
      0x6cc9, 0x3150, 0x0722, 0x040b,      0x0984, 0x0000,      0xc000, 0x0706,
      0x1008, 0x0000, 0x0f04, 0x7fff,      0x4d01, 0xffff,      0xffff, 0xffff,
      0xffff, 0xffff, 0xffff, 0xffff,      0xffff, 0xffff,      0xffff, 0xffff,
      0x0100, 0x4000, 0x121c, 0xffff,      0xffff, 0xffff,      0xffff, 0xffff,
      0xffff, 0xffff, 0xffff, 0xffff,      0xffff, 0xffff,      0xffff, 0x0000]"

definition eeprom_mac_words :: "u8 list \<Rightarrow> (nat \<Rightarrow> u16) \<Rightarrow> (nat \<Rightarrow> u16)" where
  "eeprom_mac_words mac e =
     (\<lambda>i. if i < 3 then push_bit 8 (ucast (mac ! (2 * i + 1))) OR ucast (mac ! (2 * i)) else e i)"

definition eeprom_init :: "u8 list \<Rightarrow> (nat \<Rightarrow> u16)" where
  "eeprom_init mac =
     (let e = (\<lambda>i. if i < 64 then e1000_eeprom_template ! i else 0);
          e = eeprom_mac_words mac e;
          checksum = foldl (\<lambda>c i. c + e i) 0 [0..<EEPROM_CHECKSUM_REG];
          checksum = EEPROM_SUM - checksum
      in e(EEPROM_CHECKSUM_REG := checksum))"

subsection \<open>The EEPROM carries a valid checksum\<close>

lemma foldl_plus_sum: "foldl (\<lambda>c i. c + f i) (a :: 'a::len word) xs = a + (\<Sum>i\<leftarrow>xs. f i)"
  by (induction xs arbitrary: a) (auto simp: add.assoc)

text \<open>The 64 words of the EEPROM sum to \<^verbatim>\<open>0xBABA\<close>, whatever the address of the card: what a driver tests.\<close>

lemma eeprom_init_sum: "(\<Sum>i\<leftarrow>[0..<64]. eeprom_init mac i) = EEPROM_SUM"
proof -
  define e where "e = eeprom_mac_words mac (\<lambda>i. if i < 64 then e1000_eeprom_template ! i else 0)"
  have init: "eeprom_init mac = e(63 := EEPROM_SUM - (\<Sum>i\<leftarrow>[0..<63]. e i))"
    by (simp add: eeprom_init_def e_def Let_def foldl_plus_sum)
  have "[0..<64] = [0..<63] @ [63 :: nat]" by (simp add: upt_conv_Cons)
  moreover have "(\<Sum>i\<leftarrow>[0..<63]. (e(63 := c)) i) = (\<Sum>i\<leftarrow>[0..<63]. e i)" for c
    by (rule arg_cong [of _ _ sum_list]) auto
  ultimately show ?thesis unfolding init by simp
qed

lemma eeprom_init_mac:
  assumes "i < 3"
  shows "eeprom_init mac i = push_bit 8 (ucast (mac ! (2 * i + 1))) OR ucast (mac ! (2 * i))"
  using assms by (simp add: eeprom_init_def eeprom_mac_words_def Let_def)

subsection \<open>The Microwire read\<close>

text \<open>
  The driver's side of the port: select the chip, clock out a command bit by bit (data before the
  rising edge), and clock in the answer, sampling DO while the clock is high.
\<close>

definition mw_di :: "bool \<Rightarrow> u32" where
  "mw_di b = (if b then E1000_EECD_CS OR E1000_EECD_DI else E1000_EECD_CS)"

definition mw_out :: "bool \<Rightarrow> E1000State \<Rightarrow> E1000State" where
  "mw_out b s =
     set_eecd (set_eecd (set_eecd s EECD (mw_di b)) EECD (mw_di b OR E1000_EECD_SK)) EECD (mw_di b)"

definition mw_in :: "E1000State \<Rightarrow> bool \<times> E1000State" where
  "mw_in s =
     (let s = set_eecd s EECD (E1000_EECD_CS OR E1000_EECD_SK)
      in (tst (fst (get_eecd s EECD)) E1000_EECD_DO, set_eecd s EECD E1000_EECD_CS))"

primrec mw_ins :: "nat \<Rightarrow> E1000State \<Rightarrow> bool list \<times> E1000State" where
  "mw_ins 0 s = ([], s)"
| "mw_ins (Suc n) s =
     (let (b, s) = mw_in s; (bs, s) = mw_ins n s in (b # bs, s))"

definition mw_command :: "nat \<Rightarrow> u32" where
  "mw_command a = push_bit 6 EEPROM_READ_OPCODE_MICROWIRE OR of_nat a"

definition mw_select :: "E1000State \<Rightarrow> E1000State" where
  "mw_select s = set_eecd (set_eecd s EECD 0) EECD E1000_EECD_CS"

definition mw_read :: "nat \<Rightarrow> E1000State \<Rightarrow> bool list \<times> E1000State" where
  "mw_read a s = mw_ins 16 (fold mw_out (map (bit (mw_command a)) (rev [0..<9])) (mw_select s))"

lemmas eecd_masks =
  E1000_EECD_CS_def E1000_EECD_SK_def E1000_EECD_DI_def E1000_EECD_FWE_MASK_def
  E1000_EECD_REQ_def E1000_EECD_DO_def E1000_EECD_PRES_def E1000_EECD_GNT_def

text \<open>The chip is selected, the clock is low.\<close>

abbreviation mw_idle :: "eecd_state \<Rightarrow> bool" where
  "mw_idle e \<equiv> old_eecd e = mw_di False \<or> old_eecd e = mw_di True"

lemma mw_select_eecd:
  "eecd (mw_select s) =
     \<lparr>val_in = 0, bitnum_in = 0, bitnum_out = 0, reading = False, old_eecd = mw_di False\<rparr>"
  by (simp add: mw_select_def set_eecd_def eecd_write_def mw_di_def eecd_masks)

lemma mw_select_frame [simp]: "eeprom_data (mw_select s) = eeprom_data s"
  by (simp add: mw_select_def set_eecd_def)

lemma mw_out_eecd:
  assumes "mw_idle (eecd s)" and "\<not> reading (eecd s)" and "bitnum_in (eecd s) + 1 \<noteq> 9"
  shows "eecd (mw_out b s) =
    \<lparr>val_in = push_bit 1 (val_in (eecd s)) OR of_bool b, bitnum_in = bitnum_in (eecd s) + 1,
     bitnum_out = bitnum_out (eecd s) + 1, reading = False, old_eecd = mw_di b\<rparr>"
  using assms
  by (cases b) (auto simp: mw_out_def set_eecd_def eecd_write_def mw_di_def eecd_masks)

lemma mw_out_frame [simp]: "eeprom_data (mw_out b s) = eeprom_data s"
  by (simp add: mw_out_def set_eecd_def)

lemma mw_outs_eecd:
  assumes "mw_idle (eecd s)" and "\<not> reading (eecd s)"
    and "unat (bitnum_in (eecd s)) + length bs < 9"
  shows "eeprom_data (fold mw_out bs s) = eeprom_data s \<and> mw_idle (eecd (fold mw_out bs s)) \<and>
    \<not> reading (eecd (fold mw_out bs s)) \<and>
    bitnum_in (eecd (fold mw_out bs s)) = bitnum_in (eecd s) + of_nat (length bs) \<and>
    val_in (eecd (fold mw_out bs s)) = fold (\<lambda>b v. push_bit 1 v OR of_bool b) bs (val_in (eecd s))"
  using assms
proof (induction bs arbitrary: s)
  case (Cons b bs)
  have n: "unat (bitnum_in (eecd s) + 1) = unat (bitnum_in (eecd s)) + 1"
    using Cons.prems(3) by (simp add: unat_word_ariths)
  have "bitnum_in (eecd s) + 1 \<noteq> 9" using Cons.prems(3) n by auto
  note step = mw_out_eecd [OF Cons.prems(1,2) this, of b]
  show ?case using Cons.IH [of "mw_out b s"] Cons.prems(3) n
    by (auto simp: step add.assoc)
qed simp

text \<open>The ninth bit completes the command.\<close>

lemma mw_out_last:
  fixes s :: E1000State and b :: bool
  assumes "mw_idle (eecd s)" and "\<not> reading (eecd s)" and "bitnum_in (eecd s) + 1 = 9"
  defines "v \<equiv> push_bit 1 (val_in (eecd s)) OR of_bool b"
  shows "eecd (mw_out b s) =
    \<lparr>val_in = v, bitnum_in = 9, bitnum_out = ucast (push_bit 4 (v AND 0x3f) - 1) + 1,
     reading = (drop_bit 6 v AND 7 = EEPROM_READ_OPCODE_MICROWIRE), old_eecd = mw_di b\<rparr>"
  using assms(1-3) unfolding v_def
  by (cases b) (auto simp: mw_out_def set_eecd_def eecd_write_def mw_di_def eecd_masks)

text \<open>While reading, each clock delivers the bit that \<^verbatim>\<open>bitnum_out\<close> addresses and moves on.\<close>

lemma mw_in_reading:
  assumes "mw_idle (eecd s)" and "reading (eecd s)"
  shows "fst (mw_in s) = bit (eeprom_data s (unat (drop_bit 4 (bitnum_out (eecd s)) AND 0x3f)))
                             (unat ((bitnum_out (eecd s) AND 0xf) XOR 0xf))"
    and "mw_idle (eecd (snd (mw_in s)))" and "reading (eecd (snd (mw_in s)))"
    and "bitnum_out (eecd (snd (mw_in s))) = bitnum_out (eecd s) + 1"
    and "eeprom_data (snd (mw_in s)) = eeprom_data s"
  using assms
  by (auto simp: mw_in_def set_eecd_def eecd_write_def get_eecd_def mw_di_def eecd_masks
      Let_def and_one_eq bit_drop_bit_eq bit_iff_odd_drop_bit odd_iff_mod_2_eq_one)

text \<open>A burst of reads delivers the bits that \<^verbatim>\<open>bitnum_out\<close> passes over.\<close>

lemma mw_ins_reading:
  assumes "mw_idle (eecd s)" and "reading (eecd s)"
  shows "fst (mw_ins n s) =
    map (\<lambda>i. bit (eeprom_data s (unat (drop_bit 4 (bitnum_out (eecd s) + of_nat i) AND 0x3f)))
                 (unat (((bitnum_out (eecd s) + of_nat i) AND 0xf) XOR 0xf))) [0..<n]"
  using assms
proof (induction n arbitrary: s)
  case (Suc n)
  note r = mw_in_reading [OF Suc.prems]
  have "fst (mw_ins (Suc n) s) = fst (mw_in s) # fst (mw_ins n (snd (mw_in s)))"
    by (simp add: case_prod_unfold Let_def)
  then show ?case
    using Suc.IH [OF r(2,3)] by (simp add: r(1,4,5) upt_conv_Cons map_Suc_upt [symmetric]
        del: upt_Suc mw_ins.simps) (simp add: add.assoc)
qed simp

lemma nat_and_mask: "x AND (2 ^ n - 1) = x mod (2 ^ n :: nat)"
  using take_bit_eq_mask [of n x] by (simp add: take_bit_eq_mod mask_eq_exp_minus_1)

text \<open>Inside the word at address \<open>a\<close>, offset \<open>i\<close> is bit \<open>15 - i\<close>.\<close>

lemma mw_position:
  assumes "a < 64" and "i < 16"
  defines "p \<equiv> push_bit 4 (of_nat a :: u16) + of_nat i"
  shows "unat (drop_bit 4 p AND 0x3f) = a" and "unat ((p AND 0xf) XOR 0xf) = 15 - i"
proof -
  have p: "p = of_nat (16 * a + i)" by (simp add: p_def push_bit_eq_mult)
  have "unat p = 16 * a + i" 
    unfolding p unat_of_nat using assms(1,2) by simp
  then show "unat (drop_bit 4 p AND 0x3f) = a"
    using assms(1,2) nat_and_mask [of "unat p div 16" 6]
    by (simp add: unsigned_and_eq drop_bit_eq_div unat_div)
  have "unat (p AND 0xf) = i"
    using \<open>unat p = _\<close> assms(2) nat_and_mask [of "unat p" 4]
    by (simp add: unsigned_and_eq)
  then have "of_nat (unat (p AND 0xf)) = (of_nat i :: u16)" by simp
  then have "p AND 0xf = of_nat i" by simp
  moreover have "\<forall>i\<in>set [0..<16]. unat ((of_nat i :: u16) XOR 0xf) = 15 - i" by code_simp
  ultimately show "unat ((p AND 0xf) XOR 0xf) = 15 - i" using assms(2) by simp
qed

text \<open>The command word: what the nine bits assemble to.\<close>

lemma shift_in_bit:
  fixes w :: u32
  shows "push_bit 1 (take_bit n (drop_bit 1 w)) OR of_bool (bit w 0) = take_bit (Suc n) w"
proof (rule bit_word_eqI)
  fix k assume "k < LENGTH(32)"
  then show "bit (push_bit 1 (take_bit n (drop_bit 1 w)) OR of_bool (bit w 0)) k =
      bit (take_bit (Suc n) w) k"
    by (cases k) (simp_all only: bit_or_iff bit_push_bit_iff bit_take_bit_iff bit_drop_bit_eq
        bit_of_bool_iff, simp_all)
qed

lemma fold_bits_append:
  "fold (\<lambda>b v. push_bit 1 v OR of_bool b) (map (bit w) (rev [0..<n])) 0 = take_bit n (w :: u32)"
proof (induction n arbitrary: w)
  case (Suc n)
  have "rev [0..<Suc n] = map Suc (rev [0..<n]) @ [0]"
    by (simp add: upt_conv_Cons map_Suc_upt [symmetric] rev_map del: upt_Suc)
  then have "map (bit w) (rev [0..<Suc n]) = map (bit (drop_bit 1 w)) (rev [0..<n]) @ [bit w 0]"
    by (simp add: bit_drop_bit_eq)
  then show ?case
    using Suc.IH [of "drop_bit 1 w"] shift_in_bit [of n w]
    by (simp only: fold_append comp_apply fold_simps)
qed simp

text \<open>The Microwire command selects the read opcode and the address.\<close>

lemma mw_command_fields:
  assumes "a < 64"
  shows "drop_bit 6 (take_bit 9 (mw_command a)) AND 7 = EEPROM_READ_OPCODE_MICROWIRE"
    and "take_bit 9 (mw_command a) AND 0x3f = of_nat a"
    and "ucast (push_bit 4 (of_nat a :: u32) - 1) + 1 = (push_bit 4 (of_nat a) :: u16)"
proof -
  have "\<forall>a\<in>set [0..<64]. drop_bit 6 (take_bit 9 (mw_command a)) AND 7 = EEPROM_READ_OPCODE_MICROWIRE
          \<and> take_bit 9 (mw_command a) AND 0x3f = of_nat a
          \<and> ucast (push_bit 4 (of_nat a :: u32) - 1) + 1 = (push_bit 4 (of_nat a) :: u16)"
    by code_simp
  then show "drop_bit 6 (take_bit 9 (mw_command a)) AND 7 = EEPROM_READ_OPCODE_MICROWIRE"
    and "take_bit 9 (mw_command a) AND 0x3f = of_nat a"
    and "ucast (push_bit 4 (of_nat a :: u32) - 1) + 1 = (push_bit 4 (of_nat a) :: u16)"
    using assms by auto
qed

lemma mw_after_command:
  fixes s :: E1000State
  assumes "a < 64"
  defines "t \<equiv> fold mw_out (map (bit (mw_command a)) (rev [0..<9])) (mw_select s)"
  shows "mw_idle (eecd t)" and "reading (eecd t)" and "bitnum_out (eecd t) = push_bit 4 (of_nat a)"
    and "eeprom_data t = eeprom_data s"
proof -
  define c where "c = mw_command a"
  define u where "u = fold mw_out (map (bit c) (rev [1..<9])) (mw_select s)"
  have t: "t = mw_out (bit c 0) u"
    by (simp add: t_def u_def c_def upt_conv_Cons)
  have u: "eeprom_data u = eeprom_data s" "mw_idle (eecd u)" "\<not> reading (eecd u)"
    "bitnum_in (eecd u) + 1 = 9"
    "val_in (eecd u) = fold (\<lambda>b v. push_bit 1 v OR of_bool b) (map (bit c) (rev [1..<9])) 0"
    using mw_outs_eecd [of "mw_select s" "map (bit c) (rev [1..<9])"]
    by (simp_all add: u_def mw_select_eecd)
  have "push_bit 1 (val_in (eecd u)) OR of_bool (bit c 0) = take_bit 9 c"
    unfolding u(5) fold_bits_append [symmetric] by (simp add: upt_conv_Cons)
  note last = mw_out_last [OF u(2-4), of "bit c 0", unfolded this]
  note f = mw_command_fields [OF assms(1), folded c_def]
  show "mw_idle (eecd t)" 
    unfolding t last eecd_state.simps by (cases "bit c 0") simp_all
  show "reading (eecd t)" by (simp only: t last f eecd_state.simps)
  show "bitnum_out (eecd t) = push_bit 4 (of_nat a)" by (simp only: t last f eecd_state.simps)
  show "eeprom_data t = eeprom_data s" by (simp only: t mw_out_frame u(1))
qed

text \<open>
  Reading word \<open>a\<close> through the port delivers its sixteen bits, most significant first, whatever the
  port was doing before.
\<close>

lemma mw_read_correct:
  assumes "a < 64"
  shows "fst (mw_read a s) = map (bit (eeprom_data s a)) (rev [0..<16])"
proof -
  note t = mw_after_command [OF assms, of s]
  have "rev [0..<16] = map (\<lambda>i. 15 - i) [0..<16 :: nat]" by (simp add: upt_conv_Cons)
  then show ?thesis
    unfolding mw_read_def using mw_ins_reading [OF t(1,2), of 16] mw_position [OF assms]
    by (simp add: t(3,4) del: upt_Suc)
qed

end
