(* ===== verification/E1000_Rx.thy ===== *)
theory E1000_Rx
  imports E1000_Eeprom
begin

text \<open>
  The receive path of the e1000 (\<^verbatim>\<open>src/harness/e1000/e1000.c\<close>, \<^verbatim>\<open>rxbufsize\<close>, the VLAN helpers,
  \<^verbatim>\<open>receive_filter\<close>, \<^verbatim>\<open>e1000_has_rxbufs\<close>, \<^verbatim>\<open>e1000_can_receive\<close>, \<^verbatim>\<open>e1000_receive_iov\<close>,
  \<^verbatim>\<open>e1000_receive\<close>).

  The descriptor loop may run forever when the guest programs the ring badly, so it is a partial
  function: \<open>None\<close> is a run that does not return (or one that reads past the caller's vector).
  Receiving also returns the caller's buffers, because the VLAN strip shifts bytes in place.
\<close>

subsection \<open>Configuration helpers\<close>

definition rxbufsize :: "u32 \<Rightarrow> u32" where
  "rxbufsize v =
     (let v = v AND (E1000_RCTL_BSEX OR E1000_RCTL_SZ_16384 OR E1000_RCTL_SZ_8192 OR
                     E1000_RCTL_SZ_4096 OR E1000_RCTL_SZ_2048 OR E1000_RCTL_SZ_1024 OR
                     E1000_RCTL_SZ_512 OR E1000_RCTL_SZ_256)
      in if v = E1000_RCTL_BSEX OR E1000_RCTL_SZ_16384 then 16384
         else if v = E1000_RCTL_BSEX OR E1000_RCTL_SZ_8192 then 8192
         else if v = E1000_RCTL_BSEX OR E1000_RCTL_SZ_4096 then 4096
         else if v = E1000_RCTL_SZ_1024 then 1024
         else if v = E1000_RCTL_SZ_512 then 512
         else if v = E1000_RCTL_SZ_256 then 256
         else 2048)"

definition vlan_enabled :: "E1000State \<Rightarrow> bool" where
  "vlan_enabled s = tst (mac_reg s CTRL) E1000_CTRL_VME"

definition vlan_rx_filter_enabled :: "E1000State \<Rightarrow> bool" where
  "vlan_rx_filter_enabled s = tst (mac_reg s RCTL) E1000_RCTL_VFE"

definition is_vlan_packet :: "E1000State \<Rightarrow> buf \<Rightarrow> bool" where
  "is_vlan_packet s buf \<longleftrightarrow> be16_to_cpup buf 12 = ucast (mac_reg s VET)"

definition fcs_len :: "E1000State \<Rightarrow> nat" where
  "fcs_len s = (if tst (mac_reg s RCTL) E1000_RCTL_SECRC then 0 else 4)"

subsection \<open>The address filter\<close>

definition vlan_filter_pass :: "E1000State \<Rightarrow> buf \<Rightarrow> bool" where
  "vlan_filter_pass s buf =
     (let vid = be16_to_cpup buf 14;
          vfta = mac_reg s (VFTA + unat (drop_bit 5 vid AND 0x7f))
      in tst vfta (push_bit (unat (vid AND 0x1f)) 1))"

definition ra_match :: "E1000State \<Rightarrow> buf \<Rightarrow> nat \<Rightarrow> bool" where
  "ra_match s buf i \<longleftrightarrow>
     tst (mac_reg s (RA + 2 * i + 1)) E1000_RAH_AV \<and>
     buf_read buf 0 6 = bytes_le 4 (mac_reg s (RA + 2 * i)) @ bytes_le 2 (mac_reg s (RA + 2 * i + 1))"

definition mta_shift :: "nat list" where
  "mta_shift = [4, 3, 2, 0]"

definition mta_match :: "E1000State \<Rightarrow> buf \<Rightarrow> bool" where
  "mta_match s buf =
     (let f = mta_shift ! unat (drop_bit E1000_RCTL_MO_SHIFT (mac_reg s RCTL) AND 3);
          f = drop_bit f (push_bit 8 (ucast (buf 5)) OR ucast (buf 4)) AND (0xfff :: u32)
      in tst (mac_reg s (MTA + unat (drop_bit 5 f))) (push_bit (unat (f AND 0x1f)) 1))"

definition receive_filter :: "E1000State \<Rightarrow> buf \<Rightarrow> nat \<Rightarrow> bool" where
  "receive_filter s buf sz =
     (let rctl = mac_reg s RCTL
      in if is_vlan_packet s buf \<and> vlan_rx_filter_enabled s \<and> \<not> vlan_filter_pass s buf then False
         else if tst rctl E1000_RCTL_UPE then True
         else if tst (buf 0) 1 \<and> tst rctl E1000_RCTL_MPE then True
         else if tst rctl E1000_RCTL_BAM \<and> buf_read buf 0 6 = replicate 6 0xff then True
         else if list_ex (ra_match s buf) [0..<16] then True
         else mta_match s buf)"

subsection \<open>The receive ring\<close>

definition e1000_has_rxbufs :: "E1000State \<Rightarrow> nat \<Rightarrow> bool" where
  "e1000_has_rxbufs s total_size =
     (if total_size \<le> unat (rxbuf_size s) then mac_reg s RDH \<noteq> mac_reg s RDT
      else if mac_reg s RDH < mac_reg s RDT then
        total_size \<le> unat ((mac_reg s RDT - mac_reg s RDH) * rxbuf_size s)
      else if mac_reg s RDH > mac_reg s RDT then
        total_size \<le> unat ((mac_reg s RDLEN div 16 + mac_reg s RDT - mac_reg s RDH) * rxbuf_size s)
      else False)"

definition e1000_can_receive :: "E1000State \<Rightarrow> bool" where
  "e1000_can_receive s \<longleftrightarrow>
     tst (mac_reg s STATUS) E1000_STATUS_LU \<and> tst (mac_reg s RCTL) E1000_RCTL_EN \<and>
     e1000_has_rxbufs s 1"

definition rx_desc_base :: "E1000State \<Rightarrow> u64" where
  "rx_desc_base s =
     (let bah = ucast (mac_reg s RDBAH); bal = ucast (mac_reg s RDBAL AND NOT 0xf)
      in push_bit 32 bah + bal)"

record e1000_rx_desc =
  rx_buffer_addr :: u64
  rx_length :: u16
  rx_csum :: u16
  rx_status :: u8
  rx_errors :: u8
  rx_special :: u16

definition rx_desc_decode :: "u8 list \<Rightarrow> e1000_rx_desc" where
  "rx_desc_decode bs =
     \<lparr>rx_buffer_addr = le_word (take 8 bs), rx_length = le_word (take 2 (drop 8 bs)),
      rx_csum = le_word (take 2 (drop 10 bs)), rx_status = bs ! 12, rx_errors = bs ! 13,
      rx_special = le_word (take 2 (drop 14 bs))\<rparr>"

definition rx_desc_encode :: "e1000_rx_desc \<Rightarrow> u8 list" where
  "rx_desc_encode d =
     bytes_le 8 (rx_buffer_addr d) @ bytes_le 2 (rx_length d) @ bytes_le 2 (rx_csum d) @
     [rx_status d, rx_errors d] @ bytes_le 2 (rx_special d)"

text \<open>
  The inner copy loop of \<^verbatim>\<open>e1000_receive_iov\<close>: \<^verbatim>\<open>iov\<close> and \<^verbatim>\<open>iov_ofs\<close> are where the next byte comes
  from.  Running off the end of the vector is \<open>None\<close>.
\<close>

primrec rx_copy_loop ::
  "iovec list \<Rightarrow> nat \<Rightarrow> u64 \<Rightarrow> nat \<Rightarrow> E1000State \<Rightarrow> (iovec list \<times> nat \<times> E1000State) option" where
  "rx_copy_loop [] iov_ofs ba copy_size s = None"
| "rx_copy_loop (v # vs) iov_ofs ba copy_size s =
     (let n = min copy_size (length v - iov_ofs);
          s = pci_dma_write s ba (take n (drop iov_ofs v));
          copy_size = copy_size - n;
          ba = ba + of_nat n;
          iov_ofs = iov_ofs + n
      in if iov_ofs = length v then
           if copy_size \<noteq> 0 then rx_copy_loop vs 0 ba copy_size s else Some (vs, 0, s)
         else if copy_size \<noteq> 0 then None
         else Some (v # vs, iov_ofs, s))"

text \<open>\<^verbatim>\<open>if (++s->mac_reg[RDH] * sizeof(desc) >= s->mac_reg[RDLEN]) s->mac_reg[RDH] = 0\<close>, with the product in 64 bits.\<close>

definition ring_next :: "u32 \<Rightarrow> u32 \<Rightarrow> u32" where
  "ring_next h len = (if unat (h + 1) * 16 \<ge> unat len then 0 else h + 1)"

text \<open>One iteration of the descriptor loop, up to the advance of RDH.\<close>

definition rx_desc_step ::
  "nat \<Rightarrow> nat \<Rightarrow> u16 \<Rightarrow> u8 \<Rightarrow> iovec list \<Rightarrow> nat \<Rightarrow> nat \<Rightarrow> E1000State \<Rightarrow>
   (iovec list \<times> nat \<times> nat \<times> E1000State) option" where
  "rx_desc_step sz total_size vlan_special vlan_status iov iov_ofs desc_offset s =
     (let desc_size = min (total_size - desc_offset) (unat (rxbuf_size s));
          base = rx_desc_base s + 16 * ucast (mac_reg s RDH);
          desc = rx_desc_decode (pci_dma_read s base 16);
          desc = desc\<lparr>rx_special := vlan_special,
                      rx_status := rx_status desc OR (vlan_status OR E1000_RXD_STAT_DD)\<rparr>;
          writeback = (\<lambda>desc s.
            let s = pci_dma_write s base (rx_desc_encode desc)
            in mac_set RDH (ring_next (mac_reg s RDH) (mac_reg s RDLEN)) s)
      in if rx_buffer_addr desc \<noteq> 0 then
           case (if desc_offset < sz then
                   rx_copy_loop iov iov_ofs (rx_buffer_addr desc)
                     (min (sz - desc_offset) (unat (rxbuf_size s))) s
                 else Some (iov, iov_ofs, s)) of
             None \<Rightarrow> None
           | Some (iov, iov_ofs, s) \<Rightarrow>
               let desc_offset = desc_offset + desc_size;
                   desc = desc\<lparr>rx_length := of_nat desc_size\<rparr>;
                   desc = (if desc_offset \<ge> total_size then
                             desc\<lparr>rx_status := rx_status desc OR E1000_RXD_STAT_EOP OR
                                                E1000_RXD_STAT_IXSM\<rparr>
                           else desc\<lparr>rx_status := rx_status desc AND NOT E1000_RXD_STAT_EOP\<rparr>)
               in Some (iov, iov_ofs, desc_offset, writeback desc s)
         else Some (iov, iov_ofs, desc_offset, writeback desc s))"

text \<open>The descriptor loop: the result says whether the ring wrapped around to \<^verbatim>\<open>rdh_start\<close>.\<close>

partial_function (option) rx_desc_loop ::
  "nat \<Rightarrow> nat \<Rightarrow> u16 \<Rightarrow> u8 \<Rightarrow> u32 \<Rightarrow> iovec list \<Rightarrow> nat \<Rightarrow> nat \<Rightarrow> E1000State \<Rightarrow>
   (bool \<times> E1000State) option" where
  "rx_desc_loop sz total_size vlan_special vlan_status rdh_start iov iov_ofs desc_offset s =
     Option.bind (rx_desc_step sz total_size vlan_special vlan_status iov iov_ofs desc_offset s)
       (\<lambda>(iov, iov_ofs, desc_offset, s).
          if mac_reg s RDH = rdh_start then Some (True, s)
          else if desc_offset < total_size then
            rx_desc_loop sz total_size vlan_special vlan_status rdh_start iov iov_ofs desc_offset s
          else Some (False, s))"

subsection \<open>Receiving a packet\<close>

text \<open>
  Padding and the header the filter looks at: the vector to receive from, the bytes at \<^verbatim>\<open>filter_buf\<close>,
  and whether \<^verbatim>\<open>filter_buf\<close> is the base of the vector's first element.
\<close>

definition rx_prepare :: "iovec list \<Rightarrow> (iovec list \<times> u8 list \<times> bool) option" where
  "rx_prepare iov =
     (let sz = iov_size iov
      in if sz < MIN_BUF_SIZE then
           case iov_to_buf iov 0 sz of
             None \<Rightarrow> None
           | Some b \<Rightarrow> let min_buf = b @ replicate (MIN_BUF_SIZE - sz) 0 in Some ([min_buf], min_buf, True)
         else if length (hd iov) < MAXIMUM_ETHERNET_HDR_LEN then
           case iov_to_buf iov 0 MAXIMUM_ETHERNET_HDR_LEN of
             None \<Rightarrow> None
           | Some b \<Rightarrow> Some (iov, b, False)
         else Some (iov, hd iov, True))"

text \<open>\<^verbatim>\<open>while (iov->iov_len <= iov_ofs)\<close>\<close>

primrec rx_skip :: "iovec list \<Rightarrow> nat \<Rightarrow> (iovec list \<times> nat) option" where
  "rx_skip [] iov_ofs = None"
| "rx_skip (v # vs) iov_ofs =
     (if length v \<le> iov_ofs then rx_skip vs (iov_ofs - length v) else Some (v # vs, iov_ofs))"

text \<open>
  The VLAN strip: the vector with the two addresses moved over the tag (all of it, and from where
  the copy starts), the offset there, \<^verbatim>\<open>vlan_special\<close>, \<^verbatim>\<open>vlan_status\<close> and the size.
\<close>

definition rx_vlan_strip ::
  "E1000State \<Rightarrow> iovec list \<Rightarrow> u8 list \<Rightarrow> bool \<Rightarrow> nat \<Rightarrow>
   (iovec list \<times> iovec list \<times> nat \<times> u16 \<times> u8 \<times> nat) option" where
  "rx_vlan_strip s iov filter_buf same sz =
     (if vlan_enabled s \<and> is_vlan_packet s ((!) filter_buf) then
        let vlan_special = be16_to_cpup ((!) filter_buf) 14
        in if same then
             let iov = (take 4 (hd iov) @ take 12 (hd iov) @ drop 16 (hd iov)) # tl iov
             in Some (iov, iov, 4, vlan_special, E1000_RXD_STAT_VP, sz - 4)
           else
             case iov_from_buf iov 4 (take 12 filter_buf) 12 of
               None \<Rightarrow> None
             | Some (_, iov) \<Rightarrow>
                 (case rx_skip iov 4 of
                    None \<Rightarrow> None
                  | Some (rest, iov_ofs) \<Rightarrow>
                      Some (iov, rest, iov_ofs, vlan_special, E1000_RXD_STAT_VP, sz - 4))
      else Some (iov, iov, 0, 0, 0, sz))"

text \<open>The statistics and the interrupt cause after the last descriptor.\<close>

definition rx_finish :: "nat \<Rightarrow> E1000State \<Rightarrow> E1000State" where
  "rx_finish sz s =
     (let s = mac_set GPRC (mac_reg s GPRC + 1) s;
          s = mac_set TPR (mac_reg s TPR + 1) s;
          n = mac_reg s TORL + of_nat sz + 4;
          s = (if n < mac_reg s TORL then mac_set TORH (mac_reg s TORH + 1) s else s);
          s = mac_set TORL n s;
          n = E1000_ICR_RXT0;
          rdt = mac_reg s RDT;
          rdt = (if rdt < mac_reg s RDH then rdt + mac_reg s RDLEN div 16 else rdt);
          n = (if unat (rdt - mac_reg s RDH) * 16 \<le>
                  unat (drop_bit (unat (rxbuf_min_shift s)) (mac_reg s RDLEN))
               then n OR E1000_ICR_RXDMT0 else n)
      in set_ics s 0 n)"

text \<open>
  \<^verbatim>\<open>e1000_receive_iov\<close>: the result, the caller's vector afterwards and the state.
\<close>

definition e1000_receive_iov ::
  "E1000State \<Rightarrow> iovec list \<Rightarrow> (int \<times> iovec list \<times> E1000State) option" where
  "e1000_receive_iov s iov0 =
     (if \<not> tst (mac_reg s STATUS) E1000_STATUS_LU then Some (-1, iov0, s)
      else if \<not> tst (mac_reg s RCTL) E1000_RCTL_EN then Some (-1, iov0, s)
      else
        case rx_prepare iov0 of
          None \<Rightarrow> None
        | Some (iov, filter_buf, same) \<Rightarrow>
            let sz = iov_size iov
            in if (sz > MAXIMUM_ETHERNET_LPE_SIZE \<or>
                   (sz > MAXIMUM_ETHERNET_VLAN_SIZE \<and> \<not> tst (mac_reg s RCTL) E1000_RCTL_LPE))
                  \<and> \<not> tst (mac_reg s RCTL) E1000_RCTL_SBP then Some (int sz, iov0, s)
               else if \<not> receive_filter s ((!) filter_buf) sz then Some (int sz, iov0, s)
               else
                 case rx_vlan_strip s iov filter_buf same sz of
                   None \<Rightarrow> None
                 | Some (iov', rest, iov_ofs, vlan_special, vlan_status, sz) \<Rightarrow>
                     let iov1 = (if iov_size iov0 < MIN_BUF_SIZE then iov0 else iov');
                         rdh_start = mac_reg s RDH;
                         total_size = sz + fcs_len s
                     in if \<not> e1000_has_rxbufs s total_size then
                          Some (-1, iov1, set_ics s 0 E1000_ICR_RXO)
                        else
                          case rx_desc_loop sz total_size vlan_special vlan_status rdh_start
                                 rest iov_ofs 0 s of
                            None \<Rightarrow> None
                          | Some (True, s) \<Rightarrow> Some (-1, iov1, set_ics s 0 E1000_ICR_RXO)
                          | Some (False, s) \<Rightarrow> Some (int sz, iov1, rx_finish sz s))"

definition e1000_receive :: "E1000State \<Rightarrow> u8 list \<Rightarrow> (int \<times> u8 list \<times> E1000State) option" where
  "e1000_receive s buf =
     (case e1000_receive_iov s [buf] of
        None \<Rightarrow> None
      | Some (ret, iov, s) \<Rightarrow> Some (ret, hd iov, s))"

subsection \<open>Descriptors in memory\<close>

lemma rx_desc_roundtrip: "rx_desc_decode (rx_desc_encode d) = d"
  by (simp add: rx_desc_decode_def rx_desc_encode_def le_word_bytes_le nth_append)

lemma length_rx_desc_encode [simp]: "length (rx_desc_encode d) = 16"
  by (simp add: rx_desc_encode_def)

lemma rxbufsize_bounds: "256 \<le> rxbufsize v" "rxbufsize v \<le> 16384"
  by (simp_all add: rxbufsize_def Let_def)

subsection \<open>The copy loop\<close>

lemma ram_write_Nil [simp]: "ram_write m a [] = m"
  by (simp add: ram_write_def)

text \<open>Consecutive transfers are one transfer.\<close>

lemma ram_write_append:
  assumes "length xs + length ys \<le> 2 ^ 64"
  shows "ram_write (ram_write m a xs) (a + of_nat (length xs)) ys = ram_write m a (xs @ ys)"
proof
  fix x
  let ?d = "unat (x - a)" and ?n = "length xs"
  have eq: "x - (a + of_nat ?n) = (x - a) - of_nat ?n" by (simp add: algebra_simps)
  have lt: "?d < 2 ^ 64" using unsigned_less [of "x - a"] by simp
  show "ram_write (ram_write m a xs) (a + of_nat ?n) ys x = ram_write m a (xs @ ys) x"
  proof (cases "?d < ?n")
    case True
    then have "?n < 2 ^ 64 \<or> ys = []" using assms by (cases ys) auto
    moreover have "length ys \<le> unat ((x - a) - of_nat ?n)" if "?n < 2 ^ 64"
    proof -
      have "unat (of_nat ?n :: u64) = ?n" using that by (rule unat_of_nat_u64)
      then have "unat ((x - a) - of_nat ?n) = ?d + 2 ^ 64 - ?n"
        using True that by (simp add: unat_sub_if')
      then show ?thesis using assms by simp
    qed
    ultimately show ?thesis using True by (auto simp: ram_write_def eq nth_append)
  next
    case False
    then have "of_nat ?n \<le> x - a"
      using lt by (simp add: word_le_nat_alt unat_of_nat_u64)
    then have "unat ((x - a) - of_nat ?n) = ?d - ?n"
      using False lt by (simp add: unat_sub unat_of_nat_u64)
    then show ?thesis using False by (auto simp: ram_write_def eq nth_append)
  qed
qed

text \<open>A read position inside a vector, and the bytes from there on.\<close>

definition iov_pos_ok :: "iovec list \<Rightarrow> nat \<Rightarrow> bool" where
  "iov_pos_ok iov ofs \<longleftrightarrow> (case iov of [] \<Rightarrow> ofs = 0 | v # _ \<Rightarrow> ofs \<le> length v)"

definition iov_rest :: "iovec list \<Rightarrow> nat \<Rightarrow> u8 list" where
  "iov_rest iov ofs = drop ofs (concat iov)"

lemma rx_copy_loop_eq:
  assumes "iov_pos_ok iov ofs" and "0 < n" and "n \<le> length (iov_rest iov ofs)" and "n \<le> 2 ^ 64"
  shows "\<exists>iov' ofs'.
    rx_copy_loop iov ofs ba n s =
      Some (iov', ofs', s\<lparr>ram := ram_write (ram s) ba (take n (iov_rest iov ofs))\<rparr>) \<and>
    iov_pos_ok iov' ofs' \<and> iov_rest iov' ofs' = drop n (iov_rest iov ofs)"
  using assms
proof (induction iov arbitrary: ofs ba n s)
  case Nil
  then show ?case by (simp add: iov_rest_def)
next
  case (Cons v vs)
  define c where "c = min n (length v - ofs)"
  have ofs: "ofs \<le> length v" using Cons.prems(1) by (simp add: iov_pos_ok_def)
  have rest: "iov_rest (v # vs) ofs = drop ofs v @ concat vs"
    using ofs by (simp add: iov_rest_def)
  have step: "rx_copy_loop (v # vs) ofs ba n s =
      (let s = pci_dma_write s ba (take c (drop ofs v))
       in if ofs + c = length v then
            if n - c \<noteq> 0 then rx_copy_loop vs 0 (ba + of_nat c) (n - c) s else Some (vs, 0, s)
          else if n - c \<noteq> 0 then None else Some (v # vs, ofs + c, s))"
    by (simp only: rx_copy_loop.simps Let_def c_def)
  show ?case
  proof (cases "n \<le> length v - ofs")
    case True
    then have c: "c = n" by (simp add: c_def)
    show ?thesis
    proof (cases "ofs + n = length v")
      case at_end: True
      then have "n = length v - ofs" by simp
      then show ?thesis using at_end rest ofs step
        by (simp add: c pci_dma_write_def iov_pos_ok_def iov_rest_def split: list.split)
    next
      case False
      then show ?thesis using True rest ofs step
        by (simp add: c pci_dma_write_def iov_pos_ok_def iov_rest_def add.commute)
    qed
  next
    case False
    then have c: "c = length v - ofs" "ofs + c = length v" "0 < n - c" "c \<le> n"
      using ofs by (simp_all add: c_def)
    define t where "t = pci_dma_write s ba (take c (drop ofs v))"
    have "\<exists>iov' ofs'.
      rx_copy_loop vs 0 (ba + of_nat c) (n - c) t =
        Some (iov', ofs', t\<lparr>ram := ram_write (ram t) (ba + of_nat c) (take (n - c) (iov_rest vs 0))\<rparr>) \<and>
      iov_pos_ok iov' ofs' \<and> iov_rest iov' ofs' = drop (n - c) (iov_rest vs 0)"
      using Cons.prems(3,4) c rest
      by (intro Cons.IH) (auto simp: iov_pos_ok_def iov_rest_def split: list.split)
    moreover have "ram_write (ram t) (ba + of_nat c) (take (n - c) (concat vs)) =
        ram_write (ram s) ba (drop ofs v @ take (n - c) (concat vs))"
      using ram_write_append [of "drop ofs v" "take (n - c) (concat vs)" "ram s" ba] c ofs Cons.prems(4)
      by (simp add: t_def pci_dma_write_def)
    ultimately show ?thesis
      using step c rest by (simp add: t_def [symmetric] iov_rest_def) (simp add: t_def pci_dma_write_def)
  qed
qed

subsection \<open>The ring pointer\<close>

text \<open>A ring of \<open>len\<close> bytes has \<open>ring_entries\<close> descriptors of 16 bytes; the head is inside when \<open>ring_ok\<close>.\<close>

definition ring_ok :: "u32 \<Rightarrow> u32 \<Rightarrow> bool" where
  "ring_ok h len \<longleftrightarrow> unat h * 16 < unat len"

definition ring_entries :: "u32 \<Rightarrow> nat" where
  "ring_entries len = (unat len + 15) div 16"

definition ring_dist :: "u32 \<Rightarrow> u32 \<Rightarrow> u32 \<Rightarrow> nat" where
  "ring_dist len start h =
     (if unat h < unat start then unat start - unat h else ring_entries len + unat start - unat h)"

lemma mult_16_less: "n * 16 < m \<longleftrightarrow> n < (m + 15) div (16 :: nat)"
  by linarith

lemma ring_ok_entries: "ring_ok h len \<longleftrightarrow> unat h < ring_entries len"
  unfolding ring_ok_def ring_entries_def by (rule mult_16_less)

lemma unat_ring_next:
  assumes "ring_ok h len"
  shows "unat (ring_next h len) = (if unat h + 1 < ring_entries len then unat h + 1 else 0)"
proof -
  have "unat len < 2 ^ 32" using unsigned_less [of len] by simp
  then have "unat (h + 1) = unat h + 1"
    using assms by (simp add: unat_word_ariths ring_ok_def)
  then show ?thesis
    using mult_16_less [of "unat h + 1" "unat len"] by (auto simp: ring_next_def ring_entries_def)
qed

lemma ring_ok_next: "ring_ok h len \<Longrightarrow> ring_ok (ring_next h len) len"
  by (auto simp: ring_ok_entries unat_ring_next)

text \<open>Every advance that does not reach \<open>start\<close> comes closer to it.\<close>

lemma ring_dist_next:
  assumes "ring_ok h len" and "ring_ok start len" and "ring_next h len \<noteq> start"
  shows "ring_dist len start (ring_next h len) < ring_dist len start h"
proof -
  have "unat (ring_next h len) \<noteq> unat start" using assms(3) by (simp add: word_unat_eq_iff)
  then show ?thesis
    using assms(1,2) unat_ring_next [OF assms(1)]
    by (auto simp: ring_dist_def ring_ok_entries split: if_splits)
qed

subsection \<open>One descriptor\<close>

abbreviation ring_advance :: "E1000State \<Rightarrow> (u64 \<Rightarrow> u8) \<Rightarrow> E1000State" where
  "ring_advance s m \<equiv>
     s\<lparr>ram := m, mac_reg := (mac_reg s)(RDH := ring_next (mac_reg s RDH) (mac_reg s RDLEN))\<rparr>"

lemma rx_copy_loop_frame:
  "rx_copy_loop iov ofs ba n s = Some (iov', ofs', s') \<Longrightarrow> \<exists>m. s' = s\<lparr>ram := m\<rparr>"
proof (induction iov arbitrary: ofs ba n s)
  case (Cons v vs)
  then show ?case by (fastforce simp: Let_def pci_dma_write_def split: if_splits)
qed simp

text \<open>Whatever the descriptor holds, one iteration changes memory and advances RDH.\<close>

lemma rx_desc_step_frame:
  assumes "rx_desc_step sz tot spec st iov ofs off s = Some (iov', ofs', off', s')"
  shows "\<exists>m. s' = ring_advance s m"
  using assms
  by (auto simp: rx_desc_step_def Let_def pci_dma_write_def split: if_splits option.splits
      dest!: rx_copy_loop_frame)

text \<open>
  The loop's position in the payload \<open>P\<close>: what remains in the vector is what no descriptor holds yet.
\<close>

definition rx_pos :: "u8 list \<Rightarrow> nat \<Rightarrow> iovec list \<Rightarrow> nat \<Rightarrow> bool" where
  "rx_pos P off iov ofs \<longleftrightarrow>
     iov_pos_ok iov ofs \<and> iov_rest iov ofs = drop off P"

lemma rx_desc_step_null:
  assumes "rx_buffer_addr (rx_desc_decode (pci_dma_read s (rx_desc_base s + 16 * ucast (mac_reg s RDH)) 16)) = 0"
  shows "\<exists>m. rx_desc_step sz tot spec st iov ofs off s = Some (iov, ofs, off, ring_advance s m)"
  using assms by (auto simp: rx_desc_step_def Let_def pci_dma_write_def)

text \<open>The descriptor at the head, and as it is handed back with at most \<open>n\<close> of \<open>rest\<close> bytes.\<close>

definition rx_cur_base :: "E1000State \<Rightarrow> u64" where
  "rx_cur_base s = rx_desc_base s + 16 * ucast (mac_reg s RDH)"

definition rx_cur_desc :: "E1000State \<Rightarrow> e1000_rx_desc" where
  "rx_cur_desc s = rx_desc_decode (pci_dma_read s (rx_cur_base s) 16)"

definition rx_filled_desc :: "u16 \<Rightarrow> u8 \<Rightarrow> nat \<Rightarrow> nat \<Rightarrow> e1000_rx_desc \<Rightarrow> e1000_rx_desc" where
  "rx_filled_desc spec st rest n d =
     (let status = rx_status d OR (st OR E1000_RXD_STAT_DD)
      in d\<lparr>rx_special := spec, rx_length := of_nat (min rest n),
           rx_status := (if rest \<le> n then status OR E1000_RXD_STAT_EOP OR E1000_RXD_STAT_IXSM
                         else status AND NOT E1000_RXD_STAT_EOP)\<rparr>)"

lemma rx_desc_step_fills:
  fixes s P off tot
  defines "n \<equiv> unat (rxbuf_size s)" and "d \<equiv> rx_cur_desc s"
  assumes addr: "rx_buffer_addr d \<noteq> 0" and pos: "rx_pos P off iov ofs" and rb: "0 < n" and tot: "length P \<le> tot"
  shows "\<exists>iov' ofs'. rx_desc_step (length P) tot spec st iov ofs off s =
      Some (iov', ofs', off + min (tot - off) n, ring_advance s
        (ram_write (ram_write (ram s) (rx_buffer_addr d) (take n (drop off P))) (rx_cur_base s)
           (rx_desc_encode (rx_filled_desc spec st (tot - off) n d)))) \<and>
    rx_pos P (off + min (tot - off) n) iov' ofs'"
proof -
  have last: "tot \<le> off + min (tot - off) n \<longleftrightarrow> tot - off \<le> n" by auto
  note step = rx_desc_step_def Let_def pci_dma_write_def rx_cur_base_def [symmetric]
    rx_cur_desc_def [symmetric] rx_filled_desc_def n_def [symmetric] d_def [symmetric] last
  show ?thesis
  proof (cases "off < length P")
    case True
    let ?c = "min (length P - off) n"
    have "n < 2 ^ 64" using u32_bound [of "rxbuf_size s"] by (simp add: n_def)
    then have c: "0 < ?c" "?c \<le> length (iov_rest iov ofs)" "?c \<le> 2 ^ 64"
      using rb pos True by (auto simp: rx_pos_def)
    obtain iov' ofs' where copy:
        "rx_copy_loop iov ofs (rx_buffer_addr d) ?c s =
         Some (iov', ofs', s\<lparr>ram := ram_write (ram s) (rx_buffer_addr d) (take ?c (iov_rest iov ofs))\<rparr>)"
        "iov_pos_ok iov' ofs'" "iov_rest iov' ofs' = drop ?c (iov_rest iov ofs)"
      using rx_copy_loop_eq [OF _ c] pos unfolding rx_pos_def by blast
    have "drop (?c + off) P = drop (off + min (tot - off) n) P" using True tot by (auto simp: min_def add.commute)
    then have "rx_pos P (off + min (tot - off) n) iov' ofs'" using pos copy(2,3) by (simp add: rx_pos_def)
    moreover have "take ?c (iov_rest iov ofs) = take n (drop off P)" using pos by (auto simp: rx_pos_def min_def)
    ultimately show ?thesis using addr True copy(1) by (simp add: step)
  next
    case False
    then have "rx_pos P (off + min (tot - off) n) iov ofs" "drop off P = []" using pos by (simp_all add: rx_pos_def)
    then show ?thesis using addr False by (simp add: step)
  qed
qed

lemma rx_desc_step_used:
  assumes "rx_buffer_addr (rx_desc_decode (pci_dma_read s (rx_desc_base s + 16 * ucast (mac_reg s RDH)) 16)) \<noteq> 0"
    and pos: "rx_pos P off iov ofs" and rb: "0 < rxbuf_size s" and tot: "length P \<le> tot"
  shows "\<exists>iov' ofs' m. rx_desc_step (length P) tot spec st iov ofs off s =
      Some (iov', ofs', off + min (tot - off) (unat (rxbuf_size s)), ring_advance s m) \<and>
    rx_pos P (off + min (tot - off) (unat (rxbuf_size s))) iov' ofs'"
proof -
  have "0 < unat (rxbuf_size s)" using rb by (simp add: word_less_nat_alt)
  then show ?thesis
    using rx_desc_step_fills [OF _ pos _ tot, of s spec st] assms(1)
    by (fastforce simp: rx_cur_desc_def rx_cur_base_def)
qed

lemma rx_desc_step_returns:
  assumes "rx_pos P off iov ofs" and "0 < rxbuf_size s" and "length P \<le> tot"
  obtains iov' ofs' off' m where
    "rx_desc_step (length P) tot spec st iov ofs off s = Some (iov', ofs', off', ring_advance s m)"
    and "rx_pos P off' iov' ofs'"
  using rx_desc_step_used [OF _ assms] rx_desc_step_null assms(1) by blast

subsection \<open>The descriptor loop\<close>

text \<open>With the head inside the ring the loop returns, and leaves the head inside the ring.\<close>

lemma rx_desc_loop_returns:
  assumes "ring_ok (mac_reg s RDH) (mac_reg s RDLEN)" and "ring_ok start (mac_reg s RDLEN)"
    and "rx_pos P off iov ofs" and "0 < rxbuf_size s" and "length P \<le> tot"
  shows "\<exists>w m h. rx_desc_loop (length P) tot spec st start iov ofs off s =
      Some (w, s\<lparr>ram := m, mac_reg := (mac_reg s)(RDH := h)\<rparr>) \<and> ring_ok h (mac_reg s RDLEN)"
  using assms
proof (induction "ring_dist (mac_reg s RDLEN) start (mac_reg s RDH)" arbitrary: s iov ofs off rule: less_induct)
  case less
  define h where "h = ring_next (mac_reg s RDH) (mac_reg s RDLEN)"
  obtain iov' ofs' off' m where step:
    "rx_desc_step (length P) tot spec st iov ofs off s = Some (iov', ofs', off', ring_advance s m)"
    and pos: "rx_pos P off' iov' ofs'"
    using rx_desc_step_returns [OF less.prems(3-5)] by blast
  have h: "ring_ok h (mac_reg s RDLEN)" using less.prems(1) by (simp add: h_def ring_ok_next)
  have unfold: "rx_desc_loop (length P) tot spec st start iov ofs off s =
      (if h = start then Some (True, ring_advance s m)
       else if off' < tot then
         rx_desc_loop (length P) tot spec st start iov' ofs' off' (ring_advance s m)
       else Some (False, ring_advance s m))"
    by (subst rx_desc_loop.simps) (simp add: step h_def)
  show ?case
  proof (cases "h \<noteq> start \<and> off' < tot")
    case True
    then have "ring_dist (mac_reg s RDLEN) start h < ring_dist (mac_reg s RDLEN) start (mac_reg s RDH)"
      using ring_dist_next less.prems(1,2) by (simp add: h_def)
    with less.hyps [of "ring_advance s m" off' iov' ofs'] less.prems h pos True
    show ?thesis by (simp add: unfold) (auto simp: h_def)
  next
    case False
    then show ?thesis using h by (auto simp: unfold h_def)
  qed
qed

text \<open>However the ring is programmed, a run that returns has changed only memory and RDH.\<close>

definition rx_frame :: "E1000State \<Rightarrow> E1000State \<Rightarrow> bool" where
  "rx_frame s s' \<longleftrightarrow> s' = s\<lparr>ram := ram s', mac_reg := (mac_reg s)(RDH := mac_reg s' RDH)\<rparr>"

lemma rx_frame_advance: "rx_frame (s\<lparr>ram := m, mac_reg := (mac_reg s)(RDH := h)\<rparr>) s' \<Longrightarrow> rx_frame s s'"
  unfolding rx_frame_def by (erule ssubst) (simp add: fun_upd_def cong: if_cong)

lemma rx_desc_loop_frame:
  assumes "rx_desc_loop sz tot spec st start iov ofs off s = Some (w, s')"
  shows "rx_frame s s'"
proof -
  have "rx_frame s (snd (w, s'))"
  proof (rule rx_desc_loop.raw_induct
      [where P = "\<lambda>_ _ _ _ _ _ _ _ s r. rx_frame s (snd r)", OF _ assms], goal_cases)
    case (1 loop sz tot spec st start iov ofs off s r)
    note IH = 1(1)
    from 1(2) obtain iov' ofs' off' m where
      "(if mac_reg (ring_advance s m) RDH = start then Some (True, ring_advance s m)
        else if off' < tot then loop sz tot spec st start iov' ofs' off' (ring_advance s m)
        else Some (False, ring_advance s m)) = Some r"
      by (auto split: bind_splits dest!: rx_desc_step_frame)
    then show ?case
      by (auto split: if_splits dest!: IH rx_frame_advance) (auto simp: rx_frame_def)
  qed
  then show ?thesis by simp
qed

end
