(* ===== verification/E1000_Receive.thy ===== *)
theory E1000_Receive
  imports E1000_Rx
begin

text \<open>
  What \<^verbatim>\<open>e1000_receive_iov\<close> promises: which bytes reach the guest (the padded frame, without its VLAN
  tag when the device strips it), that it returns when the ring is valid, that a frame that fits one
  buffer is found there afterwards, and what it keeps of the interrupt contract.
\<close>

subsection \<open>The frame that is delivered\<close>

definition rx_padded :: "iovec list \<Rightarrow> u8 list" where
  "rx_padded iov = concat iov @ replicate (MIN_BUF_SIZE - iov_size iov) 0"

definition rx_strips :: "E1000State \<Rightarrow> u8 list \<Rightarrow> bool" where
  "rx_strips s f \<longleftrightarrow> vlan_enabled s \<and> is_vlan_packet s ((!) f)"

definition rx_payload :: "E1000State \<Rightarrow> u8 list \<Rightarrow> u8 list" where
  "rx_payload s f = (if rx_strips s f then take 12 f @ drop 16 f else f)"

definition rx_special_of :: "E1000State \<Rightarrow> u8 list \<Rightarrow> u16" where
  "rx_special_of s f = (if rx_strips s f then be16_to_cpup ((!) f) 14 else 0)"

definition rx_status_of :: "E1000State \<Rightarrow> u8 list \<Rightarrow> u8" where
  "rx_status_of s f = (if rx_strips s f then E1000_RXD_STAT_VP else 0)"

definition rx_too_long :: "E1000State \<Rightarrow> nat \<Rightarrow> bool" where
  "rx_too_long s sz \<longleftrightarrow>
     (sz > MAXIMUM_ETHERNET_LPE_SIZE \<or>
      sz > MAXIMUM_ETHERNET_VLAN_SIZE \<and> \<not> tst (mac_reg s RCTL) E1000_RCTL_LPE) \<and>
     \<not> tst (mac_reg s RCTL) E1000_RCTL_SBP"

lemma length_rx_padded: "60 \<le> length (rx_padded iov)"
  by (simp add: rx_padded_def iov_size_concat)

lemma length_rx_payload: "rx_strips s f \<Longrightarrow> 60 \<le> length f \<Longrightarrow> length (rx_payload s f) = length f - 4"
  by (simp add: rx_payload_def)

lemma length_rx_payload_bounds:
  "60 \<le> length f \<Longrightarrow> 56 \<le> length (rx_payload s f) \<and> length (rx_payload s f) \<le> length f"
  by (auto simp: rx_payload_def)

text \<open>The filter looks at the first 16 bytes only.\<close>

lemma header_cong:
  assumes "\<And>i. i < 16 \<Longrightarrow> b i = b' i"
  shows "be16_to_cpup b 12 = be16_to_cpup b' 12" and "be16_to_cpup b 14 = be16_to_cpup b' 14"
    and "is_vlan_packet s b = is_vlan_packet s b'"
    and "receive_filter s b n = receive_filter s b' n"
proof -
  show *: "be16_to_cpup b 12 = be16_to_cpup b' 12" "be16_to_cpup b 14 = be16_to_cpup b' 14"
    using assms by (simp_all add: be16_to_cpup_def)
  show v: "is_vlan_packet s b = is_vlan_packet s b'" by (simp add: is_vlan_packet_def *)
  have "buf_read b 0 6 = buf_read b' 0 6" using assms by (intro nth_equalityI) simp_all
  then have "ra_match s b = ra_match s b'" by (simp add: ra_match_def fun_eq_iff)
  then show "receive_filter s b n = receive_filter s b' n"
    using assms \<open>buf_read b 0 6 = _\<close>
    by (simp add: receive_filter_def v vlan_filter_pass_def * mta_match_def)
qed

lemma rx_prepare_spec:
  obtains iov' fb same where "rx_prepare iov = Some (iov', fb, same)"
    and "concat iov' = rx_padded iov" and "take 18 fb = take 18 (rx_padded iov)"
    and "18 \<le> length fb" and "same \<Longrightarrow> iov' \<noteq> [] \<and> hd iov' = fb" and "\<not> same \<Longrightarrow> length fb = 18"
proof (cases "iov_size iov < 60")
  case True
  then show ?thesis
    by (intro that [of "[rx_padded iov]" "rx_padded iov" True])
      (simp_all add: rx_prepare_def iov_to_buf_eq Let_def rx_padded_def iov_size_concat)
next
  case False
  then have c: "rx_padded iov = concat iov" "60 \<le> length (concat iov)"
    by (simp_all add: rx_padded_def iov_size_concat)
  then obtain v vs where iov: "iov = v # vs" by (cases iov) auto
  show ?thesis
  proof (cases "length v < 18")
    case True
    then show ?thesis using False c
      by (intro that [of iov "take 18 (concat iov)" False])
        (simp_all add: rx_prepare_def iov_to_buf_eq Let_def iov)
  next
    case vlen: False
    then show ?thesis using False c
      by (intro that [of iov v True]) (simp_all add: rx_prepare_def Let_def iov)
  qed
qed

lemma rx_skip_spec:
  "ofs < length (concat iov) \<Longrightarrow>
   \<exists>rest ofs'. rx_skip iov ofs = Some (rest, ofs') \<and> iov_pos_ok rest ofs' \<and>
     iov_rest rest ofs' = iov_rest iov ofs"
  by (induction iov arbitrary: ofs) (auto simp: iov_pos_ok_def iov_rest_def)

text \<open>After the strip, the vector from the copy position on holds the payload.\<close>

lemma rx_vlan_strip_spec:
  assumes f: "concat iov = f" "60 \<le> length f"
    and fb: "take 18 fb = take 18 f" "18 \<le> length fb"
    and same: "same \<Longrightarrow> iov \<noteq> [] \<and> hd iov = fb" and "\<not> same \<Longrightarrow> length fb = 18"
  obtains iov' rest ofs where
    "rx_vlan_strip s iov fb same (length f) =
       Some (iov', rest, ofs, rx_special_of s f, rx_status_of s f, length (rx_payload s f))"
    and "rx_pos (rx_payload s f) 0 rest ofs"
proof -
  have nth: "fb ! i = f ! i" if "i < 16" for i
    using arg_cong [OF fb(1), of "\<lambda>l. l ! i"] that by simp
  have strips: "rx_strips s f = (vlan_enabled s \<and> is_vlan_packet s ((!) fb))"
    using header_cong(3) [of "(!) fb" "(!) f", OF nth] by (simp add: rx_strips_def)
  have spec: "be16_to_cpup ((!) fb) 14 = be16_to_cpup ((!) f) 14"
    by (rule header_cong(2)) (rule nth)
  show ?thesis
  proof (cases "rx_strips s f")
    case False
    then show ?thesis using f
      by (intro that [of iov iov 0])
        (auto simp: rx_vlan_strip_def strips rx_pos_def iov_pos_ok_def iov_rest_def rx_payload_def
          rx_special_of_def rx_status_of_def split: list.split)
  next
    case True
    then have P: "rx_payload s f = take 12 f @ drop 16 f" by (simp add: rx_payload_def)
    have twelve: "take 12 fb = take 12 f"
      using arg_cong [OF fb(1), of "take 12"] by simp
    show ?thesis
    proof (cases same)
      case True
      then obtain vs where iov: "iov = fb # vs" using same by (cases iov) auto
      let ?w = "take 4 fb @ take 12 fb @ drop 16 fb"
      have "take 12 fb @ drop 16 fb @ concat vs = take 12 f @ drop 16 f"
        using fb(2) f(1) by (simp add: iov flip: f(1))
      then have "rx_pos (rx_payload s f) 0 (?w # vs) 4"
        using fb(2) f(2) by (simp add: rx_pos_def P iov_pos_ok_def iov_rest_def)
      then show ?thesis using True \<open>rx_strips s f\<close> f(2)
        by (intro that [of "?w # vs" "?w # vs" 4])
          (simp_all add: rx_vlan_strip_def strips [symmetric] spec P iov Let_def rx_special_of_def rx_status_of_def)
    next
      case False
      then have twelve': "12 \<le> length (take 12 fb)" using fb(2) by simp
      obtain n iov' where upd: "iov_from_buf iov 4 (take 12 fb) 12 = Some (n, iov')"
        using iov_from_buf_defined [OF twelve', of iov 4] f by (fastforce simp: iov_size_concat)
      then have c: "concat iov' = take 4 f @ take 12 f @ drop 16 f"
        using iov_from_buf_SomeD [OF upd twelve'] f by (simp add: iov_size_concat twelve)
      obtain rest ofs' where skip: "rx_skip iov' 4 = Some (rest, ofs')" "iov_pos_ok rest ofs'"
        "iov_rest rest ofs' = iov_rest iov' 4"
        using rx_skip_spec [of 4 iov'] c f(2) by auto
      then have "rx_pos (rx_payload s f) 0 rest ofs'"
        using f(2) by (simp add: rx_pos_def P iov_rest_def c)
      then show ?thesis using False \<open>rx_strips s f\<close> f(2)
        by (intro that [of iov' rest ofs'])
          (simp_all add: rx_vlan_strip_def strips [symmetric] spec P upd skip Let_def rx_special_of_def rx_status_of_def)
    qed
  qed
qed

subsection \<open>Receiving, branch by branch\<close>

text \<open>The frames the device does not take: it reports them as consumed and changes nothing.\<close>

lemma e1000_receive_iov_dropped:
  assumes "tst (mac_reg s STATUS) E1000_STATUS_LU" and "tst (mac_reg s RCTL) E1000_RCTL_EN"
    and "rx_too_long s (length (rx_padded iov)) \<or>
         \<not> receive_filter s ((!) (rx_padded iov)) (length (rx_padded iov))"
  shows "e1000_receive_iov s iov = Some (int (length (rx_padded iov)), iov, s)"
proof -
  obtain iov' fb same where p: "rx_prepare iov = Some (iov', fb, same)"
    "concat iov' = rx_padded iov" "take 18 fb = take 18 (rx_padded iov)"
    by (rule rx_prepare_spec)
  have "fb ! i = rx_padded iov ! i" if "i < 16" for i
    using arg_cong [OF p(3), of "\<lambda>l. l ! i"] that by simp
  then have "receive_filter s ((!) fb) n = receive_filter s ((!) (rx_padded iov)) n" for n
    by (rule header_cong(4))
  then show ?thesis
    using assms p(1,2) by (auto simp: e1000_receive_iov_def Let_def rx_too_long_def iov_size_concat)
qed

text \<open>
  A frame the device takes: it is refused with an overrun when the ring lacks space, and otherwise
  handed to the descriptor loop as the payload.
\<close>

lemma e1000_receive_iov_taken:
  assumes "tst (mac_reg s STATUS) E1000_STATUS_LU" and "tst (mac_reg s RCTL) E1000_RCTL_EN"
    and "\<not> rx_too_long s (length f)" and "receive_filter s ((!) f) (length f)"
  defines "P \<equiv> rx_payload s f"
  assumes f: "f = rx_padded iov"
  obtains iov1 rest ofs where "rx_pos P 0 rest ofs"
    and "e1000_receive_iov s iov =
      (if \<not> e1000_has_rxbufs s (length P + fcs_len s) then
         Some (-1, iov1, set_ics s 0 E1000_ICR_RXO)
       else
         case rx_desc_loop (length P) (length P + fcs_len s) (rx_special_of s f) (rx_status_of s f)
                (mac_reg s RDH) rest ofs 0 s of
           None \<Rightarrow> None
         | Some (True, s) \<Rightarrow> Some (-1, iov1, set_ics s 0 E1000_ICR_RXO)
         | Some (False, s) \<Rightarrow> Some (int (length P), iov1, rx_finish (length P) s))"
proof -
  obtain iov' fb same where p: "rx_prepare iov = Some (iov', fb, same)"
    "concat iov' = f" "take 18 fb = take 18 f" "18 \<le> length fb"
    "same \<Longrightarrow> iov' \<noteq> [] \<and> hd iov' = fb" "\<not> same \<Longrightarrow> length fb = 18"
    unfolding f using rx_prepare_spec [of iov] by metis
  have "60 \<le> length f" by (simp add: f length_rx_padded)
  note strip_spec = rx_vlan_strip_spec [OF p(2) this p(3-6), where s = s]
  obtain iov'' rest ofs where strip:
    "rx_vlan_strip s iov' fb same (length f) =
       Some (iov'', rest, ofs, rx_special_of s f, rx_status_of s f, length P)"
    "rx_pos P 0 rest ofs"
    unfolding P_def by (rule strip_spec) blast+
  have "fb ! i = f ! i" if "i < 16" for i
    using arg_cong [OF p(3), of "\<lambda>l. l ! i"] that by simp
  then have filter: "receive_filter s ((!) fb) n = receive_filter s ((!) f) n" for n
    by (rule header_cong(4))
  have long: "\<not> ((length f > 16384 \<or> length f > 1522 \<and> \<not> tst (mac_reg s RCTL) E1000_RCTL_LPE) \<and>
      \<not> tst (mac_reg s RCTL) E1000_RCTL_SBP)"
    using assms(3) by (simp add: rx_too_long_def)
  have size: "iov_size iov' = length f" by (simp add: iov_size_concat p(2))
  show ?thesis
    by (rule that [OF strip(2), of "if iov_size iov < 60 then iov else iov''"])
      (simp only: e1000_receive_iov_def assms(1,2,4) p(1) size filter long strip(1) Let_def
        option.case prod.case not_True_eq_False not_False_eq_True if_False)
qed

subsection \<open>Receiving returns\<close>

text \<open>With the receive head inside the ring, receiving returns.\<close>

lemma e1000_receive_iov_returns:
  assumes "ring_ok (mac_reg s RDH) (mac_reg s RDLEN)" and "0 < rxbuf_size s"
  shows "\<exists>r. e1000_receive_iov s iov = Some r"
proof (cases "tst (mac_reg s STATUS) E1000_STATUS_LU \<and> tst (mac_reg s RCTL) E1000_RCTL_EN")
  case False
  then show ?thesis by (auto simp: e1000_receive_iov_def)
next
  case True
  let ?f = "rx_padded iov" and ?P = "rx_payload s (rx_padded iov)"
  show ?thesis
  proof (cases "rx_too_long s (length ?f) \<or> \<not> receive_filter s ((!) ?f) (length ?f)")
    case taken: False
    then obtain iov1 rest ofs where pos: "rx_pos ?P 0 rest ofs"
      and eq: "e1000_receive_iov s iov =
        (if \<not> e1000_has_rxbufs s (length ?P + fcs_len s) then
           Some (-1, iov1, set_ics s 0 E1000_ICR_RXO)
         else
           case rx_desc_loop (length ?P) (length ?P + fcs_len s) (rx_special_of s ?f)
                  (rx_status_of s ?f) (mac_reg s RDH) rest ofs 0 s of
             None \<Rightarrow> None
           | Some (True, s) \<Rightarrow> Some (-1, iov1, set_ics s 0 E1000_ICR_RXO)
           | Some (False, s) \<Rightarrow> Some (int (length ?P), iov1, rx_finish (length ?P) s))"
      using e1000_receive_iov_taken [of s ?f iov] True by blast
    have "\<exists>w m h. rx_desc_loop (length ?P) (length ?P + fcs_len s) (rx_special_of s ?f)
        (rx_status_of s ?f) (mac_reg s RDH) rest ofs 0 s =
        Some (w, s\<lparr>ram := m, mac_reg := (mac_reg s)(RDH := h)\<rparr>) \<and> ring_ok h (mac_reg s RDLEN)"
      by (rule rx_desc_loop_returns [OF assms(1) assms(1) pos assms(2)]) simp
    then show ?thesis by (auto simp: eq split: bool.split)
  qed (use True e1000_receive_iov_dropped in blast)
qed

subsection \<open>What receiving changes\<close>

lemma rx_frameE:
  assumes "rx_frame s s'"
  obtains m h where "s' = s\<lparr>ram := m, mac_reg := (mac_reg s)(RDH := h)\<rparr>"
  using assms unfolding rx_frame_def by blast

lemma rx_frame_refl [simp]: "rx_frame s s"
  by (simp add: rx_frame_def)

text \<open>A run that returns changes memory and RDH, and then reports through the interrupt causes.\<close>

definition rx_result :: "E1000State \<Rightarrow> E1000State \<Rightarrow> bool" where
  "rx_result s s' \<longleftrightarrow>
     (\<exists>t. rx_frame s t \<and> (s' = t \<or> s' = set_ics t 0 E1000_ICR_RXO \<or> (\<exists>n. s' = rx_finish n t)))"

lemma rx_resultI:
  "rx_result s s" "rx_result s (set_ics s 0 E1000_ICR_RXO)"
  "rx_frame s t \<Longrightarrow> rx_result s (set_ics t 0 E1000_ICR_RXO)"
  "rx_frame s t \<Longrightarrow> rx_result s (rx_finish n t)"
  unfolding rx_result_def using rx_frame_refl by blast+

lemma e1000_receive_iov_frame:
  "e1000_receive_iov s iov = Some (r, iov', s') \<Longrightarrow> rx_result s s'"
  by (auto simp: e1000_receive_iov_def Let_def split: if_splits option.splits bool.splits
      dest!: rx_desc_loop_frame intro!: rx_resultI)

lemma e1000_receive_frame: "e1000_receive s b = Some (r, b', s') \<Longrightarrow> rx_result s s'"
  by (auto simp: e1000_receive_def split: option.splits dest: e1000_receive_iov_frame)

definition rx_regs :: "nat set" where
  "rx_regs = {RDH, GPRC, TPR, TORL, TORH, ICR, ICS}"

lemma rx_finish_fields:
  "nc (rx_finish n s) = nc s" "macaddr (rx_finish n s) = macaddr s"
  "phy_reg (rx_finish n s) = phy_reg s" "eeprom_data (rx_finish n s) = eeprom_data s"
  "rxbuf_size (rx_finish n s) = rxbuf_size s" "rxbuf_min_shift (rx_finish n s) = rxbuf_min_shift s"
  "tx (rx_finish n s) = tx s" "eecd (rx_finish n s) = eecd s"
  "autoneg_timer (rx_finish n s) = autoneg_timer s" "compat_flags (rx_finish n s) = compat_flags s"
  "clock_ns (rx_finish n s) = clock_ns s" "sent_packets (rx_finish n s) = sent_packets s"
  "notify_count (rx_finish n s) = notify_count s" "hub_flushes (rx_finish n s) = hub_flushes s"
  "ram (rx_finish n s) = ram s"
  by (simp_all add: rx_finish_def Let_def)

lemma rx_finish_mac_reg:
  "r \<notin> rx_regs \<Longrightarrow> mac_reg (rx_finish n s) r = mac_reg s r"
  "mac_reg (rx_finish n s) RDH = mac_reg s RDH"
  by (simp_all add: rx_finish_def Let_def intr_mac_reg rx_regs_def)

lemma e1000_receive_fields:
  assumes "e1000_receive s b = Some (r, b', s')"
  shows "nc s' = nc s" "macaddr s' = macaddr s" "phy_reg s' = phy_reg s"
    "eeprom_data s' = eeprom_data s" "rxbuf_size s' = rxbuf_size s"
    "rxbuf_min_shift s' = rxbuf_min_shift s" "tx s' = tx s" "eecd s' = eecd s"
    "autoneg_timer s' = autoneg_timer s" "compat_flags s' = compat_flags s" "clock_ns s' = clock_ns s"
    "sent_packets s' = sent_packets s" "notify_count s' = notify_count s"
    "hub_flushes s' = hub_flushes s"
    "i \<notin> rx_regs \<Longrightarrow> mac_reg s' i = mac_reg s i"
proof -
  obtain t where t: "rx_frame s t" "s' = t \<or> s' = set_ics t 0 E1000_ICR_RXO \<or> (\<exists>n. s' = rx_finish n t)"
    using e1000_receive_frame [OF assms] unfolding rx_result_def by blast
  obtain m h where eq: "t = s\<lparr>ram := m, mac_reg := (mac_reg s)(RDH := h)\<rparr>"
    using t(1) by (rule rx_frameE)
  show "nc s' = nc s" "macaddr s' = macaddr s" "phy_reg s' = phy_reg s"
    "eeprom_data s' = eeprom_data s" "rxbuf_size s' = rxbuf_size s"
    "rxbuf_min_shift s' = rxbuf_min_shift s" "tx s' = tx s" "eecd s' = eecd s"
    "autoneg_timer s' = autoneg_timer s" "compat_flags s' = compat_flags s" "clock_ns s' = clock_ns s"
    "sent_packets s' = sent_packets s" "notify_count s' = notify_count s"
    "hub_flushes s' = hub_flushes s"
    using t(2) by (auto simp: eq rx_finish_fields)
  show "mac_reg s' i = mac_reg s i" if "i \<notin> rx_regs"
    using t(2) that by (auto simp: eq rx_finish_mac_reg set_ics_mac_reg) (auto simp: rx_regs_def)
qed

lemma intr_inv_rx_frame: "intr_inv s \<Longrightarrow> rx_frame s t \<Longrightarrow> intr_inv t"
  by (elim rx_frameE) (simp add: intr_inv_mac_set intr_inv_cong)

lemma intr_inv_rx_finish: "intr_inv s \<Longrightarrow> intr_inv (rx_finish n s)"
  unfolding rx_finish_def Let_def
  by (rule intr_inv_set_ics, rule intr_pre_cong [OF intr_inv_pre [of s]]) simp_all

lemma intr_inv_receive:
  assumes "intr_inv s" and "e1000_receive s b = Some (r, b', s')"
  shows "intr_inv s'"
  using e1000_receive_frame [OF assms(2)] assms(1) unfolding rx_result_def
  by (auto intro!: intr_inv_rx_finish intr_inv_set_ics intr_inv_pre intro: intr_inv_rx_frame)

text \<open>The head stays a 16-bit index, as the drivers see it, for every ring length a driver can set.\<close>

definition rdh_ok :: "E1000State \<Rightarrow> bool" where
  "rdh_ok s \<longleftrightarrow> mac_reg s RDH \<le> 0xffff \<and> mac_reg s RDLEN \<le> 0xfff80"

lemma ring_next_bound:
  assumes "len \<le> 0xfff80"
  shows "ring_next h len \<le> 0xffff"
proof (cases "unat (h + 1) * 16 < unat len")
  case True
  then have "unat (h + 1) \<le> 0xffff" using assms by (simp add: word_le_nat_alt)
  then show ?thesis using True by (simp add: ring_next_def word_le_nat_alt)
qed (simp add: ring_next_def)

text \<open>A property that one descriptor keeps is kept by the loop, and by receiving if the reports keep it.\<close>

lemma rx_desc_loop_inv:
  assumes adv: "\<And>s m. I s \<Longrightarrow> I (ring_advance s m)"
    and loop: "rx_desc_loop sz tot spec st start iov ofs off s = Some (w, s')"
  shows "I s \<longrightarrow> I s'"
proof -
  have "I s \<longrightarrow> I (snd (w, s'))"
  proof (rule rx_desc_loop.raw_induct
      [where P = "\<lambda>_ _ _ _ _ _ _ _ s r. I s \<longrightarrow> I (snd r)", OF _ loop], goal_cases)
    case (1 loop sz tot spec st start iov ofs off s r)
    note IH = 1(1)
    from 1(2) obtain iov' ofs' off' m where
      "(if mac_reg (ring_advance s m) RDH = start then Some (True, ring_advance s m)
        else if off' < tot then loop sz tot spec st start iov' ofs' off' (ring_advance s m)
        else Some (False, ring_advance s m)) = Some r"
      by (auto split: bind_splits dest!: rx_desc_step_frame)
    then show ?case using adv by (auto split: if_splits dest!: IH)
  qed
  then show ?thesis by simp
qed

lemma e1000_receive_inv:
  assumes adv: "\<And>s m. I s \<Longrightarrow> I (ring_advance s m)"
    and rep: "\<And>s c. I s \<Longrightarrow> I (set_ics s 0 c)" "\<And>s n. I s \<Longrightarrow> I (rx_finish n s)"
    and "I s" and "e1000_receive s b = Some (r, b', s')"
  shows "I s'"
proof -
  have loop: "I s \<longrightarrow> I t"
    if "rx_desc_loop sz tot spec st start iov ofs off s = Some (w, t)"
    for sz tot spec st start iov ofs off w t
    using rx_desc_loop_inv [of I] adv that by blast
  show ?thesis using assms(4,5)
    by (auto simp: e1000_receive_def e1000_receive_iov_def Let_def
        split: if_splits option.splits bool.splits dest!: loop intro!: rep)
qed

lemma rdh_ok_finish: "rdh_ok s \<Longrightarrow> rdh_ok (rx_finish n s)" "rdh_ok s \<Longrightarrow> rdh_ok (set_ics s 0 c)"
  using rx_finish_mac_reg(1) [of RDLEN n s]
  by (simp_all add: rdh_ok_def rx_finish_mac_reg(2) set_ics_mac_reg rx_regs_def)

lemma rdh_ok_receive: "rdh_ok s \<Longrightarrow> e1000_receive s b = Some (r, b', s') \<Longrightarrow> rdh_ok s'"
  by (rule e1000_receive_inv [of rdh_ok]) (simp_all add: rdh_ok_finish, simp add: rdh_ok_def ring_next_bound)

lemma ring_ok_receive:
  assumes "ring_ok (mac_reg s RDH) (mac_reg s RDLEN)" and "e1000_receive s b = Some (r, b', s')"
  shows "ring_ok (mac_reg s' RDH) (mac_reg s' RDLEN)"
proof (rule e1000_receive_inv [of "\<lambda>s. ring_ok (mac_reg s RDH) (mac_reg s RDLEN)", OF _ _ _ assms])
  show "ring_ok (mac_reg (rx_finish n s) RDH) (mac_reg (rx_finish n s) RDLEN)"
    if "ring_ok (mac_reg s RDH) (mac_reg s RDLEN)" for s n
    using that rx_finish_mac_reg(1) [of RDLEN n s] rx_finish_mac_reg(2) [of n s] by (simp add: rx_regs_def)
qed (simp_all add: ring_ok_next set_ics_mac_reg)

subsection \<open>A ring that never ends\<close>

text \<open>
  With the ring length zero the head is reset to descriptor 0 after every descriptor, so the test
  for a wraparound never succeeds for another start; a null descriptor there is skipped forever.
\<close>

lemma ring_next_0 [simp]: "ring_next h 0 = 0"
  by (simp add: ring_next_def)

lemma rx_desc_encode_null:
  "rx_buffer_addr d = 0 \<Longrightarrow> rx_buffer_addr (rx_desc_decode (rx_desc_encode d)) = 0"
  by (simp add: rx_desc_roundtrip)

lemma rx_desc_step_null_stays:
  assumes "rx_buffer_addr (rx_cur_desc s) = 0" and "mac_reg s RDH = 0" and "mac_reg s RDLEN = 0"
  obtains m where "rx_desc_step sz tot spec st iov ofs off s = Some (iov, ofs, off, ring_advance s m)"
    and "rx_buffer_addr (rx_cur_desc (ring_advance s m)) = 0"
proof -
  define d where "d = (rx_cur_desc s)\<lparr>rx_special := spec,
      rx_status := rx_status (rx_cur_desc s) OR (st OR E1000_RXD_STAT_DD)\<rparr>"
  define m where "m = ram_write (ram s) (rx_cur_base s) (rx_desc_encode d)"
  have "rx_desc_step sz tot spec st iov ofs off s = Some (iov, ofs, off, ring_advance s m)"
    using assms(1)
    by (simp add: rx_desc_step_def Let_def rx_cur_base_def [symmetric] rx_cur_desc_def [symmetric]
        pci_dma_write_def m_def d_def)
  moreover have "rx_cur_base (ring_advance s m) = rx_cur_base s"
    using assms by (simp add: rx_cur_base_def rx_desc_base_def)
  then have "rx_cur_desc (ring_advance s m) = d"
    using guest_ram.rd_wr_same [of "rx_desc_encode d" "ram s" "rx_cur_base s"]
    by (simp add: rx_cur_desc_def pci_dma_read_def m_def rx_desc_roundtrip)
  ultimately show ?thesis using that assms(1) by (simp add: d_def)
qed

text \<open>Descriptor 0 is apart from every other one.\<close>

lemma rx_slot_0:
  assumes "h \<noteq> 0" and "i < 16" and "j < 16"
  shows "b + of_nat i \<noteq> b + 16 * ucast (h :: u32) + (of_nat j :: u64)"
proof
  assume "b + of_nat i = b + 16 * ucast h + (of_nat j :: u64)"
  then have "of_nat i = 16 * ucast h + (of_nat j :: u64)" by (simp add: add.assoc)
  moreover have "unat (ucast h :: u64) = unat h"
    using u32_bound [of h] by (simp add: unsigned_ucast_eq take_bit_nat_eq_self)
  then have "unat (16 * ucast h + of_nat j :: u64) = 16 * unat h + j"
    using assms(3) u32_bound [of h] by (simp add: unat_word_ariths unsigned_of_nat take_bit_nat_eq_self)
  moreover have "unat (of_nat i :: u64) = i" using assms(2) by (simp add: unsigned_of_nat take_bit_nat_eq_self)
  ultimately have "i = 16 * unat h + j" by simp
  moreover have "unat h \<noteq> 0" using assms(1) by (simp add: unat_eq_zero)
  ultimately show False using assms(2) by simp
qed

lemma rx_desc_step_null_first:
  assumes "rx_buffer_addr (rx_cur_desc s) = 0" and "mac_reg s RDH \<noteq> 0" and "mac_reg s RDLEN = 0"
    and "rx_buffer_addr (rx_desc_decode (pci_dma_read s (rx_desc_base s) 16)) = 0"
  obtains m where "rx_desc_step sz tot spec st iov ofs off s = Some (iov, ofs, off, ring_advance s m)"
    and "rx_buffer_addr (rx_cur_desc (ring_advance s m)) = 0"
    and "mac_reg (ring_advance s m) RDH = 0"
proof -
  define d where "d = (rx_cur_desc s)\<lparr>rx_special := spec,
      rx_status := rx_status (rx_cur_desc s) OR (st OR E1000_RXD_STAT_DD)\<rparr>"
  define m where "m = ram_write (ram s) (rx_cur_base s) (rx_desc_encode d)"
  have step: "rx_desc_step sz tot spec st iov ofs off s = Some (iov, ofs, off, ring_advance s m)"
    using assms(1)
    by (simp add: rx_desc_step_def Let_def rx_cur_base_def [symmetric] rx_cur_desc_def [symmetric]
        pci_dma_write_def m_def d_def)
  have h: "ring_next (mac_reg s RDH) (mac_reg s RDLEN) = 0"
    by (simp add: ring_next_def assms(3))
  have base: "rx_cur_base (ring_advance s m) = rx_desc_base s"
    by (simp add: rx_cur_base_def rx_desc_base_def h)
  have "ram_read m (rx_desc_base s) 16 = ram_read (ram s) (rx_desc_base s) 16"
    unfolding m_def rx_cur_base_def
    using rx_slot_0 [OF assms(2)] by (subst guest_ram.rd_wr_disjoint) simp_all
  then have null: "rx_buffer_addr (rx_cur_desc (ring_advance s m)) = 0"
    using assms(4) by (simp add: rx_cur_desc_def base pci_dma_read_def)
  show ?thesis by (rule that [OF step null]) (simp add: h)
qed

lemma rx_desc_loop_diverges:
  assumes "mac_reg s RDLEN = 0" and "mac_reg s RDH = 0" and "start \<noteq> 0" and "off < tot"
    and "rx_buffer_addr (rx_cur_desc s) = 0"
  shows "rx_desc_loop sz tot spec st start iov ofs off s = None"
proof (rule ccontr)
  assume "rx_desc_loop sz tot spec st start iov ofs off s \<noteq> None"
  then obtain r where r: "rx_desc_loop sz tot spec st start iov ofs off s = Some r" by blast
  have "\<not> (mac_reg s RDLEN = 0 \<and> mac_reg s RDH = 0 \<and> start \<noteq> 0 \<and> off < tot \<and>
      rx_buffer_addr (rx_cur_desc s) = 0)"
  proof (rule rx_desc_loop.raw_induct
      [where P = "\<lambda>_ tot _ _ start _ _ off s _. \<not> (mac_reg s RDLEN = 0 \<and> mac_reg s RDH = 0 \<and>
         start \<noteq> 0 \<and> off < tot \<and> rx_buffer_addr (rx_cur_desc s) = 0)", OF _ r], goal_cases)
    case (1 loop sz tot spec st start iov ofs off s r)
    show ?case
    proof
      assume *: "mac_reg s RDLEN = 0 \<and> mac_reg s RDH = 0 \<and> start \<noteq> 0 \<and> off < tot \<and>
        rx_buffer_addr (rx_cur_desc s) = 0"
      obtain m where "rx_desc_step sz tot spec st iov ofs off s = Some (iov, ofs, off, ring_advance s m)"
        and "rx_buffer_addr (rx_cur_desc (ring_advance s m)) = 0"
        using * by (elim conjE) (rule rx_desc_step_null_stays)
      with 1(2) * 1(1) [of sz tot spec st start iov ofs off "ring_advance s m" r] show False by simp
    qed
  qed
  with assms show False by blast
qed

end
