(* ===== verification/Checksum.thy ===== *)
theory Checksum
  imports Iov
begin

text \<open>
  The Internet checksum: \<^verbatim>\<open>src/harness/qemu/net/checksum.c\<close> and \<^verbatim>\<open>include/net/checksum.h\<close>.

  A \<^verbatim>\<open>uint8_t *\<close> argument is a byte buffer read from index 0.  The sums are 32-bit words and wrap
  as in C; \<open>csum\<close> is the same sum over the natural numbers, the reference the words are compared
  with.
\<close>

subsection \<open>Definitions\<close>

text \<open>The loop of \<^verbatim>\<open>net_checksum_add_cont\<close> over the bytes still to be read, at position \<open>i\<close>.\<close>

primrec net_checksum_loop :: "u8 list \<Rightarrow> nat \<Rightarrow> u32 \<Rightarrow> u32" where
  "net_checksum_loop [] i s = s"
| "net_checksum_loop (b # bs) i s =
     net_checksum_loop bs (Suc i)
       (if odd i then s + ucast b else s + push_bit 8 (ucast b))"

definition net_checksum_add_cont :: "int \<Rightarrow> buf \<Rightarrow> nat \<Rightarrow> u32" where
  "net_checksum_add_cont len buf seq = net_checksum_loop (buf_read buf 0 (nat len)) seq 0"

definition net_checksum_add :: "int \<Rightarrow> buf \<Rightarrow> u32" where
  "net_checksum_add len buf = net_checksum_add_cont len buf 0"

text \<open>One round of folding; it makes the sum smaller while the upper half is not zero.\<close>

definition csum_fold :: "u32 \<Rightarrow> u32" where
  "csum_fold s = (s AND 0xFFFF) + drop_bit 16 s"

lemma unat_and_mask16: "unat (s AND 0xFFFF :: u32) = unat s mod 65536"
proof -
  have "s AND 0xFFFF = s mod 65536"
    using take_bit_eq_mask [of 16 s] by (simp add: mask_eq_exp_minus_1 take_bit_eq_mod)
  then show ?thesis by (simp add: unat_mod)
qed

lemma unat_drop_bit16: "unat (drop_bit 16 s :: u32) = unat s div 65536"
  by (simp add: drop_bit_eq_div unat_div)

lemma unat_csum_fold: "unat (csum_fold s) = unat s mod 65536 + unat s div 65536"
proof -
  have "unat s < 2 ^ LENGTH(32)" by (rule unsigned_less)
  then have "unat s div 65536 < 65536" by (simp add: less_mult_imp_div_less)
  then show ?thesis
    unfolding csum_fold_def by (simp add: unat_word_ariths unat_and_mask16 unat_drop_bit16)
qed

lemma csum_fold_less: "drop_bit 16 s \<noteq> 0 \<Longrightarrow> unat (csum_fold s) < unat s"
proof -
  assume "drop_bit 16 s \<noteq> 0"
  then have "unat (drop_bit 16 s) \<noteq> 0" by (simp add: unat_eq_zero)
  then have "unat s div 65536 \<noteq> 0" by (simp add: unat_drop_bit16)
  then show ?thesis
    unfolding unat_csum_fold using mult_div_mod_eq [of 65536 "unat s"] by linarith
qed

function net_checksum_fold_loop :: "u32 \<Rightarrow> u32" where
  "net_checksum_fold_loop s =
     (if drop_bit 16 s \<noteq> 0 then net_checksum_fold_loop ((s AND 0xFFFF) + drop_bit 16 s) else s)"
  by pat_completeness auto
termination
  by (relation "measure unat") (auto simp: csum_fold_less [unfolded csum_fold_def])

declare net_checksum_fold_loop.simps [simp del]

definition net_checksum_finish :: "u32 \<Rightarrow> u16" where
  "net_checksum_finish s = ucast (NOT (net_checksum_fold_loop s))"

definition net_raw_checksum :: "buf \<Rightarrow> int \<Rightarrow> u16" where
  "net_raw_checksum data len = net_checksum_finish (net_checksum_add len data)"

definition net_checksum_tcpudp :: "u16 \<Rightarrow> u16 \<Rightarrow> buf \<Rightarrow> buf \<Rightarrow> u16" where
  "net_checksum_tcpudp len proto addrs buf =
     net_checksum_finish
       (net_checksum_add (uint len) buf + net_checksum_add 8 addrs + (ucast proto + ucast len))"

text \<open>
  \<^verbatim>\<open>net_checksum_calculate\<close>: the frame is rewritten in place.  The \<^verbatim>\<open>length\<close> argument of the C
  function is not used by it, and is kept here as it is.
\<close>

definition net_checksum_calculate :: "buf \<Rightarrow> int \<Rightarrow> buf" where
  "net_checksum_calculate data len =
     (if data 14 AND 0xf0 \<noteq> 0x40 then data
      else
        let hlen = unat (data 14 AND 0x0f) * 4;
            plen = int (unat (be16_to_cpup data 16)) - int hlen;
            proto = data 23
        in if proto \<noteq> 6 \<and> proto \<noteq> 17 then data
           else
             let csum_offset = (if proto = 6 then 16 else 6 :: nat)
             in if plen < int csum_offset + 2 then data
                else
                  let d1 = data(14 + hlen + csum_offset := 0, 14 + hlen + csum_offset + 1 := 0);
                      csum = net_checksum_tcpudp (word_of_int plen) (ucast proto)
                               (\<lambda>i. d1 (14 + 12 + i)) (\<lambda>i. d1 (14 + hlen + i))
                  in stw_be_p d1 (14 + hlen + csum_offset) csum)"

text \<open>The loop of \<^verbatim>\<open>net_checksum_add_iov\<close>; \<^verbatim>\<open>buf_off\<close> is written and never read, and is left out.\<close>

primrec net_checksum_add_iov_loop ::
  "iovec list \<Rightarrow> nat \<Rightarrow> nat \<Rightarrow> nat \<Rightarrow> nat \<Rightarrow> u32 \<Rightarrow> u32" where
  "net_checksum_add_iov_loop [] iovec_off iov_off sz seq res = res"
| "net_checksum_add_iov_loop (v # vs) iovec_off iov_off sz seq res =
     (if sz = 0 then res
      else if iov_off < iovec_off + length v then
        let len = min (iovec_off + length v - iov_off) sz;
            chunk_buf = drop (iov_off - iovec_off) v
        in net_checksum_add_iov_loop vs (iovec_off + length v) (iov_off + len) (sz - len)
             (seq + len) (res + net_checksum_add_cont (int len) (\<lambda>i. chunk_buf ! i) seq)
      else net_checksum_add_iov_loop vs (iovec_off + length v) iov_off sz seq res)"

definition net_checksum_add_iov :: "iovec list \<Rightarrow> nat \<Rightarrow> nat \<Rightarrow> u32" where
  "net_checksum_add_iov iov iov_off sz = net_checksum_add_iov_loop iov 0 iov_off sz 0 0"

subsection \<open>The sum over the natural numbers\<close>

primrec csum :: "u8 list \<Rightarrow> nat \<Rightarrow> nat" where
  "csum [] i = 0"
| "csum (b # bs) i = (if odd i then unat b else 256 * unat b) + csum bs (Suc i)"

lemma csum_append: "csum (xs @ ys) i = csum xs i + csum ys (i + length xs)"
  by (induction xs arbitrary: i) auto

lemma csum_bound: "csum bs i \<le> 65280 * length bs"
proof (induction bs arbitrary: i)
  case (Cons b bs)
  have "unat b < 2 ^ LENGTH(8)" by (rule unsigned_less)
  with Cons.IH [of "Suc i"] show ?case by auto
qed simp

lemma net_checksum_loop_eq: "net_checksum_loop bs i s = s + of_nat (csum bs i)"
proof (induction bs arbitrary: i s)
  case (Cons b bs)
  then show ?case by (simp add: push_bit_eq_mult)
qed simp

lemma net_checksum_add_cont_eq:
  "net_checksum_add_cont len buf seq = of_nat (csum (buf_read buf 0 (nat len)) seq)"
  by (simp add: net_checksum_add_cont_def net_checksum_loop_eq)

lemma unat_net_checksum_add:
  assumes "len \<le> 65536"
  shows "unat (net_checksum_add len buf) = csum (buf_read buf 0 (nat len)) 0"
proof -
  have "csum (buf_read buf 0 (nat len)) 0 \<le> 65280 * nat len"
    using csum_bound [of "buf_read buf 0 (nat len)" 0] by simp
  also have "\<dots> < 2 ^ 32" using assms by auto
  finally show ?thesis
    by (simp add: net_checksum_add_def net_checksum_add_cont_eq unat_of_nat)
qed

subsection \<open>The one's complement of the sum\<close>

text \<open>
  Folding keeps the sum modulo 65535 and keeps zero apart from its multiples: the closed form of
  the loop.
\<close>

definition ones_sum :: "nat \<Rightarrow> nat" where
  "ones_sum n = (if n = 0 then 0 else (n - 1) mod 65535 + 1)"

lemma ones_sum_le: "ones_sum n \<le> 65535"
  using mod_less_divisor [of 65535 "n - 1"] by (simp add: ones_sum_def del: mod_less_divisor)

lemma ones_sum_small: "n < 65536 \<Longrightarrow> ones_sum n = n"
  by (auto simp: ones_sum_def)

lemma ones_sum_fold: "ones_sum (n mod 65536 + n div 65536) = ones_sum n"
proof (cases "n = 0")
  case False
  define q r where "q = n div 65536" and "r = n mod 65536"
  have n: "n = 65536 * q + r" by (simp add: q_def r_def)
  with False have "r + q \<noteq> 0" by auto
  then have "n - 1 = (r + q - 1) + 65535 * q" using n by simp
  then have "(n - 1) mod 65535 = (r + q - 1) mod 65535" by (metis mod_mult_self2)
  with \<open>r + q \<noteq> 0\<close> False show ?thesis by (simp add: ones_sum_def flip: q_def r_def)
qed (simp add: ones_sum_def)

lemma unat_net_checksum_fold_loop: "unat (net_checksum_fold_loop s) = ones_sum (unat s)"
proof (induction s rule: net_checksum_fold_loop.induct)
  case (1 s)
  show ?case
  proof (cases "drop_bit 16 s = 0")
    case True
    then have "unat s div 65536 = 0" using unat_drop_bit16 [of s] by simp
    with True show ?thesis by (subst net_checksum_fold_loop.simps) (simp add: ones_sum_small)
  next
    case False
    with "1.IH" have "unat (net_checksum_fold_loop s) = ones_sum (unat (csum_fold s))"
      by (subst net_checksum_fold_loop.simps) (simp add: csum_fold_def)
    then show ?thesis by (simp add: unat_csum_fold ones_sum_fold)
  qed
qed

lemma unat_not_u16: "unat (NOT w :: u16) = 65535 - unat w"
proof -
  have "NOT w = - 1 - w" by (simp add: not_eq_complement)
  moreover have "unat (- 1 - w) = unat (- 1 :: u16) - unat w" by (rule unat_sub) simp
  moreover have "unat (- 1 :: u16) = 65535"
    by (simp add: unsigned_minus_1_eq_mask mask_eq_exp_minus_1)
  ultimately show ?thesis by metis
qed

lemma unat_net_checksum_finish: "unat (net_checksum_finish s) = 65535 - ones_sum (unat s)"
proof -
  let ?r = "net_checksum_fold_loop s"
  have "net_checksum_finish s = NOT (ucast ?r)"
    unfolding net_checksum_finish_def by (rule bit_word_eqI) (auto simp: bit_simps)
  moreover have "unat (ucast ?r :: u16) = ones_sum (unat s)"
    using ones_sum_le [of "unat s"]
    by (simp add: unsigned_ucast_eq take_bit_eq_mod unat_net_checksum_fold_loop)
  ultimately show ?thesis by (simp add: unat_not_u16)
qed

lemma net_checksum_finish_0_iff:
  "net_checksum_finish s = 0 \<longleftrightarrow> s \<noteq> 0 \<and> unat s mod 65535 = 0"
proof -
  have "net_checksum_finish s = 0 \<longleftrightarrow> ones_sum (unat s) = 65535"
    using ones_sum_le [of "unat s"] unat_net_checksum_finish [of s]
    by (metis diff_diff_cancel diff_self_eq_0 diff_zero unat_0 unat_eq_zero)
  also have "\<dots> \<longleftrightarrow> s \<noteq> 0 \<and> unat s mod 65535 = 0"
  proof (cases "unat s")
    case (Suc n)
    have "(n mod 65535 = 65534) = (Suc n mod 65535 = 0)"
      by (auto simp: mod_Suc)
    with Suc show ?thesis by (auto simp: ones_sum_def)
  qed (simp add: ones_sum_def unat_eq_zero)
  finally show ?thesis .
qed

subsection \<open>Checksums over a vector\<close>

lemma buf_read_nth: "n \<le> length xs \<Longrightarrow> buf_read (\<lambda>i. xs ! i) 0 n = take n xs"
  by (rule nth_equalityI) simp_all

lemma net_checksum_add_iov_loop_eq:
  "sz = 0 \<or> iovec_off \<le> iov_off \<Longrightarrow>
   net_checksum_add_iov_loop iov iovec_off iov_off sz seq res =
     res + of_nat (csum (take sz (drop (iov_off - iovec_off) (concat iov))) seq)"
proof (induction iov arbitrary: iovec_off iov_off sz seq res)
  case Nil
  then show ?case by simp
next
  case (Cons v vs)
  show ?case
  proof (cases "sz = 0")
    case True
    then show ?thesis by simp
  next
    case sz: False
    define k where "k = iov_off - iovec_off"
    with sz Cons.prems have off: "iov_off = iovec_off + k" by simp
    show ?thesis
    proof (cases "k < length v")
      case False
      with sz have "net_checksum_add_iov_loop (v # vs) iovec_off iov_off sz seq res =
          net_checksum_add_iov_loop vs (iovec_off + length v) iov_off sz seq res"
        by (simp add: off)
      also have "\<dots> = res + of_nat (csum (take sz (drop (k - length v) (concat vs))) seq)"
        using False by (subst Cons.IH) (auto simp: off)
      finally show ?thesis using False by (simp add: off)
    next
      case True
      define len where "len = min (length v - k) sz"
      have len: "len \<le> length v - k" "len \<le> sz" "sz - len = 0 \<or> len = length v - k"
        by (auto simp: len_def)
      have "net_checksum_add_iov_loop (v # vs) iovec_off iov_off sz seq res =
          net_checksum_add_iov_loop vs (iovec_off + length v) (iov_off + len) (sz - len) (seq + len)
            (res + of_nat (csum (take len (drop k v)) seq))"
        using sz True len(1)
        by (simp add: off Let_def net_checksum_add_cont_eq buf_read_nth flip: len_def)
      also have "\<dots> = res + of_nat (csum (take len (drop k v)) seq) +
          of_nat (csum (take (sz - len) (concat vs)) (seq + len))"
        using len(3) True by (subst Cons.IH) (auto simp: off)
      also have "\<dots> = res + of_nat (csum (take len (drop k v) @ take (sz - len) (concat vs)) seq)"
        using len(1) by (simp add: csum_append)
      also have "take len (drop k v) @ take (sz - len) (concat vs) = take sz (drop k (concat (v # vs)))"
        using True by (auto simp: len_def min_def)
      finally show ?thesis by (simp add: off)
    qed
  qed
qed

lemma net_checksum_add_iov_flat:
  "net_checksum_add_iov iov iov_off sz = of_nat (csum (take sz (drop iov_off (concat iov))) 0)"
  by (simp add: net_checksum_add_iov_def net_checksum_add_iov_loop_eq)

subsection \<open>Storing a checksum makes the sum verify\<close>

lemma csum_update:
  assumes "even (i + k)" and "Suc k < length bs" and "bs ! k = 0" and "bs ! Suc k = 0"
  shows "csum (bs[k := hi, Suc k := lo]) i = csum bs i + 256 * unat hi + unat lo"
proof -
  define xs zs where "xs = take k bs" and "zs = drop (Suc (Suc k)) bs"
  have "bs = take k bs @ bs ! k # bs ! Suc k # drop (Suc (Suc k)) bs"
    using assms(2) by (simp add: Cons_nth_drop_Suc)
  then have bs: "bs = xs @ [0, 0] @ zs" and k: "length xs = k"
    using assms(2) by (simp_all add: xs_def zs_def assms(3,4))
  have "bs[k := hi, Suc k := lo] = xs @ [hi, lo] @ zs"
    by (simp add: bs list_update_append flip: k)
  then show ?thesis
    using assms(1) by (simp add: bs csum_append k)
qed

lemma ones_sum_complement: "(n + (65535 - ones_sum n)) mod 65535 = 0"
proof (cases "n = 0")
  case False
  define m where "m = (n - 1) mod 65535"
  have "m < 65535" by (simp add: m_def)
  have "n = (n - 1) div 65535 * 65535 + m + 1"
    using False by (simp add: m_def)
  then have "n + (65535 - (m + 1)) = (n - 1) div 65535 * 65535 + 65535"
    using \<open>m < 65535\<close> by linarith
  then have "n + (65535 - (m + 1)) = ((n - 1) div 65535 + 1) * 65535" by simp
  then have "(n + (65535 - (m + 1))) mod 65535 = 0" by (simp del: mult_Suc add_mult_distrib)
  moreover have "ones_sum n = m + 1" using False by (simp add: ones_sum_def m_def)
  ultimately show ?thesis by simp
qed (simp add: ones_sum_def)

text \<open>
  A 16-bit field at an even distance from the start of the sum, holding zero, receives the
  checksum of the whole: the checksum of the result is zero, which is what a receiver tests.
\<close>

lemma checksum_verifies:
  assumes "even k" and "Suc k < length bs" and "bs ! k = 0" and "bs ! Suc k = 0"
    and "length bs \<le> 65536"
    and "c = net_checksum_finish (of_nat (csum bs 0))"
  shows "net_checksum_finish
     (of_nat (csum (bs[k := ucast (drop_bit 8 c), Suc k := ucast c]) 0)) = 0"
proof -
  let ?S = "csum bs 0" and ?bs' = "bs[k := ucast (drop_bit 8 c), Suc k := ucast c]"
  have bound: "csum xs 0 < 2 ^ 32" if "length xs = length bs" for xs
    using csum_bound [of xs 0] that assms(5) by simp
  have c: "unat c = 65535 - ones_sum ?S"
    using bound [of bs] by (simp add: assms(6) unat_net_checksum_finish unat_of_nat)
  have "256 * unat (ucast (drop_bit 8 c) :: u8) + unat (ucast c :: u8) = unat c"
  proof -
    have "unat c < 65536" using unsigned_less [of c] by simp
    then show ?thesis
      by (simp add: unsigned_ucast_eq take_bit_eq_mod drop_bit_eq_div unat_div
          less_mult_imp_div_less)
  qed
  then have sum: "csum ?bs' 0 = ?S + (65535 - ones_sum ?S)"
    using csum_update [of 0 k bs] assms(1-4) by (simp add: c)
  have "csum ?bs' 0 \<noteq> 0" using sum by (auto simp: ones_sum_def)
  moreover have "unat (of_nat (csum ?bs' 0) :: u32) = csum ?bs' 0"
    using bound [of ?bs'] by (simp add: unat_of_nat)
  moreover have "csum ?bs' 0 mod 65535 = 0" unfolding sum by (rule ones_sum_complement)
  ultimately show ?thesis
    unfolding net_checksum_finish_0_iff by (metis unat_0)
qed

end
