(* ===== verification/E1000_Tx.thy ===== *)
theory E1000_Tx
  imports E1000_Receive Checksum
begin

text \<open>
  The transmit path of the e1000 (\<^verbatim>\<open>src/harness/e1000/e1000.c\<close>, \<^verbatim>\<open>putsum\<close>, \<^verbatim>\<open>e1000_send_packet\<close> to
  \<^verbatim>\<open>start_xmit\<close>): checksum insertion, TCP segmentation, VLAN tagging, the descriptor loop.

  The segmentation loop and the ring loop may run forever for some guest programs, so they are
  partial functions; \<open>None\<close> is a run that does not return.  In PHY loopback a frame is received by
  the same device straight out of the transmit buffer, which the receive path may modify.
\<close>

subsection \<open>Checksums and sending\<close>

definition putsum :: "buf \<Rightarrow> u32 \<Rightarrow> u32 \<Rightarrow> u32 \<Rightarrow> u32 \<Rightarrow> buf" where
  "putsum data n sloc css cse =
     (let n = (if cse \<noteq> 0 \<and> cse < n then cse + 1 else n)
      in if sloc < n - 1 then
           let s = net_checksum_add (sint (n - css)) (\<lambda>i. data (unat css + i))
           in stw_be_p data (unat sloc) (net_checksum_finish s)
         else data)"

text \<open>
  \<^verbatim>\<open>qemu_send_packet\<close> (\<^verbatim>\<open>net/net.c\<close>): a frame is dropped without a link or a peer; otherwise it goes to
  the peer's queue, which is outside the device and is recorded as the list of frames sent.
\<close>

definition qemu_send_packet :: "E1000State \<Rightarrow> u8 list \<Rightarrow> E1000State" where
  "qemu_send_packet s buf =
     (if link_down (nc s) \<or> \<not> has_peer (nc s) then s
      else s\<lparr>sent_packets := sent_packets s @ [buf]\<rparr>)"

text \<open>\<^verbatim>\<open>e1000_send_packet\<close>: the buffer afterwards and the state.\<close>

definition e1000_send_packet :: "E1000State \<Rightarrow> u8 list \<Rightarrow> (u8 list \<times> E1000State) option" where
  "e1000_send_packet s buf =
     (if tst (phy_reg s PHY_CTRL) MII_CR_LOOPBACK then
        case e1000_receive s buf of None \<Rightarrow> None | Some (_, buf, s) \<Rightarrow> Some (buf, s)
      else Some (buf, qemu_send_packet s buf))"

subsection \<open>One segment\<close>

text \<open>\<^verbatim>\<open>xmit_seg\<close>, the header updates of a TCP/UDP segment.\<close>

definition tso_ip_fixup :: "e1000_tx \<Rightarrow> buf" where
  "tso_ip_fixup tp =
     (let css = unat (tp_ipcss tp);
          frames = tp_tso_frames tp;
          data = tp_data tp
      in if tp_ip tp then
           let data = stw_be_p data (css + 2) (tp_size tp - ucast (tp_ipcss tp))
           in stw_be_p data (css + 4) (be16_to_cpup data (css + 4) + frames)
         else stw_be_p data (css + 4) (tp_size tp - ucast (tp_ipcss tp)))"

definition tso_tcp_fixup :: "e1000_tx \<Rightarrow> buf \<Rightarrow> buf" where
  "tso_tcp_fixup tp data =
     (let css = unat (tp_tucss tp);
          len = tp_size tp - ucast (tp_tucss tp)
      in if tp_tcp tp then
           let sofar = ucast (tp_tso_frames tp) * ucast (tp_mss tp) :: u32;
               data = stl_be_p data (css + 4) (ldl_be_p data (css + 4) + sofar)
           in if tp_paylen tp - sofar > ucast (tp_mss tp) then
                data(css + 13 := data (css + 13) AND NOT 9)
              else data
         else stw_be_p data (css + 4) len)"

definition tso_phsum :: "e1000_tx \<Rightarrow> buf \<Rightarrow> buf" where
  "tso_phsum tp data =
     (let len = tp_size tp - ucast (tp_tucss tp)
      in if tst (tp_sum_needed tp) E1000_TXD_POPTS_TXSM then
           let sp = unat (tp_tucso tp);
               phsum = ucast (be16_to_cpup data sp) + ucast len :: u32;
               phsum = drop_bit 16 phsum + (phsum AND 0xffff)
           in stw_be_p data sp (ucast phsum)
         else data)"

definition tso_fixup :: "e1000_tx \<Rightarrow> e1000_tx" where
  "tso_fixup tp =
     (if tp_tse tp \<and> tp_cptse tp then
        tp\<lparr>tp_data := tso_phsum tp (tso_tcp_fixup tp (tso_ip_fixup tp)),
           tp_tso_frames := tp_tso_frames tp + 1\<rparr>
      else tp)"

text \<open>\<^verbatim>\<open>xmit_seg\<close>, the checksum insertion.\<close>

definition seg_checksums :: "e1000_tx \<Rightarrow> e1000_tx" where
  "seg_checksums tp =
     (let tp = (if tst (tp_sum_needed tp) E1000_TXD_POPTS_TXSM then
                  tp\<lparr>tp_data := putsum (tp_data tp) (ucast (tp_size tp)) (ucast (tp_tucso tp))
                                  (ucast (tp_tucss tp)) (ucast (tp_tucse tp))\<rparr>
                else tp)
      in if tst (tp_sum_needed tp) E1000_TXD_POPTS_IXSM then
           tp\<lparr>tp_data := putsum (tp_data tp) (ucast (tp_size tp)) (ucast (tp_ipcso tp))
                           (ucast (tp_ipcss tp)) (ucast (tp_ipcse tp))\<rparr>
         else tp)"

text \<open>
  \<^verbatim>\<open>xmit_seg\<close>, the tag insertion: the four bytes of \<^verbatim>\<open>vlan\<close> lie directly before \<^verbatim>\<open>data\<close>, so the tagged
  frame starts at \<^verbatim>\<open>vlan\<close>.
\<close>

definition seg_tag :: "e1000_tx \<Rightarrow> e1000_tx" where
  "seg_tag tp =
     (let tp = tp\<lparr>tp_vlan := buf_write (tp_vlan tp) 0 (buf_read (tp_data tp) 0 4)\<rparr>;
          tp = tp\<lparr>tp_data := buf_write (tp_data tp) 0 (buf_read (tp_data tp) 4 8)\<rparr>
      in tp\<lparr>tp_data := buf_write (tp_data tp) 8 (buf_read (tp_vlan_header tp) 0 4)\<rparr>)"

definition seg_frame :: "e1000_tx \<Rightarrow> u8 list" where
  "seg_frame tp =
     (if tp_vlan_needed tp then buf_read (tp_vlan tp) 0 4 @ buf_read (tp_data tp) 0 (unat (tp_size tp))
      else buf_read (tp_data tp) 0 (unat (tp_size tp)))"

text \<open>The transmit buffer after the call: what the receiver left in it.\<close>

definition seg_restore :: "u8 list \<Rightarrow> e1000_tx \<Rightarrow> e1000_tx" where
  "seg_restore buf tp =
     (if tp_vlan_needed tp then
        tp\<lparr>tp_vlan := buf_write (tp_vlan tp) 0 (take 4 buf), tp_data := buf_write (tp_data tp) 0 (drop 4 buf)\<rparr>
      else tp\<lparr>tp_data := buf_write (tp_data tp) 0 buf\<rparr>)"

definition tx_stats :: "E1000State \<Rightarrow> E1000State" where
  "tx_stats s =
     (let s = mac_set TPT (mac_reg s TPT + 1) s;
          s = mac_set GPTC (mac_reg s GPTC + 1) s;
          n = mac_reg s TOTL;
          s = mac_set TOTL (mac_reg s TOTL + ucast (tp_size (tx s))) s
      in if mac_reg s TOTL < n then mac_set TOTH (mac_reg s TOTH + 1) s else s)"

definition xmit_seg :: "E1000State \<Rightarrow> E1000State option" where
  "xmit_seg s =
     (let s = s\<lparr>tx := seg_checksums (tso_fixup (tx s))\<rparr>;
          s = (if tp_vlan_needed (tx s) then s\<lparr>tx := seg_tag (tx s)\<rparr> else s)
      in case e1000_send_packet s (seg_frame (tx s)) of
           None \<Rightarrow> None
         | Some (buf, s) \<Rightarrow> Some (tx_stats (s\<lparr>tx := seg_restore buf (tx s)\<rparr>)))"

subsection \<open>Descriptors\<close>

definition tx_desc_addr :: "u8 list \<Rightarrow> u64" where
  "tx_desc_addr d = le_word (take 8 d)"

definition tx_desc_lower :: "u8 list \<Rightarrow> u32" where
  "tx_desc_lower d = le_word (take 4 (drop 8 d))"

definition tx_desc_upper :: "u8 list \<Rightarrow> u32" where
  "tx_desc_upper d = le_word (take 4 (drop 12 d))"

definition tx_desc_special :: "u8 list \<Rightarrow> u16" where
  "tx_desc_special d = le_word (take 2 (drop 14 d))"

text \<open>A context descriptor (\<^verbatim>\<open>struct e1000_context_desc\<close>) sets up the offload state.\<close>

definition tx_context :: "u8 list \<Rightarrow> e1000_tx \<Rightarrow> e1000_tx" where
  "tx_context d tp =
     (let op = le_word (take 4 (drop 8 d)) :: u32;
          tp = tp\<lparr>tp_ipcss := d ! 0, tp_ipcso := d ! 1, tp_ipcse := le_word (take 2 (drop 2 d)),
                  tp_tucss := d ! 4, tp_tucso := d ! 5, tp_tucse := le_word (take 2 (drop 6 d)),
                  tp_paylen := op AND 0xfffff,
                  tp_hdr_len := d ! 13, tp_mss := le_word (take 2 (drop 14 d)),
                  tp_ip := tst op E1000_TXD_CMD_IP, tp_tcp := tst op E1000_TXD_CMD_TCP,
                  tp_tse := tst op E1000_TXD_CMD_TSE, tp_tso_frames := 0\<rparr>
      in if tp_tucso tp = 0 then tp\<lparr>tp_tucso := tp_tucss tp + (if tp_tcp tp then 16 else 6)\<rparr>
         else tp)"

definition is_vlan_txd :: "u32 \<Rightarrow> bool" where
  "is_vlan_txd txd_lower = tst txd_lower E1000_TXD_CMD_VLE"

definition tx_vlan_setup :: "E1000State \<Rightarrow> u8 list \<Rightarrow> E1000State" where
  "tx_vlan_setup s d =
     (let txd_lower = tx_desc_lower d
      in if vlan_enabled s \<and> is_vlan_txd txd_lower \<and>
            (tp_cptse (tx s) \<or> tst txd_lower E1000_TXD_CMD_EOP) then
           let vh = stw_be_p (tp_vlan_header (tx s)) 0 (ucast (mac_reg s VET));
               vh = stw_be_p vh 2 (tx_desc_special d)
           in s\<lparr>tx := (tx s)\<lparr>tp_vlan_needed := True, tp_vlan_header := vh\<rparr>\<rparr>
         else s)"

text \<open>The number of bytes one round of the segmentation loop reads.\<close>

definition tso_bytes :: "u16 \<Rightarrow> u32 \<Rightarrow> u32 \<Rightarrow> u32" where
  "tso_bytes sz split_size msh =
     (let bytes = split_size;
          bytes = (if ucast sz + bytes > msh then msh - ucast sz else bytes)
      in min (0x10000 - ucast sz) bytes)"

text \<open>One round, up to the transmission of a full segment: whether the segment is full, and the state.\<close>

definition tso_fill :: "u64 \<Rightarrow> u32 \<Rightarrow> u32 \<Rightarrow> E1000State \<Rightarrow> bool \<times> E1000State" where
  "tso_fill addr bytes msh s =
     (let tp = tx s;
          tp = tp\<lparr>tp_data := buf_write (tp_data tp) (unat (tp_size tp)) (pci_dma_read s addr (unat bytes))\<rparr>;
          sz = ucast (tp_size tp) + bytes :: u32;
          tp = (if sz \<ge> ucast (tp_hdr_len tp) \<and> ucast (tp_size tp) < (ucast (tp_hdr_len tp) :: u32) then
                  tp\<lparr>tp_header := buf_write (tp_header tp) 0 (buf_read (tp_data tp) 0 (unat (tp_hdr_len tp)))\<rparr>
                else tp);
          tp = tp\<lparr>tp_size := ucast sz\<rparr>
      in (sz = msh, s\<lparr>tx := tp\<rparr>))"

text \<open>After a full segment the saved header starts the next one.\<close>

definition tso_next :: "E1000State \<Rightarrow> E1000State" where
  "tso_next s =
     (let tp = tx s
      in s\<lparr>tx := tp\<lparr>tp_data := buf_write (tp_data tp) 0 (buf_read (tp_header tp) 0 (unat (tp_hdr_len tp))),
                   tp_size := ucast (tp_hdr_len tp)\<rparr>\<rparr>)"

definition tso_round :: "u64 \<Rightarrow> u32 \<Rightarrow> u32 \<Rightarrow> E1000State \<Rightarrow> E1000State option" where
  "tso_round addr bytes msh s =
     (let (full, s) = tso_fill addr bytes msh s
      in if full then map_option tso_next (xmit_seg s) else Some s)"

partial_function (option) tso_loop :: "u64 \<Rightarrow> u32 \<Rightarrow> u32 \<Rightarrow> E1000State \<Rightarrow> E1000State option" where
  "tso_loop addr split_size msh s =
     (let bytes = tso_bytes (tp_size (tx s)) split_size msh
      in Option.bind (tso_round addr bytes msh s)
           (\<lambda>s. if split_size - bytes \<noteq> 0 then tso_loop (addr + ucast bytes) (split_size - bytes) msh s
                else Some s))"

text \<open>The data part of \<^verbatim>\<open>process_tx_desc\<close>.\<close>

definition tx_data :: "E1000State \<Rightarrow> u8 list \<Rightarrow> E1000State option" where
  "tx_data s d =
     (let split_size = tx_desc_lower d AND 0xffff;
          addr = tx_desc_addr d;
          tp = tx s
      in if tp_tse tp \<and> tp_cptse tp then
           tso_loop addr split_size (ucast (tp_hdr_len tp) + ucast (tp_mss tp)) s
         else if \<not> tp_tse tp \<and> tp_cptse tp then Some s
         else
           let split_size = min (0x10000 - ucast (tp_size tp)) split_size :: u32
           in Some (s\<lparr>tx := tp\<lparr>tp_data := buf_write (tp_data tp) (unat (tp_size tp))
                                           (pci_dma_read s addr (unat split_size)),
                              tp_size := tp_size tp + ucast split_size\<rparr>\<rparr>))"

text \<open>The end of a packet.\<close>

definition tx_eop :: "E1000State \<Rightarrow> E1000State option" where
  "tx_eop s =
     map_option
       (\<lambda>s. s\<lparr>tx := (tx s)\<lparr>tp_tso_frames := 0, tp_sum_needed := 0, tp_vlan_needed := False,
                          tp_size := 0, tp_cptse := False\<rparr>\<rparr>)
       (if \<not> (tp_tse (tx s) \<and> tp_cptse (tx s) \<and> tp_size (tx s) < ucast (tp_hdr_len (tx s)))
        then xmit_seg s else Some s)"

definition process_tx_desc :: "E1000State \<Rightarrow> u8 list \<Rightarrow> E1000State option" where
  "process_tx_desc s d =
     (let txd_lower = tx_desc_lower d;
          dtype = txd_lower AND (E1000_TXD_CMD_DEXT OR E1000_TXD_DTYP_D);
          s = s\<lparr>mit_ide := mit_ide s OR (txd_lower AND E1000_TXD_CMD_IDE)\<rparr>
      in if dtype = E1000_TXD_CMD_DEXT then Some (s\<lparr>tx := tx_context d (tx s)\<rparr>)
         else
           let s = (if dtype = E1000_TXD_CMD_DEXT OR E1000_TXD_DTYP_D then
                      let s = (if tp_size (tx s) = 0 then
                                 s\<lparr>tx := (tx s)\<lparr>tp_sum_needed := ucast (drop_bit 8 (tx_desc_upper d))\<rparr>\<rparr>
                               else s)
                      in s\<lparr>tx := (tx s)\<lparr>tp_cptse := tst txd_lower E1000_TXD_CMD_TSE\<rparr>\<rparr>
                    else s\<lparr>tx := (tx s)\<lparr>tp_cptse := False\<rparr>\<rparr>);
               s = tx_vlan_setup s d
           in Option.bind (tx_data s d)
                (\<lambda>s. if \<not> tst txd_lower E1000_TXD_CMD_EOP then Some s else tx_eop s))"

subsection \<open>The transmit ring\<close>

definition txdesc_writeback :: "E1000State \<Rightarrow> u64 \<Rightarrow> u8 list \<Rightarrow> u32 \<times> E1000State" where
  "txdesc_writeback s base d =
     (if \<not> tst (tx_desc_lower d) (E1000_TXD_CMD_RS OR E1000_TXD_CMD_RPS) then (0, s)
      else
        let txd_upper = (tx_desc_upper d OR E1000_TXD_STAT_DD) AND
                        NOT (E1000_TXD_STAT_EC OR E1000_TXD_STAT_LC OR E1000_TXD_STAT_TU)
        in (E1000_ICR_TXDW, pci_dma_write s (base + 12) (bytes_le 4 txd_upper)))"

definition tx_desc_base :: "E1000State \<Rightarrow> u64" where
  "tx_desc_base s =
     (let bah = ucast (mac_reg s TDBAH); bal = ucast (mac_reg s TDBAL AND NOT 0xf)
      in push_bit 32 bah + bal)"

text \<open>One iteration of the loop of \<^verbatim>\<open>start_xmit\<close>: the interrupt cause and the state.\<close>

definition xmit_step :: "u32 \<Rightarrow> E1000State \<Rightarrow> (u32 \<times> E1000State) option" where
  "xmit_step cause s =
     (let base = tx_desc_base s + 16 * ucast (mac_reg s TDH);
          desc = pci_dma_read s base 16
      in case process_tx_desc s desc of
           None \<Rightarrow> None
         | Some s \<Rightarrow>
             let (c, s) = txdesc_writeback s base desc
             in Some (cause OR c, mac_set TDH (ring_next (mac_reg s TDH) (mac_reg s TDLEN)) s))"

partial_function (option) xmit_loop :: "u32 \<Rightarrow> u32 \<Rightarrow> E1000State \<Rightarrow> (u32 \<times> E1000State) option" where
  "xmit_loop tdh_start cause s =
     (if mac_reg s TDH \<noteq> mac_reg s TDT then
        Option.bind (xmit_step cause s)
          (\<lambda>(cause, s). if mac_reg s TDH = tdh_start then Some (cause, s)
                       else xmit_loop tdh_start cause s)
      else Some (cause, s))"

definition start_xmit :: "E1000State \<Rightarrow> E1000State option" where
  "start_xmit s =
     (if \<not> tst (mac_reg s TCTL) E1000_TCTL_EN then Some s
      else map_option (\<lambda>(cause, s). set_ics s 0 cause)
             (xmit_loop (mac_reg s TDH) E1000_ICR_TXQE s))"

end
