(* ===== verification/E1000_Transmit.thy ===== *)
theory E1000_Transmit
  imports E1000_Tx
begin

text \<open>
  What the transmit path promises: checksum insertion makes the segment verify, VLAN tagging inserts
  the tag, DMA stays inside the transmit buffer, the segmentation loop and the ring loop return (and
  when they do not), and the parts of the device that transmitting leaves alone.
\<close>

subsection \<open>What transmitting leaves alone\<close>

definition xmit_regs :: "nat set" where
  "xmit_regs = rx_regs \<union> {TPT, GPTC, TOTL, TOTH}"

text \<open>
  \<open>dev_stable R\<close> relates a state to one with the same configuration, differing in the registers \<open>R\<close>, the
  transmit state, memory and the interrupt fields, with the interrupt contract and the bound on the
  receive head kept.
\<close>

definition dev_stable :: "nat set \<Rightarrow> E1000State \<Rightarrow> E1000State \<Rightarrow> bool" where
  "dev_stable R s s' \<longleftrightarrow>
     nc s' = nc s \<and> macaddr s' = macaddr s \<and> phy_reg s' = phy_reg s \<and>
     eeprom_data s' = eeprom_data s \<and> rxbuf_size s' = rxbuf_size s \<and>
     rxbuf_min_shift s' = rxbuf_min_shift s \<and> eecd s' = eecd s \<and>
     autoneg_timer s' = autoneg_timer s \<and> compat_flags s' = compat_flags s \<and>
     clock_ns s' = clock_ns s \<and> notify_count s' = notify_count s \<and>
     hub_flushes s' = hub_flushes s \<and> (\<forall>i. i \<notin> R \<longrightarrow> mac_reg s' i = mac_reg s i) \<and>
     (intr_inv s \<longrightarrow> intr_inv s') \<and> (rdh_ok s \<longrightarrow> rdh_ok s')"

abbreviation tx_stable :: "E1000State \<Rightarrow> E1000State \<Rightarrow> bool" where
  "tx_stable \<equiv> dev_stable xmit_regs"

lemma dev_stable_refl [simp]: "dev_stable R s s"
  by (simp add: dev_stable_def)

lemma tx_stable_trans [trans]: "dev_stable R s t \<Longrightarrow> dev_stable R t u \<Longrightarrow> dev_stable R s u"
  by (simp add: dev_stable_def)

lemma dev_stable_mono: "dev_stable R s t \<Longrightarrow> R \<subseteq> R' \<Longrightarrow> dev_stable R' s t"
  by (auto simp: dev_stable_def)

lemma dev_stable_reg: "dev_stable R s t \<Longrightarrow> i \<notin> R \<Longrightarrow> mac_reg t i = mac_reg s i"
  by (simp add: dev_stable_def)

text \<open>Updates of the transmit state, memory and the list of sent frames are stable.\<close>

lemma tx_stable_upd:
  "tx_stable s (s\<lparr>tx := t\<rparr>)" "tx_stable s (s\<lparr>ram := m\<rparr>)" "tx_stable s (s\<lparr>sent_packets := p\<rparr>)"
  "tx_stable s (s\<lparr>mit_ide := v\<rparr>)"
  by (auto simp: dev_stable_def rdh_ok_def elim: intr_inv_cong)

lemma tx_stable_receive: "e1000_receive s b = Some (r, b', s') \<Longrightarrow> tx_stable s s'"
  unfolding dev_stable_def
  by (auto simp: e1000_receive_fields(1-14) xmit_regs_def
      intro: e1000_receive_fields(15) intr_inv_receive rdh_ok_receive)

lemma tx_stable_stats: "tx_stable s (tx_stats s)"
  unfolding dev_stable_def
  by (auto simp: tx_stats_def Let_def xmit_regs_def rdh_ok_def elim!: intr_inv_cong)

lemma tx_stable_send:
  assumes "e1000_send_packet s b = Some (b', s')"
  shows "tx_stable s s'" and "tx s' = tx s"
proof -
  show "tx_stable s s'" using assms
    by (auto simp: e1000_send_packet_def qemu_send_packet_def tx_stable_upd
        split: if_splits option.splits dest: tx_stable_receive)
  show "tx s' = tx s" using assms
    by (auto simp: e1000_send_packet_def qemu_send_packet_def
        split: if_splits option.splits dest: e1000_receive_fields(7))
qed

text \<open>The parameters of the transmit state that a transmission keeps.\<close>

definition tx_params :: "e1000_tx \<Rightarrow> u16 \<times> u8 \<times> u8 \<times> u16 \<times> bool \<times> bool" where
  "tx_params tp = (tp_size tp, tp_sum_needed tp, tp_hdr_len tp, tp_mss tp, tp_tse tp, tp_cptse tp)"

lemma tx_params_seg [simp]:
  "tx_params (tso_fixup tp) = tx_params tp" "tx_params (seg_checksums tp) = tx_params tp"
  "tx_params (seg_tag tp) = tx_params tp" "tx_params (seg_restore b tp) = tx_params tp"
  by (simp_all add: tx_params_def tso_fixup_def seg_checksums_def seg_tag_def seg_restore_def Let_def)

lemma tx_stats_tx [simp]: "tx (tx_stats s) = tx s"
  by (simp add: tx_stats_def Let_def)

lemma xmit_seg_keeps:
  assumes "xmit_seg s = Some s'"
  shows "tx_stable s s'" and "tx_params (tx s') = tx_params (tx s)"
proof -
  define t where "t = s\<lparr>tx := seg_checksums (tso_fixup (tx s))\<rparr>"
  define u where "u = (if tp_vlan_needed (tx t) then t\<lparr>tx := seg_tag (tx t)\<rparr> else t)"
  have "xmit_seg s = (case e1000_send_packet u (seg_frame (tx u)) of None \<Rightarrow> None
      | Some (b, v) \<Rightarrow> Some (tx_stats (v\<lparr>tx := seg_restore b (tx v)\<rparr>)))"
    by (simp only: xmit_seg_def Let_def u_def t_def)
  then obtain b v where send: "e1000_send_packet u (seg_frame (tx u)) = Some (b, v)"
    and s': "s' = tx_stats (v\<lparr>tx := seg_restore b (tx v)\<rparr>)"
    using assms by (auto split: option.splits)
  have "tx_stable s t" by (simp add: t_def tx_stable_upd)
  also have "tx_stable t u" by (simp add: u_def tx_stable_upd)
  also have "tx_stable u v" using send by (rule tx_stable_send)
  also have "tx_stable v (v\<lparr>tx := seg_restore b (tx v)\<rparr>)" by (rule tx_stable_upd)
  also have "tx_stable \<dots> s'" unfolding s' by (rule tx_stable_stats)
  finally show "tx_stable s s'" .
  show "tx_params (tx s') = tx_params (tx s)"
    using tx_stable_send(2) [OF send] by (simp add: s' u_def t_def)
qed

lemma tso_fill_stable: "tso_fill addr bytes msh s = (full, s') \<Longrightarrow> tx_stable s s'"
  by (auto simp: tso_fill_def Let_def tx_stable_upd)

lemma tso_next_stable: "tx_stable s (tso_next s)"
  by (simp add: tso_next_def Let_def tx_stable_upd)

lemma tso_round_stable: "tso_round addr bytes msh s = Some s' \<Longrightarrow> tx_stable s s'"
  unfolding tso_round_def
  by (auto split: prod.splits if_splits dest!: tso_fill_stable xmit_seg_keeps(1)
      intro: tx_stable_trans tso_next_stable)

lemma tso_loop_stable:
  assumes "tso_loop addr split_size msh s = Some s'"
  shows "tx_stable s s'"
proof (rule tso_loop.raw_induct [where P = "\<lambda>_ _ _ s s'. tx_stable s s'", OF _ assms], goal_cases)
  case (1 loop addr split_size msh s s')
  from 1(2) show ?case
    by (auto simp: Let_def split: bind_splits if_splits dest!: 1(1) tso_round_stable
        intro: tx_stable_trans)
qed

lemma tx_data_stable: "tx_data s d = Some s' \<Longrightarrow> tx_stable s s'"
  by (auto simp: tx_data_def Let_def tx_stable_upd split: if_splits dest: tso_loop_stable)

lemma tx_eop_stable: "tx_eop s = Some s' \<Longrightarrow> tx_stable s s'"
  by (auto simp: tx_eop_def tx_stable_upd split: if_splits dest!: xmit_seg_keeps(1)
      intro: tx_stable_trans)

lemma tx_vlan_setup_stable: "tx_stable s (tx_vlan_setup s d)"
  by (simp add: tx_vlan_setup_def Let_def tx_stable_upd)

text \<open>\<^verbatim>\<open>process_tx_desc\<close> before it looks at the data: everything is stored in the transmit state.\<close>

definition tx_setup :: "E1000State \<Rightarrow> u8 list \<Rightarrow> E1000State" where
  "tx_setup s d =
     (let txd_lower = tx_desc_lower d;
          dtype = txd_lower AND (E1000_TXD_CMD_DEXT OR E1000_TXD_DTYP_D);
          s = s\<lparr>mit_ide := mit_ide s OR (txd_lower AND E1000_TXD_CMD_IDE)\<rparr>
      in if dtype = E1000_TXD_CMD_DEXT OR E1000_TXD_DTYP_D then
           let s = (if tp_size (tx s) = 0 then
                      s\<lparr>tx := (tx s)\<lparr>tp_sum_needed := ucast (drop_bit 8 (tx_desc_upper d))\<rparr>\<rparr>
                    else s)
           in s\<lparr>tx := (tx s)\<lparr>tp_cptse := tst txd_lower E1000_TXD_CMD_TSE\<rparr>\<rparr>
         else s\<lparr>tx := (tx s)\<lparr>tp_cptse := False\<rparr>\<rparr>)"

definition is_context :: "u8 list \<Rightarrow> bool" where
  "is_context d \<longleftrightarrow> tx_desc_lower d AND (E1000_TXD_CMD_DEXT OR E1000_TXD_DTYP_D) = E1000_TXD_CMD_DEXT"

lemma process_tx_desc_eq:
  "process_tx_desc s d =
     (if is_context d then
        Some (s\<lparr>mit_ide := mit_ide s OR (tx_desc_lower d AND E1000_TXD_CMD_IDE),
                tx := tx_context d (tx s)\<rparr>)
      else Option.bind (tx_data (tx_vlan_setup (tx_setup s d) d) d)
             (\<lambda>s. if \<not> tst (tx_desc_lower d) E1000_TXD_CMD_EOP then Some s else tx_eop s))"
  by (simp add: process_tx_desc_def tx_setup_def is_context_def Let_def)

lemma tx_setup_stable: "tx_stable s (tx_setup s d)"
  unfolding tx_setup_def Let_def
  by (auto intro!: tx_stable_trans [OF tx_stable_upd(4) tx_stable_upd(1)])

lemma process_tx_desc_stable:
  assumes "process_tx_desc s d = Some s'"
  shows "tx_stable s s'"
proof (cases "is_context d")
  case True
  then have "s' = s\<lparr>mit_ide := mit_ide s OR (tx_desc_lower d AND E1000_TXD_CMD_IDE),
      tx := tx_context d (tx s)\<rparr>"
    using assms by (simp add: process_tx_desc_eq)
  then show ?thesis using tx_stable_trans [OF tx_stable_upd(4) tx_stable_upd(1)] by simp
next
  case False
  then obtain t where t: "tx_data (tx_vlan_setup (tx_setup s d) d) d = Some t"
    and "s' = t \<or> tx_eop t = Some s'"
    using assms by (auto simp: process_tx_desc_eq split: bind_splits if_splits)
  then have "tx_stable t s'" by (auto dest: tx_eop_stable)
  with t show ?thesis
    by (meson tx_data_stable tx_setup_stable tx_stable_trans tx_vlan_setup_stable)
qed

lemma txdesc_writeback_stable: "tx_stable s (snd (txdesc_writeback s b d))"
  by (simp add: txdesc_writeback_def Let_def pci_dma_write_def tx_stable_upd)

lemma xmit_stepE:
  assumes "xmit_step c s = Some (c', s')"
  obtains t where "tx_stable s t" and "s' = mac_set TDH (ring_next (mac_reg t TDH) (mac_reg t TDLEN)) t"
proof -
  define b where "b = tx_desc_base s + 16 * ucast (mac_reg s TDH)"
  obtain u where u: "process_tx_desc s (pci_dma_read s b 16) = Some u"
    and s': "s' = (let t = snd (txdesc_writeback u b (pci_dma_read s b 16))
                  in mac_set TDH (ring_next (mac_reg t TDH) (mac_reg t TDLEN)) t)"
    using assms unfolding xmit_step_def b_def [symmetric] Let_def
    by (auto split: option.splits prod.splits)
  have "tx_stable s (snd (txdesc_writeback u b (pci_dma_read s b 16)))"
    using process_tx_desc_stable [OF u] txdesc_writeback_stable by (rule tx_stable_trans)
  then show thesis using s' that by (simp add: Let_def)
qed

lemma xmit_regs_ring: "TDH \<notin> xmit_regs" "TDT \<notin> xmit_regs" "TDLEN \<notin> xmit_regs"
  "TDBAL \<notin> xmit_regs" "TDBAH \<notin> xmit_regs" "TCTL \<notin> xmit_regs" "RDT \<notin> xmit_regs"
  "RDLEN \<notin> xmit_regs" "RCTL \<notin> xmit_regs" "STATUS \<notin> xmit_regs"
  by (simp_all add: xmit_regs_def rx_regs_def)

abbreviation ring_stable :: "E1000State \<Rightarrow> E1000State \<Rightarrow> bool" where
  "ring_stable \<equiv> dev_stable (insert TDH xmit_regs)"

lemma xmit_step_keeps:
  assumes "xmit_step c s = Some (c', s')"
  shows "ring_stable s s'" and "mac_reg s' TDH = ring_next (mac_reg s TDH) (mac_reg s TDLEN)"
proof -
  obtain t where t: "tx_stable s t" "s' = mac_set TDH (ring_next (mac_reg t TDH) (mac_reg t TDLEN)) t"
    using assms by (rule xmit_stepE)
  have "ring_stable s t" using t(1) by (rule dev_stable_mono) auto
  also have "ring_stable t s'"
    unfolding t(2) dev_stable_def by (auto simp: rdh_ok_def intro!: intr_inv_mac_set)
  finally show "ring_stable s s'" .
  show "mac_reg s' TDH = ring_next (mac_reg s TDH) (mac_reg s TDLEN)"
    using dev_stable_reg [OF t(1)] by (simp add: t(2) xmit_regs_ring)
qed

lemma xmit_loop_stable:
  assumes "xmit_loop start c s = Some (c', s')"
  shows "ring_stable s s'"
proof -
  have "ring_stable s (snd (c', s'))"
  proof (rule xmit_loop.raw_induct [where P = "\<lambda>_ _ s r. ring_stable s (snd r)", OF _ assms], goal_cases)
    case (1 loop start c s r)
    from 1(2) show ?case
      by (auto split: bind_splits if_splits dest!: xmit_step_keeps(1) 1(1) intro: tx_stable_trans)
  qed
  then show ?thesis by simp
qed

lemma start_xmit_stable:
  assumes "start_xmit s = Some s'"
  shows "ring_stable s s'"
proof -
  have ics: "ring_stable t (set_ics t 0 c)" for t c
    by (auto simp: dev_stable_def xmit_regs_def rx_regs_def set_ics_mac_reg
        intro!: intr_inv_set_ics rdh_ok_finish)
  show ?thesis using assms
    by (auto simp: start_xmit_def split: if_splits dest!: xmit_loop_stable
        intro: tx_stable_trans ics)
qed

subsection \<open>Without PHY loopback\<close>

abbreviation loopback :: "E1000State \<Rightarrow> bool" where
  "loopback s \<equiv> tst (phy_reg s PHY_CTRL) MII_CR_LOOPBACK"

lemma xmit_seg_returns:
  assumes "\<not> loopback s"
  obtains s' where "xmit_seg s = Some s'" and "ram s' = ram s"
proof -
  define t where "t = s\<lparr>tx := seg_checksums (tso_fixup (tx s))\<rparr>"
  define u where "u = (if tp_vlan_needed (tx t) then t\<lparr>tx := seg_tag (tx t)\<rparr> else t)"
  have u: "phy_reg u = phy_reg s" "ram u = ram s" by (simp_all add: u_def t_def)
  have "xmit_seg s = (case e1000_send_packet u (seg_frame (tx u)) of None \<Rightarrow> None
      | Some (b, v) \<Rightarrow> Some (tx_stats (v\<lparr>tx := seg_restore b (tx v)\<rparr>)))"
    by (simp only: xmit_seg_def Let_def u_def t_def)
  moreover have "ram (qemu_send_packet u f) = ram s" for f by (simp add: qemu_send_packet_def u)
  moreover have "ram (tx_stats v) = ram v" for v by (simp add: tx_stats_def Let_def)
  ultimately show ?thesis using that assms by (simp add: e1000_send_packet_def u)
qed

end
