(* ===== verification/E1000_Tx_Loops.thy ===== *)
theory E1000_Tx_Loops
  imports E1000_Transmit
begin

text \<open>
  The two loops of the transmit path: when the segmentation loop of \<^verbatim>\<open>process_tx_desc\<close> returns and when
  it cannot, and that \<^verbatim>\<open>start_xmit\<close> works off a valid ring.
\<close>

subsection \<open>The bytes of one round\<close>

lemma unat_ucast_u16 [simp]: "unat (ucast w :: u32) = unat (w :: u16)"
  using u16_bound [of w] by (simp add: unsigned_ucast_eq take_bit_nat_eq_self)

lemma unat_ucast_u8 [simp]: "unat (ucast w :: u32) = unat (w :: u8)" "unat (ucast w :: u16) = unat w"
  using u8_bound [of w] by (simp_all add: unsigned_ucast_eq take_bit_nat_eq_self)

lemma unat_room: "unat (0x10000 - ucast (w :: u16) :: u32) = 65536 - unat w"
proof -
  have "ucast w \<le> (0x10000 :: u32)" using u16_bound [of w] by (simp add: word_le_nat_alt)
  then show ?thesis by (simp add: unat_sub)
qed

text \<open>The transfer never passes the end of the 64 KiB transmit buffer, for any register contents.\<close>

lemma tso_bytes_room: "unat sz + unat (tso_bytes sz split_size msh) \<le> 65536"
proof -
  have "tso_bytes sz split_size msh \<le> 0x10000 - ucast sz" by (simp add: tso_bytes_def Let_def)
  then have "unat (tso_bytes sz split_size msh) \<le> 65536 - unat sz"
    by (simp add: word_le_nat_alt unat_room)
  then show ?thesis using u16_bound [of sz] by simp
qed

lemma unat_min_u32: "unat (min a b :: u32) = min (unat a) (unat b)"
  by (simp add: min_def word_le_nat_alt)

lemma unat_tso_bytes:
  assumes "unat sz \<le> unat msh" and "unat split_size < 65536"
  shows "unat (tso_bytes sz split_size msh) =
    min (65536 - unat sz) (min (unat split_size) (unat msh - unat sz))"
proof -
  have "unat (ucast sz + split_size :: u32) = unat sz + unat split_size"
    using u16_bound [of sz] assms(2) by (simp add: unat_word_ariths)
  moreover have "unat (msh - ucast sz) = unat msh - unat sz"
    using assms(1) by (simp add: unat_sub word_le_nat_alt)
  moreover have "unat (tso_bytes sz split_size msh) =
      min (65536 - unat sz) (unat (if ucast sz + split_size > msh then msh - ucast sz else split_size))"
    by (simp add: tso_bytes_def Let_def unat_min_u32 unat_room)
  ultimately show ?thesis by (simp add: word_less_nat_alt)
qed

lemma unat_tso_sum: "unat (ucast sz + tso_bytes sz split_size msh :: u32) = unat sz + unat (tso_bytes sz split_size msh)"
  using tso_bytes_room [of sz split_size msh] by (simp add: unat_word_ariths)

lemma tso_size_bound:
  assumes "ucast sz + tso_bytes sz split_size msh \<noteq> msh"
    and "unat sz + unat (tso_bytes sz split_size msh) \<le> unat msh"
  shows "unat (ucast (ucast sz + tso_bytes sz split_size msh :: u32) :: u16) < unat msh"
proof -
  have "unat (ucast (ucast sz + tso_bytes sz split_size msh :: u32) :: u16) \<le>
      unat sz + unat (tso_bytes sz split_size msh)"
    by (simp add: unsigned_ucast_eq take_bit_eq_mod unat_tso_sum)
  moreover have "unat sz + unat (tso_bytes sz split_size msh) \<noteq> unat msh"
    using assms(1) unat_tso_sum [of sz split_size msh] by (metis word_unat_eq_iff)
  ultimately show ?thesis using assms(2) by linarith
qed

subsection \<open>One round\<close>

lemma tso_fill_facts:
  "fst (tso_fill addr bytes msh s) = (ucast (tp_size (tx s)) + bytes = msh)"
  "tp_size (tx (snd (tso_fill addr bytes msh s))) = ucast (ucast (tp_size (tx s)) + bytes :: u32)"
  "tp_hdr_len (tx (snd (tso_fill addr bytes msh s))) = tp_hdr_len (tx s)"
  "tp_mss (tx (snd (tso_fill addr bytes msh s))) = tp_mss (tx s)"
  "phy_reg (snd (tso_fill addr bytes msh s)) = phy_reg s"
  "ram (snd (tso_fill addr bytes msh s)) = ram s"
  by (simp_all add: tso_fill_def Let_def)

lemma tso_next_facts [simp]:
  "tp_size (tx (tso_next s)) = ucast (tp_hdr_len (tx s))" "tp_hdr_len (tx (tso_next s)) = tp_hdr_len (tx s)"
  "tp_mss (tx (tso_next s)) = tp_mss (tx s)" "phy_reg (tso_next s) = phy_reg s" "ram (tso_next s) = ram s"
  by (simp_all add: tso_next_def Let_def)

lemma tso_round_facts:
  assumes "tso_round addr bytes msh s = Some t"
  shows "tp_size (tx t) = (if ucast (tp_size (tx s)) + bytes = msh then ucast (tp_hdr_len (tx s))
           else ucast (ucast (tp_size (tx s)) + bytes :: u32))"
    and "tp_hdr_len (tx t) = tp_hdr_len (tx s)" and "tp_mss (tx t) = tp_mss (tx s)"
    and "phy_reg t = phy_reg s"
proof -
  obtain full u where fill: "tso_fill addr bytes msh s = (full, u)" by force
  note f = tso_fill_facts [of addr bytes msh s, unfolded fill fst_conv snd_conv]
  have t: "(if full then map_option tso_next (xmit_seg u) else Some u) = Some t"
    using assms by (simp add: tso_round_def fill)
  then have "tp_hdr_len (tx t) = tp_hdr_len (tx u) \<and> tp_mss (tx t) = tp_mss (tx u) \<and>
      tp_size (tx t) = (if full then ucast (tp_hdr_len (tx u)) else tp_size (tx u)) \<and>
      phy_reg t = phy_reg u"
    using xmit_seg_keeps by (fastforce simp: tx_params_def dev_stable_def split: if_splits)
  then show "tp_size (tx t) = (if ucast (tp_size (tx s)) + bytes = msh then ucast (tp_hdr_len (tx s))
           else ucast (ucast (tp_size (tx s)) + bytes :: u32))"
    and "tp_hdr_len (tx t) = tp_hdr_len (tx s)" and "tp_mss (tx t) = tp_mss (tx s)"
    and "phy_reg t = phy_reg s"
    using f by auto
qed

lemma tso_round_returns:
  assumes "\<not> loopback s"
  shows "\<exists>t. tso_round addr bytes msh s = Some t"
proof -
  obtain full u where fill: "tso_fill addr bytes msh s = (full, u)" by force
  have "\<not> loopback u"
    using assms tso_fill_facts(5) [of addr bytes msh s] by (simp add: fill)
  then obtain v where "xmit_seg u = Some v" by (rule xmit_seg_returns)
  then show ?thesis by (simp add: tso_round_def fill)
qed

subsection \<open>Segmentation returns\<close>

definition seg_limit :: "E1000State \<Rightarrow> u32" where
  "seg_limit s = ucast (tp_hdr_len (tx s)) + ucast (tp_mss (tx s))"

lemma unat_seg_limit: "unat (seg_limit s) = unat (tp_hdr_len (tx s)) + unat (tp_mss (tx s))"
proof -
  have "unat (tp_hdr_len (tx s)) < 256" using unsigned_less [of "tp_hdr_len (tx s)"] by simp
  then show ?thesis using u16_bound [of "tp_mss (tx s)"] by (simp add: seg_limit_def unat_word_ariths)
qed

lemma tso_loop_returns:
  assumes "\<not> loopback s" and "0 < tp_mss (tx s)" and "unat (tp_size (tx s)) \<le> unat (seg_limit s)"
    and "unat split_size < 65536"
  shows "\<exists>s'. tso_loop addr split_size (seg_limit s) s = Some s'"
  using assms
proof (induction "2 * unat split_size + (if unat (tp_size (tx s)) = unat (seg_limit s) then 1 else 0)"
    arbitrary: addr split_size s rule: less_induct)
  case less
  define sz where "sz = tp_size (tx s)"
  define bytes where "bytes = tso_bytes sz split_size (seg_limit s)"
  obtain t where t: "tso_round addr bytes (seg_limit s) s = Some t"
    using tso_round_returns [OF less.prems(1)] by blast
  note f = tso_round_facts [OF t]
  have lim: "seg_limit t = seg_limit s" using f by (simp add: seg_limit_def)
  have b: "unat bytes = min (65536 - unat sz) (min (unat split_size) (unat (seg_limit s) - unat sz))"
    using unat_tso_bytes less.prems(3,4) by (simp add: bytes_def sz_def)
  have unfold: "tso_loop addr split_size (seg_limit s) s =
      (if split_size - bytes \<noteq> 0 then tso_loop (addr + ucast bytes) (split_size - bytes) (seg_limit s) t
       else Some t)"
    by (subst tso_loop.simps) (simp add: t bytes_def [symmetric] sz_def [symmetric] Let_def)
  show ?case
  proof (cases "split_size - bytes = 0")
    case False
    have le: "bytes \<le> split_size" using b by (simp add: word_le_nat_alt)
    have s1: "unat (split_size - bytes) = unat split_size - unat bytes"
      using le by (rule unat_sub)
    have rem: "0 < unat split_size - unat bytes"
      using False s1 by (metis gr0I unat_eq_zero)
    have size: "unat (tp_size (tx t)) < unat (seg_limit t)"
      using tso_size_bound [of sz split_size "seg_limit s"] f less.prems(2,3) lim b
      by (auto simp: bytes_def sz_def unat_seg_limit word_less_nat_alt split: if_splits)
    have "unat sz = unat (seg_limit s)" if "unat bytes = 0"
      using that b rem less.prems(3) u16_bound [of sz] by (simp add: sz_def min_def split: if_splits)
    then have "2 * unat (split_size - bytes) + (if unat (tp_size (tx t)) = unat (seg_limit t) then 1 else 0)
        < 2 * unat split_size + (if unat (tp_size (tx s)) = unat (seg_limit s) then 1 else 0)"
      using size rem s1 by (cases "unat bytes = 0") (auto simp: sz_def)
    then have "\<exists>s'. tso_loop (addr + ucast bytes) (split_size - bytes) (seg_limit t) t = Some s'"
      using less.prems f size s1 by (intro less.hyps) simp_all
    then show ?thesis by (simp add: unfold False lim)
  qed (simp only: unfold, simp)
qed

subsection \<open>Segmentation that never ends\<close>

text \<open>
  With a maximum segment size of zero and only the header in the buffer, a round reads nothing,
  transmits the header again and leaves the same work to do.
\<close>

lemma tso_loop_diverges:
  assumes "msh = ucast (tp_hdr_len (tx s))" and "tp_size (tx s) = ucast (tp_hdr_len (tx s))"
    and "split_size \<noteq> 0" and "unat split_size < 65536"
  shows "tso_loop addr split_size msh s = None"
proof (rule ccontr)
  assume "tso_loop addr split_size msh s \<noteq> None"
  then obtain r where r: "tso_loop addr split_size msh s = Some r" by blast
  have "\<not> (msh = ucast (tp_hdr_len (tx s)) \<and> tp_size (tx s) = ucast (tp_hdr_len (tx s)) \<and>
      split_size \<noteq> 0 \<and> unat split_size < 65536)"
  proof (rule tso_loop.raw_induct [where P = "\<lambda>_ n m s _. \<not> (m = ucast (tp_hdr_len (tx s)) \<and>
      tp_size (tx s) = ucast (tp_hdr_len (tx s)) \<and> n \<noteq> 0 \<and> unat n < 65536)", OF _ r], goal_cases)
    case (1 loop addr n m s r)
    show ?case
    proof
      assume *: "m = ucast (tp_hdr_len (tx s)) \<and> tp_size (tx s) = ucast (tp_hdr_len (tx s)) \<and>
        n \<noteq> 0 \<and> unat n < 65536"
      then have "unat (tso_bytes (tp_size (tx s)) n m) = 0"
        by (subst unat_tso_bytes) simp_all
      then have 0: "tso_bytes (tp_size (tx s)) n m = 0" by (simp add: unat_eq_zero)
      have "n \<noteq> 0" using * by simp
      then obtain t where t: "tso_round addr 0 m s = Some t" and "loop addr n m t = Some r"
        using 1(2) by (auto simp: 0 Let_def split: bind_splits)
      then have "\<not> (m = ucast (tp_hdr_len (tx t)) \<and> tp_size (tx t) = ucast (tp_hdr_len (tx t)))"
        using 1(1) * by blast
      moreover have "ucast (ucast h :: u16) = (ucast h :: u32)" for h :: u8
        by (simp add: word_unat_eq_iff)
      ultimately show False using tso_round_facts [OF t] * by simp
    qed
  qed
  with assms show False by blast
qed

text \<open>
  A segmentation request with a zero segment size therefore hangs the device as soon as one
  descriptor holds more than the header.
\<close>

lemma tso_zero_mss_diverges:
  assumes "tp_mss (tx s) = 0" and "unat (tp_size (tx s)) \<le> unat (tp_hdr_len (tx s))"
    and "unat (tp_hdr_len (tx s)) < unat (tp_size (tx s)) + unat split_size" and "unat split_size < 65536"
  shows "tso_loop addr split_size (seg_limit s) s = None"
proof -
  define sz where "sz = tp_size (tx s)"
  define b where "b = tso_bytes sz split_size (seg_limit s)"
  have lim: "unat (seg_limit s) = unat (tp_hdr_len (tx s))" by (simp add: unat_seg_limit assms(1))
  have b: "unat b = unat (tp_hdr_len (tx s)) - unat sz"
    using assms lim u8_bound [of "tp_hdr_len (tx s)"]
    by (simp add: b_def sz_def unat_tso_bytes min_def)
  have full: "ucast sz + b = seg_limit s"
    using b lim assms(2) unat_tso_sum [of sz split_size "seg_limit s"]
    by (simp add: word_unat_eq_iff b_def sz_def)
  have "b < split_size" using b assms(2,3) by (simp add: word_less_nat_alt sz_def)
  then have rem: "split_size - b \<noteq> 0" "unat (split_size - b) < 65536"
    using assms(4) by (auto simp: unat_sub)
  have "tso_loop (addr + ucast b) (split_size - b) (seg_limit s) t = None"
    if "tso_round addr b (seg_limit s) s = Some t" for t
    using tso_round_facts [OF that] full rem assms(1)
    by (intro tso_loop_diverges) (simp_all add: seg_limit_def sz_def)
  then show ?thesis using rem(1)
    by (subst tso_loop.simps)
      (auto simp: Let_def b_def [symmetric] sz_def [symmetric] split: bind_splits)
qed

subsection \<open>The ring loop\<close>

lemma ring_dist_1_iff:
  assumes "ring_ok h len" and "ring_ok x len"
  shows "ring_next h len = x \<longleftrightarrow> ring_dist len x h = 1"
proof -
  have "unat h < ring_entries len" "unat x < ring_entries len"
    using assms by (simp_all add: ring_ok_entries)
  then show ?thesis
    unfolding word_unat_eq_iff [of "ring_next h len"] unat_ring_next [OF assms(1)] ring_dist_def
    by (simp split: if_split) arith
qed

lemma ring_dist_step:
  assumes "ring_ok h len" and "ring_ok x len" and "ring_next h len \<noteq> x"
  shows "ring_dist len x (ring_next h len) = ring_dist len x h - 1"
proof -
  have "unat (ring_next h len) \<noteq> unat x" using assms(3) by (simp add: word_unat_eq_iff)
  then show ?thesis
    using assms(1,2) by (auto simp: unat_ring_next ring_dist_def ring_ok_entries split: if_splits)
qed

text \<open>
  If every descriptor is processed, the loop stops with the head at the tail: it meets the tail
  before it comes round to where it started.
\<close>

lemma xmit_loop_returns:
  assumes step: "\<And>s c. Q s \<Longrightarrow> \<exists>c' s'. xmit_step c s = Some (c', s') \<and> Q s'"
    and "Q s" and "ring_ok (mac_reg s TDH) (mac_reg s TDLEN)"
    and "ring_ok start (mac_reg s TDLEN)" and "ring_ok (mac_reg s TDT) (mac_reg s TDLEN)"
    and "mac_reg s TDH = mac_reg s TDT \<or>
      ring_dist (mac_reg s TDLEN) (mac_reg s TDT) (mac_reg s TDH) \<le>
      ring_dist (mac_reg s TDLEN) start (mac_reg s TDH)"
  shows "\<exists>c' s'. xmit_loop start c s = Some (c', s') \<and> Q s' \<and> mac_reg s' TDH = mac_reg s TDT"
  using assms(2-)
proof (induction "ring_dist (mac_reg s TDLEN) start (mac_reg s TDH)" arbitrary: s c rule: less_induct)
  case less
  show ?case
  proof (cases "mac_reg s TDH = mac_reg s TDT")
    case True
    then show ?thesis using less.prems(1) by (simp add: xmit_loop.simps)
  next
    case False
    obtain c1 t where t: "xmit_step c s = Some (c1, t)" "Q t" using step less.prems(1) by blast
    note k = xmit_step_keeps [OF t(1)]
    have regs: "mac_reg t TDLEN = mac_reg s TDLEN" "mac_reg t TDT = mac_reg s TDT"
      using dev_stable_reg [OF k(1)] xmit_regs_ring by simp_all
    have unfold: "xmit_loop start c s =
        (if mac_reg t TDH = start then Some (c1, t) else xmit_loop start c1 t)"
      using False by (subst xmit_loop.simps) (simp add: t)
    let ?len = "mac_reg s TDLEN"
    have ok: "ring_ok (mac_reg t TDH) ?len" using less.prems(2) by (simp add: k(2) ring_ok_next)
    show ?thesis
    proof (cases "mac_reg t TDH = start")
      case True
      then have "ring_dist ?len start (mac_reg s TDH) = 1"
        using ring_dist_1_iff [OF less.prems(2,3)] k(2) by simp
      moreover have "0 < ring_dist ?len (mac_reg s TDT) (mac_reg s TDH)"
        using less.prems(2,4) by (auto simp: ring_dist_def ring_ok_entries)
      ultimately have "mac_reg t TDH = mac_reg s TDT"
        using ring_dist_1_iff [OF less.prems(2,4)] less.prems(5) False k(2) by simp
      then show ?thesis unfolding unfold using True t(2) by simp
    next
      case next_start: False
      have lt: "ring_dist ?len start (mac_reg t TDH) < ring_dist ?len start (mac_reg s TDH)"
        using ring_dist_next [OF less.prems(2,3)] next_start k(2) by simp
      have "mac_reg t TDH = mac_reg s TDT \<or>
          ring_dist ?len (mac_reg s TDT) (mac_reg t TDH) \<le> ring_dist ?len start (mac_reg t TDH)"
        using ring_dist_step [OF less.prems(2,3)] ring_dist_step [OF less.prems(2,4)]
          next_start k(2) less.prems(5) False
        by (cases "mac_reg t TDH = mac_reg s TDT") auto
      then have "\<exists>c' s'. xmit_loop start c1 t = Some (c', s') \<and> Q s' \<and> mac_reg s' TDH = mac_reg t TDT"
        using lt ok less.prems t(2) regs by (intro less.hyps) simp_all
      then show ?thesis unfolding unfold using next_start by (simp add: regs)
    qed
  qed
qed

subsection \<open>A ring without segmentation requests\<close>

text \<open>Descriptors that do not enter the segmentation loop.\<close>

definition no_tso :: "u8 list \<Rightarrow> bool" where
  "no_tso d \<longleftrightarrow> is_context d \<or> \<not> tst (tx_desc_lower d) E1000_TXD_CMD_TSE"

definition tx_slot :: "E1000State \<Rightarrow> u32 \<Rightarrow> u64" where
  "tx_slot s h = tx_desc_base s + 16 * ucast h"

definition ring_no_tso :: "E1000State \<Rightarrow> bool" where
  "ring_no_tso s \<longleftrightarrow>
     \<not> loopback s \<and> ring_ok (mac_reg s TDH) (mac_reg s TDLEN) \<and>
     (\<forall>h. ring_ok h (mac_reg s TDLEN) \<longrightarrow> no_tso (pci_dma_read s (tx_slot s h) 16))"

lemma tx_setup_facts [simp]:
  "phy_reg (tx_setup s d) = phy_reg s" "ram (tx_setup s d) = ram s"
  "phy_reg (tx_vlan_setup s d) = phy_reg s" "ram (tx_vlan_setup s d) = ram s"
  "tp_cptse (tx (tx_vlan_setup s d)) = tp_cptse (tx s)"
  by (simp_all add: tx_setup_def tx_vlan_setup_def Let_def)

lemma tx_eop_returns:
  assumes "\<not> loopback u"
  shows "\<exists>w. tx_eop u = Some w \<and> ram w = ram u"
proof -
  obtain v where "xmit_seg u = Some v" "ram v = ram u" using xmit_seg_returns [OF assms] .
  then show ?thesis
    by (cases "tp_tse (tx u) \<and> tp_cptse (tx u) \<and> tp_size (tx u) < ucast (tp_hdr_len (tx u))")
      (simp_all add: tx_eop_def)
qed

lemma process_tx_desc_no_tso:
  assumes "no_tso d" and "\<not> loopback s"
  obtains s' where "process_tx_desc s d = Some s'" and "ram s' = ram s"
proof (cases "is_context d")
  case True
  then show ?thesis using that by (simp add: process_tx_desc_eq)
next
  case False
  let ?t = "tx_vlan_setup (tx_setup s d) d"
  have "\<not> tp_cptse (tx ?t)"
    using assms(1) False by (simp add: no_tso_def) (simp add: tx_setup_def Let_def)
  then obtain u where u: "tx_data ?t d = Some u" "ram u = ram s" "phy_reg u = phy_reg s"
    by (auto simp: tx_data_def Let_def)
  obtain w where w: "tx_eop u = Some w" "ram w = ram s"
    using tx_eop_returns [of u] assms(2) u by auto
  show ?thesis
    using that False u w
    by (cases "tst (tx_desc_lower d) E1000_TXD_CMD_EOP") (simp_all add: process_tx_desc_eq)
qed

text \<open>The write-back of one descriptor leaves the command word of every descriptor alone.\<close>

lemma slot_apart:
  assumes "i < 12" and "12 \<le> j" and "j < 16"
  shows "16 * ucast (h :: u32) + of_nat i \<noteq> 16 * ucast (k :: u32) + (of_nat j :: u64)"
proof
  have eq: "unat (16 * ucast (h :: u32) + of_nat i :: u64) = 16 * unat h + i" if "i < 16" for h i
  proof -
    have "unat h < 2 ^ 32" using unsigned_less [of h] by simp
    moreover from this have "unat (ucast h :: u64) = unat h"
      by (simp add: unsigned_ucast_eq take_bit_nat_eq_self)
    ultimately show ?thesis using that by (simp add: unat_word_ariths unat_of_nat)
  qed
  assume "16 * ucast (h :: u32) + of_nat i = 16 * ucast (k :: u32) + (of_nat j :: u64)"
  then have "16 * unat h + i = 16 * unat k + j"
    using assms eq [of i h] eq [of j k] by simp
  then show False using assms by presburger
qed

lemma tx_desc_lower_ram: "tx_desc_lower (ram_read m a 16) = le_word (ram_read m (a + 8) 4)"
proof -
  have "take 4 (drop 8 (ram_read m a 16)) = ram_read m (a + 8) 4"
    by (rule nth_equalityI) (simp_all add: ram_read_def add.assoc)
  then show ?thesis by (simp add: tx_desc_lower_def)
qed

lemma lower_after_writeback:
  assumes "length bs = 4"
  shows "tx_desc_lower (ram_read (ram_write m (b + 16 * ucast (k :: u32) + 12) bs) (b + 16 * ucast (h :: u32)) 16) =
         tx_desc_lower (ram_read m (b + 16 * ucast h) 16)"
proof -
  have "b + 16 * ucast h + 8 + of_nat i \<noteq> b + 16 * ucast k + 12 + of_nat j" if "i < 4" "j < 4" for i j
    using slot_apart [of "8 + i" "12 + j" h k] that by (simp add: algebra_simps)
  then show ?thesis
    unfolding tx_desc_lower_ram using assms by (subst guest_ram.rd_wr_disjoint) simp_all
qed

lemma txdesc_writeback_ram:
  "ram (snd (txdesc_writeback t b d)) = ram t \<or>
   (\<exists>bs. length bs = 4 \<and> ram (snd (txdesc_writeback t b d)) = ram_write (ram t) (b + 12) bs)"
proof (cases "tst (tx_desc_lower d) (E1000_TXD_CMD_RS OR E1000_TXD_CMD_RPS)")
  case True
  have "length (bytes_le 4 w) = 4" for w :: u32 by simp
  with True show ?thesis
    unfolding txdesc_writeback_def Let_def pci_dma_write_def by fastforce
qed (simp add: txdesc_writeback_def)

lemma no_tso_lower: "tx_desc_lower d = tx_desc_lower d' \<Longrightarrow> no_tso d = no_tso d'"
  by (simp add: no_tso_def is_context_def)

lemma xmit_step_no_tso:
  assumes "ring_no_tso s"
  shows "\<exists>c' s'. xmit_step c s = Some (c', s') \<and> ring_no_tso s'"
proof -
  let ?b = "tx_slot s (mac_reg s TDH)" and ?d = "pci_dma_read s (tx_slot s (mac_reg s TDH)) 16"
  have "no_tso ?d" "\<not> loopback s" using assms by (simp_all add: ring_no_tso_def)
  then obtain t where t: "process_tx_desc s ?d = Some t" "ram t = ram s"
    by (rule process_tx_desc_no_tso)
  obtain c' u where wb: "txdesc_writeback t ?b ?d = (c', u)" by force
  define s' where "s' = mac_set TDH (ring_next (mac_reg u TDH) (mac_reg u TDLEN)) u"
  have step: "xmit_step c s = Some (c OR c', s')"
    using t(1) wb by (simp add: xmit_step_def tx_slot_def Let_def s'_def)
  note k = xmit_step_keeps [OF step]
  have regs: "mac_reg s' TDLEN = mac_reg s TDLEN" "tx_slot s' h = tx_slot s h" "phy_reg s' = phy_reg s" for h
    using dev_stable_reg [OF k(1)] xmit_regs_ring k(1)
    by (simp_all add: tx_slot_def tx_desc_base_def dev_stable_def)
  have ram: "ram s' = ram s \<or> (\<exists>bs. length bs = 4 \<and> ram s' = ram_write (ram s) (?b + 12) bs)"
    using txdesc_writeback_ram [of t ?b ?d] wb t(2) by (simp add: s'_def)
  have "no_tso (pci_dma_read s' (tx_slot s h) 16) = no_tso (pci_dma_read s (tx_slot s h) 16)" for h
    using ram
  proof
    assume "\<exists>bs. length bs = 4 \<and> ram s' = ram_write (ram s) (?b + 12) bs"
    then show ?thesis
      by (intro no_tso_lower) (auto simp: pci_dma_read_def tx_slot_def lower_after_writeback)
  qed (simp add: pci_dma_read_def)
  then have "ring_no_tso s'"
    using assms k(2) by (simp add: ring_no_tso_def regs ring_ok_next)
  with step show ?thesis by blast
qed

text \<open>So a valid ring without segmentation requests is worked off completely.\<close>

lemma start_xmit_drains:
  assumes "ring_no_tso s" and "ring_ok (mac_reg s TDT) (mac_reg s TDLEN)"
    and "tst (mac_reg s TCTL) E1000_TCTL_EN"
  shows "\<exists>s'. start_xmit s = Some s' \<and> mac_reg s' TDH = mac_reg s TDT"
proof -
  have h: "ring_ok (mac_reg s TDH) (mac_reg s TDLEN)" using assms(1) by (simp add: ring_no_tso_def)
  have "ring_dist (mac_reg s TDLEN) (mac_reg s TDT) (mac_reg s TDH) \<le>
      ring_dist (mac_reg s TDLEN) (mac_reg s TDH) (mac_reg s TDH)"
    using h assms(2) by (auto simp: ring_dist_def ring_ok_entries)
  then obtain c' s' where "xmit_loop (mac_reg s TDH) E1000_ICR_TXQE s = Some (c', s')"
    and "mac_reg s' TDH = mac_reg s TDT"
    using xmit_loop_returns [OF xmit_step_no_tso assms(1) h h assms(2), of "E1000_ICR_TXQE"] by blast
  then show ?thesis using assms(3) by (simp add: start_xmit_def set_ics_mac_reg)
qed

end
