(* ===== verification/E1000_Tx_Frames.thy ===== *)
theory E1000_Tx_Frames
  imports E1000_Tx_Loops
begin

text \<open>
  The bytes a transmission puts on the wire: \<^verbatim>\<open>putsum\<close> makes the covered region verify, tagging inserts
  the four bytes of the VLAN header behind the addresses, and the receive path takes them out again.
\<close>

subsection \<open>Checksum insertion\<close>

lemma csum_replace:
  assumes "even (i + k)" and "Suc k < length bs"
  shows "csum (bs[k := hi, Suc k := lo]) i + (256 * unat (bs ! k) + unat (bs ! Suc k)) =
    csum bs i + (256 * unat hi + unat lo)"
proof -
  define xs zs where "xs = take k bs" and "zs = drop (Suc (Suc k)) bs"
  have bs: "bs = xs @ [bs ! k, bs ! Suc k] @ zs" and k: "length xs = k"
    using assms(2) by (simp_all add: xs_def zs_def Cons_nth_drop_Suc)
  have "bs[k := hi, Suc k := lo] = xs @ [hi, lo] @ zs"
    by (subst bs) (simp add: list_update_append flip: k)
  moreover have "csum bs i = csum (xs @ [bs ! k, bs ! Suc k] @ zs) i" using bs by simp
  ultimately show ?thesis
    using assms(1) by (simp add: csum_append k)
qed

lemma unat_be16: "unat (be16_to_cpup b p) = 256 * unat (b p) + unat (b (p + 1))"
proof -
  have "push_bit 8 (ucast (b p)) OR ucast (b (p + 1)) = push_bit 8 (ucast (b p)) + (ucast (b (p + 1)) :: u16)"
    by (rule sym, rule disjunctive_add) (auto simp: bit_simps dest: bit_imp_le_length)
  then have "be16_to_cpup b p = 256 * ucast (b p) + ucast (b (p + 1))"
    by (simp add: be16_to_cpup_def push_bit_eq_mult)
  moreover have "256 * unat (b p) + unat (b (p + 1)) < 65536"
    using u8_bound [of "b p"] u8_bound [of "b (p + 1)"] by simp
  ultimately show ?thesis by (simp add: unat_word_ariths)
qed

lemma buf_read_stw:
  assumes "css \<le> p" and "p + 1 < css + n"
  shows "buf_read (stw_be_p b p v) css n =
    (buf_read b css n)[p - css := ucast (drop_bit 8 v), Suc (p - css) := ucast v]"
proof (rule nth_equalityI)
  fix i assume "i < length (buf_read (stw_be_p b p v) css n)"
  then show "buf_read (stw_be_p b p v) css n ! i =
      (buf_read b css n)[p - css := ucast (drop_bit 8 v), Suc (p - css) := ucast v] ! i"
    using assms by (auto simp: stw_be_p_def nth_list_update)
qed simp

lemma csum_stw:
  assumes "css \<le> p" and "even (p - css)" and "p + 1 < css + n"
  shows "csum (buf_read (stw_be_p b p v) css n) 0 + unat (be16_to_cpup b p) =
    csum (buf_read b css n) 0 + unat v"
proof -
  have "unat v = unat (be16_to_cpup (stw_be_p b p v) p)" by simp
  also have "\<dots> = 256 * unat (ucast (drop_bit 8 v) :: u8) + unat (ucast v :: u8)"
    unfolding unat_be16 by (simp add: stw_be_p_def)
  finally show ?thesis
    using csum_replace [of 0 "p - css" "buf_read b css n" "ucast (drop_bit 8 v)" "ucast v"] assms
    by (simp add: buf_read_stw unat_be16)
qed

text \<open>
  What the field held before (the driver leaves the sum of the pseudo header there) and the bytes of
  the region afterwards add up to zero in one's complement arithmetic.
\<close>

lemma stored_checksum_verifies:
  fixes b :: buf
  assumes "css \<le> p" and "even (p - css)" and "p + 1 < css + len" and "len \<le> 65536"
  defines "v \<equiv> net_checksum_finish (of_nat (csum (buf_read b css len) 0))"
  shows "net_checksum_finish
    (of_nat (csum (buf_read (stw_be_p b p v) css len) 0 + unat (be16_to_cpup b p))) = 0"
proof -
  define S where "S = csum (buf_read b css len) 0"
  have S: "S \<le> 65280 * 65536"
    using csum_bound [of "buf_read b css len" 0] assms(4) by (simp add: S_def)
  have "unat v = 65535 - ones_sum S"
    using S by (simp add: v_def S_def [symmetric] unat_net_checksum_finish unat_of_nat)
  then have sum: "csum (buf_read (stw_be_p b p v) css len) 0 + unat (be16_to_cpup b p) =
      S + (65535 - ones_sum S)"
    using csum_stw [OF assms(1-3), of b v] by (simp add: S_def)
  have "S + (65535 - ones_sum S) \<noteq> 0" by (auto simp: ones_sum_def)
  moreover have "unat (of_nat (S + (65535 - ones_sum S)) :: u32) = S + (65535 - ones_sum S)"
    using S by (simp add: unat_of_nat del: of_nat_add)
  ultimately show ?thesis
    unfolding sum net_checksum_finish_0_iff using ones_sum_complement [of S] by (metis unat_0)
qed

text \<open>The end of the summed region: \<^verbatim>\<open>cse\<close> inclusive when it is set and inside the packet.\<close>

definition putsum_end :: "u32 \<Rightarrow> u32 \<Rightarrow> u32" where
  "putsum_end n cse = (if cse \<noteq> 0 \<and> cse < n then cse + 1 else n)"

lemma putsum_end_le: "unat (putsum_end n cse) \<le> unat n"
proof (cases "cse \<noteq> 0 \<and> cse < n")
  case True
  then have "unat cse + 1 < 2 ^ 32" using u32_bound [of n] by (simp add: word_less_nat_alt)
  then show ?thesis using True by (simp add: putsum_end_def unat_word_ariths word_less_nat_alt)
qed (auto simp: putsum_end_def)

lemma net_checksum_add_at:
  "net_checksum_add (int len) (\<lambda>i. b (css + i)) = of_nat (csum (buf_read b css len) 0)"
  by (simp add: net_checksum_add_def net_checksum_add_cont_eq buf_read_def)

text \<open>When the field lies inside the region, the checksum of the region is stored there.\<close>

lemma putsum_taken:
  assumes "unat n \<le> 65536" and "css \<le> sloc" and "unat sloc + 1 < unat (putsum_end n cse)"
  defines "len \<equiv> unat (putsum_end n cse) - unat css"
  shows "putsum data n sloc css cse =
    stw_be_p data (unat sloc) (net_checksum_finish (of_nat (csum (buf_read data (unat css) len) 0)))"
proof -
  define e where "e = putsum_end n cse"
  have e: "unat e \<le> 65536" using assms(1) putsum_end_le [of n cse] by (simp add: e_def)
  have sloc: "unat css \<le> unat sloc" "unat sloc + 1 < unat e"
    using assms(2,3) by (simp_all add: word_le_nat_alt e_def)
  have "unat (e - css) = len" using sloc by (simp add: word_le_nat_alt unat_sub len_def e_def)
  then have "uint (e - css) = int len" by (simp add: uint_nat)
  moreover have "int len < 2 ^ 31" using e by (simp add: len_def e_def)
  ultimately have "sint (e - css) = int len"
    by (simp add: sint_uint signed_take_bit_int_eq_self)
  moreover have "sloc < e - 1" using sloc by (simp add: word_less_nat_alt unat_sub word_le_nat_alt)
  ultimately show ?thesis
    by (simp add: putsum_def Let_def putsum_end_def [symmetric] e_def [symmetric] net_checksum_add_at)
qed

lemma putsum_verifies:
  assumes "unat n \<le> 65536" and "css \<le> sloc" and "unat sloc + 1 < unat (putsum_end n cse)"
    and "even (unat sloc - unat css)"
  defines "len \<equiv> unat (putsum_end n cse) - unat css"
  shows "net_checksum_finish
    (net_checksum_add (int len) (\<lambda>i. putsum data n sloc css cse (unat css + i)) +
     ucast (be16_to_cpup data (unat sloc))) = 0"
proof -
  have "of_nat (unat w) = (ucast w :: u32)" for w :: u16 by (simp add: word_unat_eq_iff unat_of_nat u16_bound)
  moreover have "unat css \<le> unat sloc" "len \<le> 65536" "unat sloc + 1 < unat css + len"
    using assms(1-3) putsum_end_le [of n cse] by (simp_all add: word_le_nat_alt len_def)
  ultimately show ?thesis
    using stored_checksum_verifies [of "unat css" "unat sloc" len data] assms(4)
    by (simp add: net_checksum_add_at putsum_taken [OF assms(1-3), folded len_def])
qed

text \<open>Outside the field nothing changes.\<close>

lemma putsum_other: "i \<noteq> unat sloc \<Longrightarrow> i \<noteq> unat sloc + 1 \<Longrightarrow> putsum data n sloc css cse i = data i"
  by (simp add: putsum_def Let_def stw_be_p_def)

subsection \<open>VLAN tagging\<close>

lemma buf_read_split: "k \<le> n \<Longrightarrow> buf_read b 0 n = buf_read b 0 k @ buf_read b k (n - k)"
  using buf_read_append [of b 0 k "n - k"] by simp

text \<open>The tagged frame: destination and source address, the tag, the rest of the frame.\<close>

lemma seg_tag_frame:
  assumes "tp_vlan_needed tp" and "12 \<le> unat (tp_size tp)"
  shows "seg_frame (seg_tag tp) =
    buf_read (tp_data tp) 0 12 @ buf_read (tp_vlan_header tp) 0 4 @
    buf_read (tp_data tp) 12 (unat (tp_size tp) - 12)"
proof -
  define d where "d = buf_write (buf_write (tp_data tp) 0 (buf_read (tp_data tp) 4 8)) 8
    (buf_read (tp_vlan_header tp) 0 4)"
  have "buf_read d 0 (unat (tp_size tp)) = buf_read d 0 8 @ buf_read d 8 4 @ buf_read d 12 (unat (tp_size tp) - 12)"
    using buf_read_split [of 12 "unat (tp_size tp)" d] buf_read_append [of d 0 8 4] assms(2) by simp
  moreover have "buf_read d 0 8 = buf_read (tp_data tp) 4 8" "buf_read d 8 4 = buf_read (tp_vlan_header tp) 0 4"
    "buf_read d 12 k = buf_read (tp_data tp) 12 k" for k
    by (simp_all add: d_def buf_simps)
  moreover have "buf_read (tp_data tp) 0 12 = buf_read (tp_data tp) 0 4 @ buf_read (tp_data tp) 4 8"
    using buf_read_append [of "tp_data tp" 0 4 8] by simp
  ultimately show ?thesis
    using assms(1) by (simp add: seg_frame_def seg_tag_def Let_def d_def [symmetric] buf_simps)
qed

end
