(* ===== verification/E1000_Mmio.thy ===== *)
theory E1000_Mmio
  imports E1000_Tx_Frames
begin

text \<open>
  The register interface of the e1000 (\<^verbatim>\<open>src/harness/e1000/e1000.c\<close>): the read and write handlers, the
  two dispatch tables, \<^verbatim>\<open>e1000_mmio_read\<close>, \<^verbatim>\<open>e1000_mmio_write\<close>, the I/O port stubs, reset and device
  initialisation; and the delivery of packets from the net queue (\<^verbatim>\<open>net/net.c\<close>) that a register write
  can set off.

  A write handler may run the transmit or receive loops, so it is partial; a read handler returns
  its value and the state.
\<close>

subsection \<open>Delivery from the queue\<close>

definition qemu_deliver_packet :: "E1000State deliver_fn" where
  "qemu_deliver_packet s sender flags data =
     (if link_down (nc s) then Some (int (length data), s)
      else if receive_disabled (nc s) then Some (0, s)
      else
        case e1000_receive s data of
          None \<Rightarrow> None
        | Some (ret, _, s) \<Rightarrow>
            Some (ret, if ret = 0 then s\<lparr>nc := (nc s)\<lparr>receive_disabled := True\<rparr>\<rparr> else s))"

text \<open>A sent callback belongs to the sender, outside the device; that it ran is recorded.\<close>

definition run_sent_cb :: "E1000State sent_cb_fn" where
  "run_sent_cb cb sender ret s = s\<lparr>sent_cbs := sent_cbs s @ [(cb, sender, ret)]\<rparr>"

text \<open>
  \<^verbatim>\<open>qemu_flush_queued_packets\<close>.  Flushing the hub behind a hub port concerns the other ports; here the
  call is counted.
\<close>

definition qemu_flush_queued_packets :: "E1000State \<Rightarrow> E1000State option" where
  "qemu_flush_queued_packets s =
     (let s = s\<lparr>nc := (nc s)\<lparr>receive_disabled := False\<rparr>\<rparr>;
          s = (if has_peer (nc s) \<and> peer_is_hubport (nc s) then s\<lparr>hub_flushes := hub_flushes s + 1\<rparr> else s)
      in case qemu_net_queue_flush qemu_deliver_packet run_sent_cb (incoming_queue (nc s)) s of
           None \<Rightarrow> None
         | Some (emptied, queue, s) \<Rightarrow>
             let s = s\<lparr>nc := (nc s)\<lparr>incoming_queue := queue\<rparr>\<rparr>
             in Some (if emptied then s\<lparr>notify_count := notify_count s + 1\<rparr> else s))"

subsection \<open>The address in the info string\<close>

definition hex_digit :: "nat \<Rightarrow> char" where
  "hex_digit n = (''0123456789abcdef'' ! (n mod 16))"

definition hex_byte :: "u8 \<Rightarrow> string" where
  "hex_byte b = [hex_digit (unat b div 16), hex_digit (unat b)]"

definition qemu_format_nic_info_str :: "NetClientState \<Rightarrow> u8 list \<Rightarrow> NetClientState" where
  "qemu_format_nic_info_str c mac =
     c\<lparr>info_str := take 255 (''model='' @ nc_model c @ '',macaddr='' @ hex_byte (mac ! 0) @ '':'' @
        hex_byte (mac ! 1) @ '':'' @ hex_byte (mac ! 2) @ '':'' @ hex_byte (mac ! 3) @ '':'' @
        hex_byte (mac ! 4) @ '':'' @ hex_byte (mac ! 5))\<rparr>"

subsection \<open>Reset\<close>

definition phy_reg_init :: "nat \<Rightarrow> u16" where
  "phy_reg_init =
     (\<lambda>_. 0)(PHY_CTRL := 0x1140, PHY_STATUS := 0x794d, PHY_ID1 := 0x141, PHY_ID2 := PHY_ID2_INIT,
             PHY_1000T_CTRL := 0x0e00, M88E1000_PHY_SPEC_CTRL := 0x360,
             M88E1000_EXT_PHY_SPEC_CTRL := 0x0d60, PHY_AUTONEG_ADV := 0xde1,
             PHY_LP_ABILITY := 0x1e0, PHY_1000T_STATUS := 0x3c00,
             M88E1000_PHY_SPEC_STATUS := 0xac00)"

definition mac_reg_init :: "nat \<Rightarrow> u32" where
  "mac_reg_init =
     (\<lambda>_. 0)(PBA := 0x00100030, LEDCTL := 0x602,
             CTRL := E1000_CTRL_SWDPIN2 OR E1000_CTRL_SWDPIN0 OR E1000_CTRL_SPD_1000 OR E1000_CTRL_SLU,
             STATUS := 0x80000000 OR E1000_STATUS_GIO_MASTER_ENABLE OR E1000_STATUS_ASDV OR
                       E1000_STATUS_MTXCKOK OR E1000_STATUS_SPEED_1000 OR E1000_STATUS_FD OR
                       E1000_STATUS_LU,
             MANC := E1000_MANC_EN_MNG2HOST OR E1000_MANC_RCV_TCO_EN OR E1000_MANC_ARP_EN OR
                     E1000_MANC_0298_EN OR E1000_MANC_RMCP_EN)"

definition tx_zero :: e1000_tx where
  "tx_zero =
     \<lparr>tp_header = (\<lambda>_. 0), tp_vlan_header = (\<lambda>_. 0), tp_vlan = (\<lambda>_. 0), tp_data = (\<lambda>_. 0),
      tp_size = 0, tp_sum_needed = 0, tp_vlan_needed = False, tp_ipcss = 0, tp_ipcso = 0,
      tp_ipcse = 0, tp_tucss = 0, tp_tucso = 0, tp_tucse = 0, tp_hdr_len = 0, tp_mss = 0,
      tp_paylen = 0, tp_tso_frames = 0, tp_tse = False, tp_ip = False, tp_tcp = False,
      tp_cptse = False\<rparr>"

text \<open>The loop that builds RAL and RAH from the address.\<close>

definition reset_ra_step :: "u8 list \<Rightarrow> nat \<Rightarrow> E1000State \<Rightarrow> E1000State" where
  "reset_ra_step mac i d =
     (let d = mac_set RA (mac_reg d RA OR push_bit (8 * i) (ucast (mac ! i))) d
      in mac_set (RA + 1)
           (mac_reg d (RA + 1) OR (if i < 2 then push_bit (8 * i) (ucast (mac ! (i + 4))) else 0)) d)"

definition e1000_reset :: "E1000State \<Rightarrow> E1000State" where
  "e1000_reset d =
     (let mac = macaddr d;
          d = d\<lparr>autoneg_timer := None, mit_timer := None, mit_timer_on := False,
                mit_irq_level := False, mit_ide := 0, phy_reg := phy_reg_init,
                mac_reg := mac_reg_init, rxbuf_min_shift := 1, tx := tx_zero\<rparr>;
          d = (if link_down (nc d) then e1000_link_down d else d);
          d = mac_set RA 0 d;
          d = mac_set (RA + 1) E1000_RAH_AV d;
          d = fold (reset_ra_step mac) [0..<4] d
      in d\<lparr>nc := qemu_format_nic_info_str (nc d) mac\<rparr>)"

subsection \<open>Write handlers\<close>

definition set_ctrl :: "E1000State \<Rightarrow> nat \<Rightarrow> u32 \<Rightarrow> E1000State" where
  "set_ctrl s index val = mac_set CTRL (val AND NOT E1000_CTRL_RST) s"

definition set_rx_control :: "E1000State \<Rightarrow> nat \<Rightarrow> u32 \<Rightarrow> E1000State option" where
  "set_rx_control s index val =
     (let s = mac_set RCTL val s;
          s = s\<lparr>rxbuf_size := rxbufsize val\<rparr>;
          s = s\<lparr>rxbuf_min_shift := ((val div E1000_RCTL_RDMTS_QUAT) AND 3) + 1\<rparr>
      in qemu_flush_queued_packets s)"

definition mac_writereg :: "E1000State \<Rightarrow> nat \<Rightarrow> u32 \<Rightarrow> E1000State" where
  "mac_writereg s index val =
     (let s = mac_set index val s
      in if index = RA + 1 then
           s\<lparr>nc := qemu_format_nic_info_str (nc s)
                    (bytes_le 4 (mac_reg s RA) @ bytes_le 4 (mac_reg s (RA + 1)))\<rparr>
         else s)"

definition set_rdt :: "E1000State \<Rightarrow> nat \<Rightarrow> u32 \<Rightarrow> E1000State option" where
  "set_rdt s index val =
     (let s = mac_set index (val AND 0xffff) s
      in if e1000_has_rxbufs s 1 then qemu_flush_queued_packets s else Some s)"

definition set_16bit :: "E1000State \<Rightarrow> nat \<Rightarrow> u32 \<Rightarrow> E1000State" where
  "set_16bit s index val = mac_set index (val AND 0xffff) s"

definition set_dlen :: "E1000State \<Rightarrow> nat \<Rightarrow> u32 \<Rightarrow> E1000State" where
  "set_dlen s index val = mac_set index (val AND 0xfff80) s"

definition set_tctl :: "E1000State \<Rightarrow> nat \<Rightarrow> u32 \<Rightarrow> E1000State option" where
  "set_tctl s index val =
     (let s = mac_set index val s;
          s = mac_set TDT (mac_reg s TDT AND 0xffff) s
      in start_xmit s)"

subsection \<open>Read handlers\<close>

definition mac_readreg :: "E1000State \<Rightarrow> nat \<Rightarrow> u32 \<times> E1000State" where
  "mac_readreg s index = (mac_reg s index, s)"

definition mac_read_clr4 :: "E1000State \<Rightarrow> nat \<Rightarrow> u32 \<times> E1000State" where
  "mac_read_clr4 s index = (mac_reg s index, mac_set index 0 s)"

definition mac_read_clr8 :: "E1000State \<Rightarrow> nat \<Rightarrow> u32 \<times> E1000State" where
  "mac_read_clr8 s index =
     (let ret = mac_reg s index;
          s = mac_set index 0 s;
          s = mac_set (index - 1) 0 s
      in (ret, s))"

subsection \<open>Dispatch\<close>

definition macreg_readops :: "nat \<Rightarrow> (E1000State \<Rightarrow> nat \<Rightarrow> u32 \<times> E1000State) option" where
  "macreg_readops index =
     (if index \<in> {PBA, RCTL, TDH, TXDCTL, WUFC, TDT, CTRL, LEDCTL, MANC, MDIC, SWSM, STATUS,
                  TORL, TOTL, IMS, TCTL, RDH, RDT, VET, ICS, TDBAL, TDBAH, RDBAH, RDBAL,
                  TDLEN, RDLEN, RDTR, RADV, TADV, ITR} then Some mac_readreg
      else if index = TOTH \<or> index = TORH then Some mac_read_clr8
      else if index = GPRC \<or> index = GPTC \<or> index = TPR \<or> index = TPT then Some mac_read_clr4
      else if index = ICR then Some mac_icr_read
      else if index = EECD then Some get_eecd
      else if index = EERD then Some flash_eerd_read
      else if CRCERRS \<le> index \<and> index \<le> MPC then Some mac_readreg
      else if RA \<le> index \<and> index \<le> RA + 31 then Some mac_readreg
      else if MTA \<le> index \<and> index \<le> MTA + 127 then Some mac_readreg
      else if VFTA \<le> index \<and> index \<le> VFTA + 127 then Some mac_readreg
      else None)"

abbreviation (input) NREADOPS :: nat where "NREADOPS \<equiv> SWSM + 1"

text \<open>A handler that always returns.\<close>

definition total_op :: "(E1000State \<Rightarrow> nat \<Rightarrow> u32 \<Rightarrow> E1000State) \<Rightarrow> E1000State \<Rightarrow> nat \<Rightarrow> u32 \<Rightarrow> E1000State option" where
  "total_op f s index val = Some (f s index val)"

definition macreg_writeops :: "nat \<Rightarrow> (E1000State \<Rightarrow> nat \<Rightarrow> u32 \<Rightarrow> E1000State option) option" where
  "macreg_writeops index =
     (if index \<in> {PBA, EERD, SWSM, WUFC, TDBAL, TDBAH, TXDCTL, RDBAH, RDBAL, LEDCTL, VET}
        then Some (total_op mac_writereg)
      else if index = TDLEN \<or> index = RDLEN then Some (total_op set_dlen)
      else if index = TCTL \<or> index = TDT then Some set_tctl
      else if index = MDIC then Some (total_op set_mdic)
      else if index = ICS then Some (total_op set_ics)
      else if index = TDH \<or> index = RDH then Some (total_op set_16bit)
      else if index = RDT then Some set_rdt
      else if index = IMC then Some (total_op set_imc)
      else if index = IMS then Some (total_op set_ims)
      else if index = ICR then Some (total_op set_icr)
      else if index = EECD then Some (total_op set_eecd)
      else if index = RCTL then Some set_rx_control
      else if index = CTRL then Some (total_op set_ctrl)
      else if index = RDTR \<or> index = RADV \<or> index = TADV \<or> index = ITR then Some (total_op set_16bit)
      else if RA \<le> index \<and> index \<le> RA + 31 then Some (total_op mac_writereg)
      else if MTA \<le> index \<and> index \<le> MTA + 127 then Some (total_op mac_writereg)
      else if VFTA \<le> index \<and> index \<le> VFTA + 127 then Some (total_op mac_writereg)
      else None)"

abbreviation (input) NWRITEOPS :: nat where "NWRITEOPS \<equiv> SWSM + 1"

definition mmio_index :: "u64 \<Rightarrow> nat" where
  "mmio_index addr = unat (drop_bit 2 (addr AND 0x1ffff))"

definition e1000_mmio_write :: "E1000State \<Rightarrow> u64 \<Rightarrow> u64 \<Rightarrow> E1000State option" where
  "e1000_mmio_write s addr val =
     (let index = mmio_index addr
      in if index < NWRITEOPS then
           case macreg_writeops index of Some f \<Rightarrow> f s index (ucast val) | None \<Rightarrow> Some s
         else Some s)"

definition e1000_mmio_read :: "E1000State \<Rightarrow> u64 \<Rightarrow> u64 \<times> E1000State" where
  "e1000_mmio_read s addr =
     (let index = mmio_index addr
      in if index < NREADOPS then
           case macreg_readops index of
             Some f \<Rightarrow> (case f s index of (v, s) \<Rightarrow> (ucast v, s))
           | None \<Rightarrow> (0, s)
         else (0, s))"

definition e1000_io_read :: "E1000State \<Rightarrow> u64 \<Rightarrow> u64 \<times> E1000State" where
  "e1000_io_read s addr = (0, s)"

definition e1000_io_write :: "E1000State \<Rightarrow> u64 \<Rightarrow> u64 \<Rightarrow> E1000State" where
  "e1000_io_write s addr val = s"

subsection \<open>Creation and reset on the bus\<close>

text \<open>
  \<^verbatim>\<open>pci_e1000_init\<close> on a zeroed object: the EEPROM, the net client (\<^verbatim>\<open>qemu_new_nic\<close> gives it an empty
  queue) and the two timers, not yet pending.
\<close>

definition pci_e1000_init :: "u8 list \<Rightarrow> u32 \<Rightarrow> bool \<Rightarrow> bool \<Rightarrow> (u64 \<Rightarrow> u8) \<Rightarrow> E1000State" where
  "pci_e1000_init mac flags peer hub m =
     (let c = \<lparr>link_down = False, receive_disabled = False, incoming_queue = qemu_new_net_queue,
               has_peer = peer, peer_is_hubport = hub, nc_model = ''e1000'', info_str = ''''\<rparr>
      in \<lparr>nc = qemu_format_nic_info_str c mac, macaddr = mac, mac_reg = (\<lambda>_. 0), phy_reg = (\<lambda>_. 0),
          eeprom_data = eeprom_init mac, rxbuf_size = 0, rxbuf_min_shift = 0, tx = tx_zero,
          eecd = \<lparr>val_in = 0, bitnum_in = 0, bitnum_out = 0, reading = False, old_eecd = 0\<rparr>,
          autoneg_timer = None, mit_timer = None, mit_timer_on = False, mit_irq_level = False,
          mit_ide = 0, compat_flags = flags, ram = m, clock_ns = 0, pci_irq = False,
          sent_packets = [], notify_count = 0, hub_flushes = 0, sent_cbs = []\<rparr>)"

text \<open>\<^verbatim>\<open>pci_device_reset\<close> (\<^verbatim>\<open>hw/pci/pci.c\<close>) resets the device and then deasserts its interrupt.\<close>

definition pci_device_reset :: "E1000State \<Rightarrow> E1000State" where
  "pci_device_reset s = pci_set_irq (e1000_reset s) False"

text \<open>The address bytes of RAH.\<close>

lemma rah_bytes: "bytes_le 2 (E1000_RAH_AV OR ucast a OR push_bit 8 (ucast b)) = [a, b]"
proof -
  let ?w = "E1000_RAH_AV OR ucast a OR push_bit 8 (ucast b) :: u32"
  have "bit E1000_RAH_AV n \<Longrightarrow> 31 \<le> n" for n
  proof -
    have "E1000_RAH_AV = push_bit 31 1" by (simp add: E1000_RAH_AV_def)
    then show "bit E1000_RAH_AV n \<Longrightarrow> 31 \<le> n" unfolding bit_push_bit_iff by (metis bit_push_bit_iff)
  qed
  then have "ucast ?w = a" "ucast (drop_bit 8 ?w) = b"
    by (rule_tac bit_word_eqI; fastforce simp: bit_or_iff bit_push_bit_iff bit_unsigned_iff
        bit_drop_bit_eq dest: bit_imp_le_length)+
  moreover have "[0..<2] = [0, 1 :: nat]" by (simp add: upt_conv_Cons)
  ultimately show ?thesis by (simp add: bytes_le_def)
qed

end
