(* ===== verification/Host_Memory.thy ===== *)
theory Host_Memory
  imports Prelude
begin

text \<open>
  The memory of the emulator process, as the device snapshot code sees it: bytes at 64-bit addresses,
  some of them mapped.  An access to an unmapped byte is a crash, \<open>None\<close>.  Multi-byte values are
  little-endian, as on the hosts the code is built for.
\<close>

type_synonym hmem = "u64 \<Rightarrow> u8 option"

subsection \<open>Accesses\<close>

definition mapped :: "hmem \<Rightarrow> u64 \<Rightarrow> nat \<Rightarrow> bool" where
  "mapped m a n = list_all (\<lambda>i. m (a + of_nat i) \<noteq> None) [0..<n]"

definition bytes_at :: "hmem \<Rightarrow> u64 \<Rightarrow> nat \<Rightarrow> u8 list" where
  "bytes_at m a n = map (\<lambda>i. the (m (a + of_nat i))) [0..<n]"

definition mem_upd :: "hmem \<Rightarrow> u64 \<Rightarrow> u8 list \<Rightarrow> hmem" where
  "mem_upd m a bs = (\<lambda>x. if unat (x - a) < length bs then Some (bs ! unat (x - a)) else m x)"

definition mem_read :: "hmem \<Rightarrow> u64 \<Rightarrow> nat \<Rightarrow> u8 list option" where
  "mem_read m a n = (if mapped m a n then Some (bytes_at m a n) else None)"

definition mem_write :: "hmem \<Rightarrow> u64 \<Rightarrow> u8 list \<Rightarrow> hmem option" where
  "mem_write m a bs = (if mapped m a (length bs) then Some (mem_upd m a bs) else None)"

definition memcpy :: "hmem \<Rightarrow> u64 \<Rightarrow> u64 \<Rightarrow> nat \<Rightarrow> hmem option" where
  "memcpy m dst src n = Option.bind (mem_read m src n) (mem_write m dst)"

definition load_int32 :: "hmem \<Rightarrow> u64 \<Rightarrow> int option" where
  "load_int32 m a = map_option (\<lambda>bs. sint (le_word bs :: u32)) (mem_read m a 4)"

definition load_uint16 :: "hmem \<Rightarrow> u64 \<Rightarrow> int option" where
  "load_uint16 m a = map_option (\<lambda>bs. uint (le_word bs :: u16)) (mem_read m a 2)"

definition load_uint8 :: "hmem \<Rightarrow> u64 \<Rightarrow> int option" where
  "load_uint8 m a = map_option (\<lambda>bs. uint (le_word bs :: u8)) (mem_read m a 1)"

definition load_ptr :: "hmem \<Rightarrow> u64 \<Rightarrow> u64 option" where
  "load_ptr m a = map_option le_word (mem_read m a 8)"

text \<open>A value of \<open>n\<close> bytes behind a pointer.\<close>

definition load_word :: "hmem \<Rightarrow> u64 \<Rightarrow> nat \<Rightarrow> 'a::len word option" where
  "load_word m a n = map_option le_word (mem_read m a n)"

definition store_word :: "hmem \<Rightarrow> u64 \<Rightarrow> nat \<Rightarrow> 'a::len word \<Rightarrow> hmem option" where
  "store_word m a n w = mem_write m a (bytes_le n w)"

text \<open>The conversion of a \<^verbatim>\<open>size_t\<close> to \<^verbatim>\<open>int\<close>, and back for the size argument of \<^verbatim>\<open>memcpy\<close>.\<close>

definition c_int :: "nat \<Rightarrow> int" where
  "c_int n = sint (of_nat n :: u32)"

definition c_size :: "int \<Rightarrow> nat" where
  "c_size i = unat (word_of_int i :: u64)"

lemma c_int_small: "n < 2 ^ 31 \<Longrightarrow> c_int n = int n"
  by (simp add: c_int_def sint_uint signed_take_bit_eq_if_positive bit_iff_odd unsigned_of_nat
      take_bit_nat_eq_self take_bit_int_eq_self uint_nat)

lemma c_size_int: "n < 2 ^ 64 \<Longrightarrow> c_size (int n) = n"
  by (simp add: c_size_def unsigned_of_nat take_bit_nat_eq_self)

subsection \<open>Blocks\<close>

lemma mapped_iff: "mapped m a n \<longleftrightarrow> (\<forall>i<n. m (a + of_nat i) \<noteq> None)"
  by (auto simp: mapped_def list_all_iff)

lemma mapped_sub:
  assumes "mapped m a n" and "k + l \<le> n"
  shows "mapped m (a + of_nat k) l"
proof -
  have "m (a + of_nat (k + i)) \<noteq> None" if "i < l" for i
  proof -
    have "k + i < n" using assms(2) that by simp
    then show ?thesis using assms(1) unfolding mapped_iff by blast
  qed
  then show ?thesis by (simp add: mapped_iff add.assoc)
qed

lemma length_bytes_at [simp]: "length (bytes_at m a n) = n"
  by (simp add: bytes_at_def)

lemma nth_bytes_at [simp]: "i < n \<Longrightarrow> bytes_at m a n ! i = the (m (a + of_nat i))"
  by (simp add: bytes_at_def)

text \<open>Inside the overwritten block, and outside it.\<close>

lemma mem_upd_in:
  assumes "i < length bs" and "length bs \<le> 2 ^ 64"
  shows "mem_upd m a bs (a + of_nat i) = Some (bs ! i)"
proof -
  have "unat (of_nat i :: u64) = i" using assms by (simp add: unsigned_of_nat take_bit_nat_eq_self)
  then show ?thesis using assms(1) by (simp add: mem_upd_def)
qed

lemma mem_upd_out:
  assumes "\<And>i. i < length bs \<Longrightarrow> x \<noteq> a + of_nat i"
  shows "mem_upd m a bs x = m x"
proof -
  have "\<not> unat (x - a) < length bs" using assms [of "unat (x - a)"] by auto
  then show ?thesis by (simp add: mem_upd_def)
qed

lemma mapped_mem_upd: "mapped m a n \<Longrightarrow> mapped (mem_upd m b bs) a n"
  by (simp add: mapped_iff mem_upd_def)

lemma memcpy_eq:
  "mapped m dst n \<Longrightarrow> mapped m src n \<Longrightarrow> memcpy m dst src n = Some (mem_upd m dst (bytes_at m src n))"
  by (simp add: memcpy_def mem_read_def mem_write_def)

lemma memcpy_None: "\<not> mapped m src n \<Longrightarrow> memcpy m dst src n = None"
  by (simp add: memcpy_def mem_read_def)

text \<open>Two blocks of \<open>n\<close> bytes without a common address.\<close>

definition apart :: "u64 \<Rightarrow> u64 \<Rightarrow> nat \<Rightarrow> bool" where
  "apart a b n \<longleftrightarrow> n \<le> 2 ^ 63 \<and> (\<forall>i<n. \<forall>j<n. a + of_nat i \<noteq> b + of_nat j)"

end
