(* ===== verification/Qemu_File.thy ===== *)
theory Qemu_File
  imports Host_Memory "HOL-Library.Monad_Syntax"
begin

text \<open>
  The buffered byte stream of \<^verbatim>\<open>savevm.c\<close> (\<^verbatim>\<open>QEMUFile\<close>) with its standard-input/output and
  file-descriptor back ends.  A failed assertion or a call through a null pointer is \<open>None\<close>.  The
  vector of a file refers only to the file's own buffer, since \<^verbatim>\<open>qemu_put_buffer_async\<close> (used for
  guest memory pages) is left out; an entry is an index into the buffer and a length.
\<close>

subsection \<open>Files of the host\<close>

text \<open>
  A file has contents, a read position and the outcomes of the next system calls: \<open>Short n\<close> is a
  call that transfers at most \<open>n\<close> bytes, \<open>Err e\<close> one that fails with error number \<open>e\<close>.  Without a
  listed outcome a call transfers all it can.
\<close>

datatype io_event = Short nat | Err int

record iofile =
  fdata :: "u8 list"
  fpos :: nat
  fevents :: "io_event list"

abbreviation (input) EIO :: int where "EIO \<equiv> 5"
abbreviation (input) EINTR :: int where "EINTR \<equiv> 4"
abbreviation (input) EAGAIN :: int where "EAGAIN \<equiv> 11"
abbreviation (input) EINVAL :: int where "EINVAL \<equiv> 22"
abbreviation (input) ENOENT :: int where "ENOENT \<equiv> 2"

definition sys_write :: "iofile \<Rightarrow> u8 list \<Rightarrow> (int + nat) \<times> iofile" where
  "sys_write s bs =
     (case fevents s of
        [] \<Rightarrow> (Inr (length bs), s\<lparr>fdata := fdata s @ bs\<rparr>)
      | Short n # es \<Rightarrow> (Inr (min n (length bs)), s\<lparr>fdata := fdata s @ take n bs, fevents := es\<rparr>)
      | Err e # es \<Rightarrow> (Inl e, s\<lparr>fevents := es\<rparr>))"

definition sys_read :: "iofile \<Rightarrow> nat \<Rightarrow> (int + u8 list) \<times> iofile" where
  "sys_read s sz =
     (case fevents s of
        [] \<Rightarrow> (Inr (take sz (drop (fpos s) (fdata s))), s\<lparr>fpos := min (fpos s + sz) (length (fdata s))\<rparr>)
      | Short n # es \<Rightarrow>
          (Inr (take (min n sz) (drop (fpos s) (fdata s))),
           s\<lparr>fpos := min (fpos s + min n sz) (length (fdata s)), fevents := es\<rparr>)
      | Err e # es \<Rightarrow> (Inl e, s\<lparr>fevents := es\<rparr>))"

subsection \<open>Back ends\<close>

text \<open>
  \<^verbatim>\<open>fwrite\<close> and \<^verbatim>\<open>fread\<close> return a count; a short count with a set error flag is \<open>Inl\<close> here.  Waiting
  until a descriptor is readable has no effect on the state.
\<close>

definition stdio_put_buffer :: "iofile \<Rightarrow> u8 list \<Rightarrow> int \<Rightarrow> int \<times> iofile" where
  "stdio_put_buffer s bs pos =
     (case sys_write s bs of (Inr n, s) \<Rightarrow> (int n, s) | (Inl e, s) \<Rightarrow> (0, s))"

function stdio_get_buffer :: "iofile \<Rightarrow> int \<Rightarrow> nat \<Rightarrow> (int + u8 list) \<times> iofile" where
  "stdio_get_buffer s pos sz =
     (case fevents s of
        Err e # es \<Rightarrow>
          if e = EAGAIN \<or> e = EINTR then stdio_get_buffer (s\<lparr>fevents := es\<rparr>) pos sz
          else (Inr [], s\<lparr>fevents := es\<rparr>)
      | _ \<Rightarrow> sys_read s sz)"
  by pat_completeness auto
termination
  by (relation "measure (\<lambda>(s, _). length (fevents s))") auto

function unix_get_buffer :: "iofile \<Rightarrow> int \<Rightarrow> nat \<Rightarrow> (int + u8 list) \<times> iofile" where
  "unix_get_buffer s pos sz =
     (case fevents s of
        Err e # es \<Rightarrow>
          if e = EAGAIN \<or> e = EINTR then unix_get_buffer (s\<lparr>fevents := es\<rparr>) pos sz
          else (Inl (- e), s\<lparr>fevents := es\<rparr>)
      | _ \<Rightarrow> sys_read s sz)"
  by pat_completeness auto
termination
  by (relation "measure (\<lambda>(s, _). length (fevents s))") auto

declare stdio_get_buffer.simps [simp del] unix_get_buffer.simps [simp del]

text \<open>\<^verbatim>\<open>unix_writev_buffer\<close>: the inner loop over full elements, the retry on interrupts, the outer loop.\<close>

fun skip_full :: "u8 list list \<Rightarrow> nat \<Rightarrow> (u8 list list \<times> nat) option" where
  "skip_full [] offset = None"
| "skip_full (v # iov) offset = (if offset \<ge> length v then skip_full iov (offset - length v) else Some (v # iov, offset))"

function writev_retry :: "iofile \<Rightarrow> u8 list \<Rightarrow> (int + nat) \<times> iofile" where
  "writev_retry s bs =
     (case fevents s of
        Err e # es \<Rightarrow> if e = EINTR then writev_retry (s\<lparr>fevents := es\<rparr>) bs else sys_write s bs
      | _ \<Rightarrow> sys_write s bs)"
  by pat_completeness auto
termination
  by (relation "measure (\<lambda>(s, _). length (fevents s))") auto

declare writev_retry.simps [simp del]

lemma writev_retry_less:
  "writev_retry s bs = (Inr n, s') \<Longrightarrow>
     length (fevents s') < length (fevents s) \<or> length (fevents s') = length (fevents s) \<and> n = length bs"
proof (induction s bs rule: writev_retry.induct)
  case (1 s bs)
  show ?case
  proof (cases "\<exists>es. fevents s = Err EINTR # es")
    case True
    then obtain es where es: "fevents s = Err EINTR # es" by blast
    with 1(2) have "writev_retry (s\<lparr>fevents := es\<rparr>) bs = (Inr n, s')"
      by (subst (asm) writev_retry.simps) simp
    then show ?thesis using 1(1) [OF es refl refl] es by auto
  next
    case False
    then have "sys_write s bs = (Inr n, s')"
      using 1(2) by (subst (asm) writev_retry.simps) (auto split: list.splits io_event.splits if_splits)
    then show ?thesis by (auto simp: sys_write_def split: list.splits io_event.splits)
  qed
qed

lemma skip_full_rest: "skip_full iov offset = Some (iov', offset') \<Longrightarrow> drop offset' (concat iov') \<noteq> []"
  by (induction iov offset rule: skip_full.induct) (auto split: if_splits)

function writev_loop :: "iofile \<Rightarrow> u8 list list \<Rightarrow> nat \<Rightarrow> nat \<Rightarrow> int \<Rightarrow> (int \<times> iofile) option" where
  "writev_loop s iov offset sz sent =
     (if sz = 0 then Some (sent, s)
      else
        case skip_full iov offset of
          None \<Rightarrow> None
        | Some (iov', offset') \<Rightarrow>
            (case writev_retry s (drop offset' (concat iov')) of
               (Inl e, s') \<Rightarrow> Some (- e, s')
             | (Inr len, s') \<Rightarrow> writev_loop s' iov' (offset' + len) (sz - len) (sent + int len)))"
  by pat_completeness auto
termination
proof (relation "measure (\<lambda>(s, _, _, sz, _). length (fevents s) + sz)", simp, goal_cases)
  case (1 s iov offset sz sent x2 iov' offset' q s' len)
  then have "drop offset' (concat iov') \<noteq> []" "writev_retry s (drop offset' (concat iov')) = (Inr len, s')"
    using skip_full_rest by auto
  then show ?case using 1(1) writev_retry_less by fastforce
qed

declare writev_loop.simps [simp del]

definition unix_writev_buffer :: "iofile \<Rightarrow> u8 list list \<Rightarrow> int \<Rightarrow> (int \<times> iofile) option" where
  "unix_writev_buffer s iov pos =
     (if iov = [] then None else writev_loop s iov 0 (length (concat iov)) 0)"

subsection \<open>Buffered files\<close>

record QEMUFileOps =
  put_buffer :: "(iofile \<Rightarrow> u8 list \<Rightarrow> int \<Rightarrow> int \<times> iofile) option"
  get_buffer :: "(iofile \<Rightarrow> int \<Rightarrow> nat \<Rightarrow> (int + u8 list) \<times> iofile) option"
  writev_buffer :: "(iofile \<Rightarrow> u8 list list \<Rightarrow> int \<Rightarrow> (int \<times> iofile) option) option"

abbreviation (input) IO_BUF_SIZE :: nat where "IO_BUF_SIZE \<equiv> 32768"
abbreviation (input) MAX_IOV_SIZE :: nat where "MAX_IOV_SIZE \<equiv> 64"

record QEMUFile =
  qf_ops :: QEMUFileOps
  qf_opaque :: iofile
  bytes_xfer :: int
  xfer_limit :: int
  qf_pos :: int
  buf_index :: nat
  buf_size :: nat
  qf_buf :: "nat \<Rightarrow> u8"
  qf_iov :: "(nat \<times> nat) list"
  last_error :: int

definition stdio_file_read_ops :: QEMUFileOps where
  "stdio_file_read_ops = \<lparr>put_buffer = None, get_buffer = Some stdio_get_buffer, writev_buffer = None\<rparr>"

definition stdio_file_write_ops :: QEMUFileOps where
  "stdio_file_write_ops = \<lparr>put_buffer = Some stdio_put_buffer, get_buffer = None, writev_buffer = None\<rparr>"

definition unix_read_ops :: QEMUFileOps where
  "unix_read_ops = \<lparr>put_buffer = None, get_buffer = Some unix_get_buffer, writev_buffer = None\<rparr>"

definition unix_write_ops :: QEMUFileOps where
  "unix_write_ops = \<lparr>put_buffer = None, get_buffer = None, writev_buffer = Some unix_writev_buffer\<rparr>"

definition qemu_fopen_ops :: "iofile \<Rightarrow> QEMUFileOps \<Rightarrow> QEMUFile" where
  "qemu_fopen_ops opaque ops =
     \<lparr>qf_ops = ops, qf_opaque = opaque, bytes_xfer = 0, xfer_limit = 0, qf_pos = 0, buf_index = 0,
      buf_size = 0, qf_buf = (\<lambda>_. 0), qf_iov = [], last_error = 0\<rparr>"

definition qemu_fdopen :: "iofile \<Rightarrow> string \<Rightarrow> QEMUFile option" where
  "qemu_fdopen fd mode =
     (if mode = ''rb'' then Some (qemu_fopen_ops fd unix_read_ops)
      else if mode = ''wb'' then Some (qemu_fopen_ops fd unix_write_ops) else None)"

definition qemu_file_mode_is_not_valid :: "string \<Rightarrow> bool" where
  "qemu_file_mode_is_not_valid mode \<longleftrightarrow> mode \<noteq> ''rb'' \<and> mode \<noteq> ''wb''"

text \<open>\<^verbatim>\<open>qemu_fopen\<close>; opening the named file is the host's, which gives the file or fails.\<close>

definition qemu_fopen :: "(string \<Rightarrow> string \<Rightarrow> iofile option) \<Rightarrow> string \<Rightarrow> string \<Rightarrow> QEMUFile option" where
  "qemu_fopen fopen filename mode =
     (if qemu_file_mode_is_not_valid mode then None
      else
        case fopen filename mode of
          None \<Rightarrow> None
        | Some file \<Rightarrow>
            Some (qemu_fopen_ops file (if mode ! 0 = CHR ''w'' then stdio_file_write_ops else stdio_file_read_ops)))"

definition qemu_file_get_error :: "QEMUFile \<Rightarrow> int" where
  "qemu_file_get_error f = last_error f"

definition qemu_file_set_error :: "QEMUFile \<Rightarrow> int \<Rightarrow> QEMUFile" where
  "qemu_file_set_error f ret = (if last_error f = 0 then f\<lparr>last_error := ret\<rparr> else f)"

definition qemu_file_is_writable :: "QEMUFile \<Rightarrow> bool" where
  "qemu_file_is_writable f \<longleftrightarrow> writev_buffer (qf_ops f) \<noteq> None \<or> put_buffer (qf_ops f) \<noteq> None"

definition buf_range :: "QEMUFile \<Rightarrow> nat \<Rightarrow> nat \<Rightarrow> u8 list" where
  "buf_range f i n = map (qf_buf f) [i..<i + n]"

definition qemu_fflush :: "QEMUFile \<Rightarrow> QEMUFile option" where
  "qemu_fflush f =
     (if \<not> qemu_file_is_writable f then Some f
      else do {
        (ret, s) \<leftarrow>
          (case (writev_buffer (qf_ops f), put_buffer (qf_ops f)) of
             (Some wv, _) \<Rightarrow>
               if length (qf_iov f) > 0
               then wv (qf_opaque f) (map (\<lambda>(i, n). buf_range f i n) (qf_iov f)) (qf_pos f)
               else Some (0, qf_opaque f)
           | (None, Some put) \<Rightarrow>
               if buf_index f > 0
               then Some (put (qf_opaque f) (buf_range f 0 (buf_index f)) (qf_pos f))
               else Some (0, qf_opaque f)
           | (None, None) \<Rightarrow> None);
        let f = f\<lparr>qf_opaque := s, qf_pos := (if ret \<ge> 0 then qf_pos f + ret else qf_pos f),
                  buf_index := 0, qf_iov := []\<rparr>;
        Some (if ret < 0 then qemu_file_set_error f ret else f)
      })"

definition qemu_fill_buffer :: "QEMUFile \<Rightarrow> QEMUFile option" where
  "qemu_fill_buffer f =
     (if qemu_file_is_writable f then None
      else
        case get_buffer (qf_ops f) of
          None \<Rightarrow> None
        | Some get \<Rightarrow>
            let pending = buf_size f - buf_index f;
                buf = (\<lambda>i. if i < pending then qf_buf f (buf_index f + i) else qf_buf f i)
            in (case get (qf_opaque f) (qf_pos f) (IO_BUF_SIZE - pending) of
                  (Inr bs, s) \<Rightarrow>
                    let f = f\<lparr>qf_opaque := s, buf_index := 0, buf_size := pending + length bs,
                              qf_buf := (\<lambda>i. if pending \<le> i \<and> i < pending + length bs then bs ! (i - pending) else buf i),
                              qf_pos := qf_pos f + int (length bs)\<rparr>
                    in Some (if bs = [] then qemu_file_set_error f (- EIO) else f)
                | (Inl len, s) \<Rightarrow>
                    let f = f\<lparr>qf_opaque := s, buf_index := 0, buf_size := pending, qf_buf := buf\<rparr>
                    in Some (if len \<noteq> - EAGAIN then qemu_file_set_error f len else f)))"

text \<open>\<^verbatim>\<open>qemu_fclose\<close>: the result; closing the host file returns \<open>close_ret\<close>.\<close>

definition qemu_fclose :: "int option \<Rightarrow> QEMUFile \<Rightarrow> int option" where
  "qemu_fclose close_ret f =
     map_option
       (\<lambda>f. let ret = qemu_file_get_error f;
                ret = (case close_ret of None \<Rightarrow> ret | Some ret2 \<Rightarrow> if ret \<ge> 0 then ret2 else ret)
            in if last_error f \<noteq> 0 then last_error f else ret)
       (qemu_fflush f)"

subsection \<open>Writing\<close>

definition add_to_iovec :: "QEMUFile \<Rightarrow> nat \<Rightarrow> nat \<Rightarrow> QEMUFile option" where
  "add_to_iovec f i sz =
     (let iov = (if qf_iov f \<noteq> [] \<and> i = fst (last (qf_iov f)) + snd (last (qf_iov f))
                 then butlast (qf_iov f) @ [(fst (last (qf_iov f)), snd (last (qf_iov f)) + sz)]
                 else qf_iov f @ [(i, sz)]);
          f = f\<lparr>qf_iov := iov\<rparr>
      in if length iov \<ge> MAX_IOV_SIZE then qemu_fflush f else Some f)"

definition buf_store :: "QEMUFile \<Rightarrow> u8 list \<Rightarrow> QEMUFile" where
  "buf_store f bs =
     f\<lparr>qf_buf := (\<lambda>i. if buf_index f \<le> i \<and> i < buf_index f + length bs then bs ! (i - buf_index f) else qf_buf f i)\<rparr>"

text \<open>One round of \<^verbatim>\<open>qemu_put_buffer\<close>, and of \<^verbatim>\<open>qemu_put_byte\<close> for a single byte.\<close>

definition put_chunk :: "QEMUFile \<Rightarrow> u8 list \<Rightarrow> QEMUFile option" where
  "put_chunk f bs = do {
     let g = (buf_store f bs)\<lparr>bytes_xfer := bytes_xfer f + int (length bs)\<rparr>;
     g \<leftarrow> (if writev_buffer (qf_ops f) \<noteq> None then add_to_iovec g (buf_index g) (length bs) else Some g);
     let g = g\<lparr>buf_index := buf_index g + length bs\<rparr>;
     if buf_index g = IO_BUF_SIZE then qemu_fflush g else Some g
   }"

partial_function (option) put_loop :: "QEMUFile \<Rightarrow> u8 list \<Rightarrow> QEMUFile option" where
  "put_loop f bs =
     (if bs = [] then Some f
      else do {
        let l = min (IO_BUF_SIZE - buf_index f) (length bs);
        g \<leftarrow> put_chunk f (take l bs);
        if qemu_file_get_error g \<noteq> 0 then Some g else put_loop g (drop l bs)
      })"

definition qemu_put_buffer :: "QEMUFile \<Rightarrow> u8 list \<Rightarrow> QEMUFile option" where
  "qemu_put_buffer f bs = (if last_error f \<noteq> 0 then Some f else put_loop f bs)"

definition qemu_put_byte :: "QEMUFile \<Rightarrow> u8 \<Rightarrow> QEMUFile option" where
  "qemu_put_byte f v = (if last_error f \<noteq> 0 then Some f else put_chunk f [v])"

definition qemu_put_be16 :: "QEMUFile \<Rightarrow> u32 \<Rightarrow> QEMUFile option" where
  "qemu_put_be16 f v = do { f \<leftarrow> qemu_put_byte f (ucast (drop_bit 8 v)); qemu_put_byte f (ucast v) }"

definition qemu_put_be32 :: "QEMUFile \<Rightarrow> u32 \<Rightarrow> QEMUFile option" where
  "qemu_put_be32 f v = do {
     f \<leftarrow> qemu_put_byte f (ucast (drop_bit 24 v));
     f \<leftarrow> qemu_put_byte f (ucast (drop_bit 16 v));
     f \<leftarrow> qemu_put_byte f (ucast (drop_bit 8 v));
     qemu_put_byte f (ucast v)
   }"

definition qemu_put_be64 :: "QEMUFile \<Rightarrow> u64 \<Rightarrow> QEMUFile option" where
  "qemu_put_be64 f v = do { f \<leftarrow> qemu_put_be32 f (ucast (drop_bit 32 v)); qemu_put_be32 f (ucast v) }"

subsection \<open>Reading\<close>

definition qemu_file_skip :: "QEMUFile \<Rightarrow> nat \<Rightarrow> QEMUFile" where
  "qemu_file_skip f sz = (if buf_index f + sz \<le> buf_size f then f\<lparr>buf_index := buf_index f + sz\<rparr> else f)"

text \<open>\<^verbatim>\<open>qemu_peek_buffer\<close> returns the bytes; their number is the return value of the C function.\<close>

definition qemu_peek_buffer :: "QEMUFile \<Rightarrow> nat \<Rightarrow> nat \<Rightarrow> (u8 list \<times> QEMUFile) option" where
  "qemu_peek_buffer f sz offset =
     (if qemu_file_is_writable f then None
      else do {
        f \<leftarrow> (if int (buf_size f) - int (buf_index f + offset) < int sz then qemu_fill_buffer f else Some f);
        let index = buf_index f + offset;
        let pending = buf_size f - index;
        Some (buf_range f index (min sz pending), f)
      })"

function qemu_get_buffer :: "QEMUFile \<Rightarrow> nat \<Rightarrow> (u8 list \<times> QEMUFile) option" where
  "qemu_get_buffer f pending =
     (if pending = 0 then Some ([], f)
      else do {
        (bs, f) \<leftarrow> qemu_peek_buffer f pending 0;
        if bs = [] then Some ([], f)
        else map_option (apfst ((@) bs)) (qemu_get_buffer (qemu_file_skip f (length bs)) (pending - length bs))
      })"
  by pat_completeness auto
termination
  by (relation "measure snd") auto

declare qemu_get_buffer.simps [simp del]

definition qemu_peek_byte :: "QEMUFile \<Rightarrow> nat \<Rightarrow> (u8 \<times> QEMUFile) option" where
  "qemu_peek_byte f offset =
     (if qemu_file_is_writable f then None
      else if buf_index f + offset \<ge> buf_size f then do {
        f \<leftarrow> qemu_fill_buffer f;
        Some (if buf_index f + offset \<ge> buf_size f then 0 else qf_buf f (buf_index f + offset), f)
      }
      else Some (qf_buf f (buf_index f + offset), f))"

definition qemu_get_byte :: "QEMUFile \<Rightarrow> (u8 \<times> QEMUFile) option" where
  "qemu_get_byte f = do { (result, f) \<leftarrow> qemu_peek_byte f 0; Some (result, qemu_file_skip f 1) }"

definition qemu_get_be16 :: "QEMUFile \<Rightarrow> (u32 \<times> QEMUFile) option" where
  "qemu_get_be16 f = do {
     (a, f) \<leftarrow> qemu_get_byte f;
     (b, f) \<leftarrow> qemu_get_byte f;
     Some (push_bit 8 (ucast a) OR ucast b, f)
   }"

definition qemu_get_be32 :: "QEMUFile \<Rightarrow> (u32 \<times> QEMUFile) option" where
  "qemu_get_be32 f = do {
     (a, f) \<leftarrow> qemu_get_byte f;
     (b, f) \<leftarrow> qemu_get_byte f;
     (c, f) \<leftarrow> qemu_get_byte f;
     (d, f) \<leftarrow> qemu_get_byte f;
     Some (push_bit 24 (ucast a) OR push_bit 16 (ucast b) OR push_bit 8 (ucast c) OR ucast d, f)
   }"

definition qemu_get_be64 :: "QEMUFile \<Rightarrow> (u64 \<times> QEMUFile) option" where
  "qemu_get_be64 f = do {
     (hi, f) \<leftarrow> qemu_get_be32 f;
     (lo, f) \<leftarrow> qemu_get_be32 f;
     Some (push_bit 32 (ucast hi) OR ucast lo, f)
   }"

subsection \<open>Position and rate limit\<close>

definition qemu_ftell :: "QEMUFile \<Rightarrow> (int \<times> QEMUFile) option" where
  "qemu_ftell f = map_option (\<lambda>f. (qf_pos f, f)) (qemu_fflush f)"

definition qemu_update_position :: "QEMUFile \<Rightarrow> nat \<Rightarrow> QEMUFile" where
  "qemu_update_position f sz = f\<lparr>qf_pos := qf_pos f + int sz\<rparr>"

definition qemu_file_rate_limit :: "QEMUFile \<Rightarrow> int" where
  "qemu_file_rate_limit f =
     (if qemu_file_get_error f \<noteq> 0 then 1
      else if xfer_limit f > 0 \<and> bytes_xfer f > xfer_limit f then 1 else 0)"

definition qemu_file_get_rate_limit :: "QEMUFile \<Rightarrow> int" where
  "qemu_file_get_rate_limit f = xfer_limit f"

definition qemu_file_set_rate_limit :: "QEMUFile \<Rightarrow> int \<Rightarrow> QEMUFile" where
  "qemu_file_set_rate_limit f limit = f\<lparr>xfer_limit := limit\<rparr>"

definition qemu_file_reset_rate_limit :: "QEMUFile \<Rightarrow> QEMUFile" where
  "qemu_file_reset_rate_limit f = f\<lparr>bytes_xfer := 0\<rparr>"

end
