(* ===== verification/Vmstate.thy ===== *)
theory Vmstate
  imports Qemu_File
begin

text \<open>
  Descriptions of device state (\<^verbatim>\<open>include/migration/vmstate.h\<close>), how a value of each kind is written
  to and read from a stream (the \<^verbatim>\<open>VMStateInfo\<close> of \<^verbatim>\<open>savevm.c\<close>, with the inline functions of
  \<^verbatim>\<open>include/migration/qemu-file.h\<close>), and where a field lies in memory.  The end marker of the C arrays
  is the end of the list here; a null pointer is \<open>None\<close>.  Timers are left out.
\<close>

subsection \<open>Values behind a pointer\<close>

type_synonym getter = "QEMUFile \<Rightarrow> u64 \<Rightarrow> nat \<Rightarrow> hmem \<Rightarrow> (int \<times> QEMUFile \<times> hmem) option"
type_synonym putter = "QEMUFile \<Rightarrow> u64 \<Rightarrow> nat \<Rightarrow> hmem \<Rightarrow> QEMUFile option"

definition qemu_put_be64s :: "QEMUFile \<Rightarrow> u64 \<Rightarrow> hmem \<Rightarrow> QEMUFile option" where
  "qemu_put_be64s f pv m = do { v \<leftarrow> load_word m pv 8; qemu_put_be64 f v }"

definition qemu_put_be32s :: "QEMUFile \<Rightarrow> u64 \<Rightarrow> hmem \<Rightarrow> QEMUFile option" where
  "qemu_put_be32s f pv m = do { v \<leftarrow> load_word m pv 4; qemu_put_be32 f v }"

definition qemu_put_be16s :: "QEMUFile \<Rightarrow> u64 \<Rightarrow> hmem \<Rightarrow> QEMUFile option" where
  "qemu_put_be16s f pv m = do { v \<leftarrow> load_word m pv 2; qemu_put_be16 f (ucast (v :: u16)) }"

definition qemu_put_8s :: "QEMUFile \<Rightarrow> u64 \<Rightarrow> hmem \<Rightarrow> QEMUFile option" where
  "qemu_put_8s f pv m = do { v \<leftarrow> load_word m pv 1; qemu_put_byte f v }"

definition qemu_get_be64s :: "QEMUFile \<Rightarrow> u64 \<Rightarrow> hmem \<Rightarrow> (QEMUFile \<times> hmem) option" where
  "qemu_get_be64s f pv m = do { (v, f) \<leftarrow> qemu_get_be64 f; m \<leftarrow> store_word m pv 8 v; Some (f, m) }"

definition qemu_get_be32s :: "QEMUFile \<Rightarrow> u64 \<Rightarrow> hmem \<Rightarrow> (QEMUFile \<times> hmem) option" where
  "qemu_get_be32s f pv m = do { (v, f) \<leftarrow> qemu_get_be32 f; m \<leftarrow> store_word m pv 4 v; Some (f, m) }"

definition qemu_get_be16s :: "QEMUFile \<Rightarrow> u64 \<Rightarrow> hmem \<Rightarrow> (QEMUFile \<times> hmem) option" where
  "qemu_get_be16s f pv m = do { (v, f) \<leftarrow> qemu_get_be16 f; m \<leftarrow> store_word m pv 2 v; Some (f, m) }"

definition qemu_get_8s :: "QEMUFile \<Rightarrow> u64 \<Rightarrow> hmem \<Rightarrow> (QEMUFile \<times> hmem) option" where
  "qemu_get_8s f pv m = do { (v, f) \<leftarrow> qemu_get_byte f; m \<leftarrow> store_word m pv 1 v; Some (f, m) }"

text \<open>The signed variants pass the pointer on.\<close>

definition qemu_put_s8s :: "QEMUFile \<Rightarrow> u64 \<Rightarrow> hmem \<Rightarrow> QEMUFile option" where
  "qemu_put_s8s = qemu_put_8s"
definition qemu_put_sbe16s :: "QEMUFile \<Rightarrow> u64 \<Rightarrow> hmem \<Rightarrow> QEMUFile option" where
  "qemu_put_sbe16s = qemu_put_be16s"
definition qemu_put_sbe32s :: "QEMUFile \<Rightarrow> u64 \<Rightarrow> hmem \<Rightarrow> QEMUFile option" where
  "qemu_put_sbe32s = qemu_put_be32s"
definition qemu_put_sbe64s :: "QEMUFile \<Rightarrow> u64 \<Rightarrow> hmem \<Rightarrow> QEMUFile option" where
  "qemu_put_sbe64s = qemu_put_be64s"
definition qemu_get_s8s :: "QEMUFile \<Rightarrow> u64 \<Rightarrow> hmem \<Rightarrow> (QEMUFile \<times> hmem) option" where
  "qemu_get_s8s = qemu_get_8s"
definition qemu_get_sbe16s :: "QEMUFile \<Rightarrow> u64 \<Rightarrow> hmem \<Rightarrow> (QEMUFile \<times> hmem) option" where
  "qemu_get_sbe16s = qemu_get_be16s"
definition qemu_get_sbe32s :: "QEMUFile \<Rightarrow> u64 \<Rightarrow> hmem \<Rightarrow> (QEMUFile \<times> hmem) option" where
  "qemu_get_sbe32s = qemu_get_be32s"
definition qemu_get_sbe64s :: "QEMUFile \<Rightarrow> u64 \<Rightarrow> hmem \<Rightarrow> (QEMUFile \<times> hmem) option" where
  "qemu_get_sbe64s = qemu_get_be64s"

subsection \<open>Kinds of values\<close>

record VMStateInfo =
  info_name :: string
  info_get :: getter
  info_put :: putter

abbreviation (input) ret0 :: "(QEMUFile \<times> hmem) option \<Rightarrow> (int \<times> QEMUFile \<times> hmem) option" where
  "ret0 r \<equiv> map_option (Pair 0) r"

definition get_bool :: getter where
  "get_bool f pv sz m = do {
     (v, f) \<leftarrow> qemu_get_byte f;
     m \<leftarrow> store_word m pv 1 (if v = 0 then 0 else 1 :: u8);
     Some (0, f, m)
   }"
definition put_bool :: putter where
  "put_bool f pv sz m = do { v \<leftarrow> load_word m pv 1; qemu_put_byte f v }"

definition get_int8 :: getter where "get_int8 f pv sz m = ret0 (qemu_get_s8s f pv m)"
definition put_int8 :: putter where "put_int8 f pv sz m = qemu_put_s8s f pv m"
definition get_int16 :: getter where "get_int16 f pv sz m = ret0 (qemu_get_sbe16s f pv m)"
definition put_int16 :: putter where "put_int16 f pv sz m = qemu_put_sbe16s f pv m"
definition get_int32 :: getter where "get_int32 f pv sz m = ret0 (qemu_get_sbe32s f pv m)"
definition put_int32 :: putter where "put_int32 f pv sz m = qemu_put_sbe32s f pv m"
definition get_int64 :: getter where "get_int64 f pv sz m = ret0 (qemu_get_sbe64s f pv m)"
definition put_int64 :: putter where "put_int64 f pv sz m = qemu_put_sbe64s f pv m"
definition get_uint8 :: getter where "get_uint8 f pv sz m = ret0 (qemu_get_8s f pv m)"
definition put_uint8 :: putter where "put_uint8 f pv sz m = qemu_put_8s f pv m"
definition get_uint16 :: getter where "get_uint16 f pv sz m = ret0 (qemu_get_be16s f pv m)"
definition put_uint16 :: putter where "put_uint16 f pv sz m = qemu_put_be16s f pv m"
definition get_uint32 :: getter where "get_uint32 f pv sz m = ret0 (qemu_get_be32s f pv m)"
definition put_uint32 :: putter where "put_uint32 f pv sz m = qemu_put_be32s f pv m"
definition get_uint64 :: getter where "get_uint64 f pv sz m = ret0 (qemu_get_be64s f pv m)"
definition put_uint64 :: putter where "put_uint64 f pv sz m = qemu_put_be64s f pv m"

text \<open>The received value must be the one in the field.\<close>

definition get_int32_equal :: getter where
  "get_int32_equal f pv sz m = do {
     (v2, f) \<leftarrow> qemu_get_be32 f;
     v \<leftarrow> load_word m pv 4;
     Some (if v = v2 then 0 else - EINVAL, f, m)
   }"
definition get_uint32_equal :: getter where
  "get_uint32_equal f pv sz m = do {
     (v2, f) \<leftarrow> qemu_get_be32 f;
     v \<leftarrow> load_word m pv 4;
     Some (if v = v2 then 0 else - EINVAL, f, m)
   }"
definition get_uint64_equal :: getter where
  "get_uint64_equal f pv sz m = do {
     (v2, f) \<leftarrow> qemu_get_be64 f;
     v \<leftarrow> load_word m pv 8;
     Some (if v = v2 then 0 else - EINVAL, f, m)
   }"
definition get_uint8_equal :: getter where
  "get_uint8_equal f pv sz m = do {
     (v2, f) \<leftarrow> qemu_get_byte f;
     v \<leftarrow> load_word m pv 1;
     Some (if v = v2 then 0 else - EINVAL, f, m)
   }"
definition get_uint16_equal :: getter where
  "get_uint16_equal f pv sz m = do {
     (v2, f) \<leftarrow> qemu_get_be16 f;
     v \<leftarrow> load_word m pv 2;
     Some (if (v :: u16) = ucast v2 then 0 else - EINVAL, f, m)
   }"

text \<open>The received value must be non-negative and at most the one in the field.\<close>

definition get_int32_le :: getter where
  "get_int32_le f pv sz m = do {
     (loaded, f) \<leftarrow> qemu_get_be32 f;
     cur \<leftarrow> load_word m pv 4;
     if sint loaded \<ge> 0 \<and> sint loaded \<le> sint (cur :: u32)
     then do { m \<leftarrow> store_word m pv 4 loaded; Some (0, f, m) }
     else Some (- EINVAL, f, m)
   }"

definition get_float64 :: getter where
  "get_float64 f pv sz m = do { (v, f) \<leftarrow> qemu_get_be64 f; m \<leftarrow> store_word m pv 8 v; Some (0, f, m) }"
definition put_float64 :: putter where
  "put_float64 f pv sz m = do { v \<leftarrow> load_word m pv 8; qemu_put_be64 f v }"

text \<open>Buffers; the size is converted to \<^verbatim>\<open>int\<close> on the way.\<close>

definition get_buffer_fn :: getter where
  "get_buffer_fn f pv sz m = do {
     (bs, f) \<leftarrow> qemu_get_buffer f (nat (c_int sz));
     m \<leftarrow> mem_write m pv bs;
     Some (0, f, m)
   }"
definition put_buffer_fn :: putter where
  "put_buffer_fn f pv sz m = do { bs \<leftarrow> mem_read m pv (nat (c_int sz)); qemu_put_buffer f bs }"

function get_unused_buffer :: getter where
  "get_unused_buffer f pv sz m =
     (if sz = 0 then Some (0, f, m)
      else do { (bs, f) \<leftarrow> qemu_get_buffer f (min 1024 sz); get_unused_buffer f pv (sz - min 1024 sz) m })"
  by pat_completeness auto
termination
  by (relation "measure (\<lambda>(_, _, sz, _). sz)") auto

function put_unused_buffer :: putter where
  "put_unused_buffer f pv sz m =
     (if sz = 0 then Some f
      else do { f \<leftarrow> qemu_put_buffer f (replicate (min 1024 sz) 0); put_unused_buffer f pv (sz - min 1024 sz) m })"
  by pat_completeness auto
termination
  by (relation "measure (\<lambda>(_, _, sz, _). sz)") auto

declare get_unused_buffer.simps [simp del] put_unused_buffer.simps [simp del]

text \<open>Bitmaps of \<open>sz\<close> bits, in words of 64 bits as on a 64-bit host.\<close>

definition BITS_TO_U64S :: "nat \<Rightarrow> nat" where
  "BITS_TO_U64S nr = (nr + 63) div 64"

primrec get_bitmap_loop :: "nat \<Rightarrow> QEMUFile \<Rightarrow> u64 \<Rightarrow> hmem \<Rightarrow> (int \<times> QEMUFile \<times> hmem) option" where
  "get_bitmap_loop 0 f bmp m = Some (0, f, m)"
| "get_bitmap_loop (Suc n) f bmp m = do {
     (w, f) \<leftarrow> qemu_get_be64 f;
     m \<leftarrow> store_word m bmp 8 w;
     get_bitmap_loop n f (bmp + 8) m
   }"

definition get_bitmap :: getter where
  "get_bitmap f pv sz m = get_bitmap_loop (BITS_TO_U64S sz) f pv m"

primrec put_bitmap_loop :: "nat \<Rightarrow> QEMUFile \<Rightarrow> u64 \<Rightarrow> hmem \<Rightarrow> QEMUFile option" where
  "put_bitmap_loop 0 f bmp m = Some f"
| "put_bitmap_loop (Suc n) f bmp m = do {
     w \<leftarrow> load_word m bmp 8;
     f \<leftarrow> qemu_put_be64 f w;
     put_bitmap_loop n f (bmp + 8) m
   }"

definition put_bitmap :: putter where
  "put_bitmap f pv sz m = put_bitmap_loop (BITS_TO_U64S sz) f pv m"

subsection \<open>The tables of kinds\<close>

definition vmstate_info_bool :: VMStateInfo where
  "vmstate_info_bool = \<lparr>info_name = ''bool'', info_get = get_bool, info_put = put_bool\<rparr>"
definition vmstate_info_int8 :: VMStateInfo where
  "vmstate_info_int8 = \<lparr>info_name = ''int8'', info_get = get_int8, info_put = put_int8\<rparr>"
definition vmstate_info_int16 :: VMStateInfo where
  "vmstate_info_int16 = \<lparr>info_name = ''int16'', info_get = get_int16, info_put = put_int16\<rparr>"
definition vmstate_info_int32 :: VMStateInfo where
  "vmstate_info_int32 = \<lparr>info_name = ''int32'', info_get = get_int32, info_put = put_int32\<rparr>"
definition vmstate_info_int32_equal :: VMStateInfo where
  "vmstate_info_int32_equal = \<lparr>info_name = ''int32 equal'', info_get = get_int32_equal, info_put = put_int32\<rparr>"
definition vmstate_info_int32_le :: VMStateInfo where
  "vmstate_info_int32_le = \<lparr>info_name = ''int32 le'', info_get = get_int32_le, info_put = put_int32\<rparr>"
definition vmstate_info_int64 :: VMStateInfo where
  "vmstate_info_int64 = \<lparr>info_name = ''int64'', info_get = get_int64, info_put = put_int64\<rparr>"
definition vmstate_info_uint8 :: VMStateInfo where
  "vmstate_info_uint8 = \<lparr>info_name = ''uint8'', info_get = get_uint8, info_put = put_uint8\<rparr>"
definition vmstate_info_uint16 :: VMStateInfo where
  "vmstate_info_uint16 = \<lparr>info_name = ''uint16'', info_get = get_uint16, info_put = put_uint16\<rparr>"
definition vmstate_info_uint32 :: VMStateInfo where
  "vmstate_info_uint32 = \<lparr>info_name = ''uint32'', info_get = get_uint32, info_put = put_uint32\<rparr>"
definition vmstate_info_uint32_equal :: VMStateInfo where
  "vmstate_info_uint32_equal = \<lparr>info_name = ''uint32 equal'', info_get = get_uint32_equal, info_put = put_uint32\<rparr>"
definition vmstate_info_uint64 :: VMStateInfo where
  "vmstate_info_uint64 = \<lparr>info_name = ''uint64'', info_get = get_uint64, info_put = put_uint64\<rparr>"
definition vmstate_info_uint64_equal :: VMStateInfo where
  "vmstate_info_uint64_equal = \<lparr>info_name = ''int64 equal'', info_get = get_uint64_equal, info_put = put_uint64\<rparr>"
definition vmstate_info_uint8_equal :: VMStateInfo where
  "vmstate_info_uint8_equal = \<lparr>info_name = ''uint8 equal'', info_get = get_uint8_equal, info_put = put_uint8\<rparr>"
definition vmstate_info_uint16_equal :: VMStateInfo where
  "vmstate_info_uint16_equal = \<lparr>info_name = ''uint16 equal'', info_get = get_uint16_equal, info_put = put_uint16\<rparr>"
definition vmstate_info_float64 :: VMStateInfo where
  "vmstate_info_float64 = \<lparr>info_name = ''float64'', info_get = get_float64, info_put = put_float64\<rparr>"
definition vmstate_info_buffer :: VMStateInfo where
  "vmstate_info_buffer = \<lparr>info_name = ''buffer'', info_get = get_buffer_fn, info_put = put_buffer_fn\<rparr>"
definition vmstate_info_unused_buffer :: VMStateInfo where
  "vmstate_info_unused_buffer = \<lparr>info_name = ''unused_buffer'', info_get = get_unused_buffer, info_put = put_unused_buffer\<rparr>"
definition vmstate_info_bitmap :: VMStateInfo where
  "vmstate_info_bitmap = \<lparr>info_name = ''bitmap'', info_get = get_bitmap, info_put = put_bitmap\<rparr>"

subsection \<open>Flags\<close>

named_theorems vms_flags

definition VMS_SINGLE :: u32 where [vms_flags]: "VMS_SINGLE = 0x001"
definition VMS_POINTER :: u32 where [vms_flags]: "VMS_POINTER = 0x002"
definition VMS_ARRAY :: u32 where [vms_flags]: "VMS_ARRAY = 0x004"
definition VMS_STRUCT :: u32 where [vms_flags]: "VMS_STRUCT = 0x008"
definition VMS_VARRAY_INT32 :: u32 where [vms_flags]: "VMS_VARRAY_INT32 = 0x010"
definition VMS_BUFFER :: u32 where [vms_flags]: "VMS_BUFFER = 0x020"
definition VMS_ARRAY_OF_POINTER :: u32 where [vms_flags]: "VMS_ARRAY_OF_POINTER = 0x040"
definition VMS_VARRAY_UINT16 :: u32 where [vms_flags]: "VMS_VARRAY_UINT16 = 0x080"
definition VMS_VBUFFER :: u32 where [vms_flags]: "VMS_VBUFFER = 0x100"
definition VMS_MULTIPLY :: u32 where [vms_flags]: "VMS_MULTIPLY = 0x200"
definition VMS_VARRAY_UINT8 :: u32 where [vms_flags]: "VMS_VARRAY_UINT8 = 0x400"
definition VMS_VARRAY_UINT32 :: u32 where [vms_flags]: "VMS_VARRAY_UINT32 = 0x800"
definition VMS_MUST_EXIST :: u32 where [vms_flags]: "VMS_MUST_EXIST = 0x1000"

subsection \<open>Descriptions\<close>

datatype VMStateField =
  VMStateField (f_name: string) (f_offset: nat) (f_size: nat) (f_start: nat) (f_num: int)
    (f_num_offset: nat) (f_size_offset: nat) (f_info: "VMStateInfo option") (f_flags: u32)
    (f_vmsd: "VMStateDescription option") (f_version_id: int)
    (f_exists: "(hmem \<Rightarrow> u64 \<Rightarrow> int \<Rightarrow> bool) option")
and VMStateSubsection =
  VMStateSubsection (ss_vmsd: VMStateDescription) (ss_needed: "hmem \<Rightarrow> u64 \<Rightarrow> bool")
and VMStateDescription =
  VMStateDescription (vm_name: string) (vm_unmigratable: int) (vm_version_id: int)
    (vm_minimum_version_id: int) (vm_minimum_version_id_old: int)
    (vm_load_state_old: "(u64 \<Rightarrow> int \<Rightarrow> QEMUFile \<times> hmem \<Rightarrow> (int \<times> QEMUFile \<times> hmem) option) option")
    (vm_pre_load: "(u64 \<Rightarrow> hmem \<Rightarrow> (int \<times> hmem) option) option")
    (vm_post_load: "(u64 \<Rightarrow> int \<Rightarrow> hmem \<Rightarrow> (int \<times> hmem) option) option")
    (vm_pre_save: "(u64 \<Rightarrow> hmem \<Rightarrow> hmem option) option")
    (vm_fields: "VMStateField list") (vm_subsections: "VMStateSubsection list")

lemma size_field_vmsd: "f_vmsd f = Some v \<Longrightarrow> size v < size f"
  by (cases f) auto

lemma size_vmsd_field: "f \<in> set (vm_fields v) \<Longrightarrow> size f < size v"
  by (cases v) (auto simp: less_Suc_eq_le intro: size_list_estimation' trans_le_add1)

lemma size_vmsd_subsection: "sub \<in> set (vm_subsections v) \<Longrightarrow> size (ss_vmsd sub) < size v"
proof -
  assume sub: "sub \<in> set (vm_subsections v)"
  have "size (ss_vmsd sub) < size sub" by (cases sub) simp
  also have "size sub \<le> size_list size (vm_subsections v)" using sub by (rule size_list_estimation') simp
  also have "\<dots> \<le> size v" by (cases v) simp
  finally show ?thesis .
qed

text \<open>
  A loop over a list that stops at a crash and at a negative return value.
\<close>

primrec for_ret :: "'b list \<Rightarrow> ('b \<Rightarrow> 's \<Rightarrow> (int \<times> 's) option) \<Rightarrow> 's \<Rightarrow> (int \<times> 's) option" where
  "for_ret [] f s = Some (0, s)"
| "for_ret (x # xs) f s = do { (ret, s) \<leftarrow> f x s; if ret < 0 then Some (ret, s) else for_ret xs f s }"

lemma for_ret_cong [fundef_cong]:
  "xs = ys \<Longrightarrow> s = t \<Longrightarrow> (\<And>x s. x \<in> set ys \<Longrightarrow> f x s = g x s) \<Longrightarrow> for_ret xs f s = for_ret ys g t"
  by (induction xs arbitrary: ys s t) (auto intro!: Option.bind_cong)

subsection \<open>Where a field lies\<close>

definition vmstate_n_elems :: "hmem \<Rightarrow> u64 \<Rightarrow> VMStateField \<Rightarrow> int option" where
  "vmstate_n_elems m opaque field =
     (if tst (f_flags field) VMS_ARRAY then Some (f_num field)
      else if tst (f_flags field) VMS_VARRAY_INT32 then load_int32 m (opaque + of_nat (f_num_offset field))
      else if tst (f_flags field) VMS_VARRAY_UINT32 then load_int32 m (opaque + of_nat (f_num_offset field))
      else if tst (f_flags field) VMS_VARRAY_UINT16 then load_uint16 m (opaque + of_nat (f_num_offset field))
      else if tst (f_flags field) VMS_VARRAY_UINT8 then load_uint8 m (opaque + of_nat (f_num_offset field))
      else Some 1)"

definition vmstate_size :: "hmem \<Rightarrow> u64 \<Rightarrow> VMStateField \<Rightarrow> int option" where
  "vmstate_size m opaque field =
     (if tst (f_flags field) VMS_VBUFFER then
        map_option (\<lambda>sz. if tst (f_flags field) VMS_MULTIPLY
                        then sint (word_of_int sz * of_nat (f_size field) :: u32) else sz)
          (load_int32 m (opaque + of_nat (f_size_offset field)))
      else Some (c_int (f_size field)))"

definition vmstate_base_addr :: "hmem \<Rightarrow> u64 \<Rightarrow> VMStateField \<Rightarrow> u64 option" where
  "vmstate_base_addr m opaque field =
     (let base_addr = opaque + of_nat (f_offset field)
      in if tst (f_flags field) VMS_POINTER
         then map_option (\<lambda>p. p + of_nat (f_start field)) (load_ptr m base_addr)
         else Some base_addr)"

text \<open>The address of an element, through the pointer stored there for an array of pointers.\<close>

definition elem_addr :: "hmem \<Rightarrow> VMStateField \<Rightarrow> u64 \<Rightarrow> u64 option" where
  "elem_addr m field addr =
     (if tst (f_flags field) VMS_ARRAY_OF_POINTER then load_ptr m addr else Some addr)"

end
