(* ===== verification/Vmstate_Fields.thy ===== *)
theory Vmstate_Fields
  imports Vmstate
begin

text \<open>
  The macros of \<^verbatim>\<open>include/migration/vmstate.h\<close> that make the fields of a description.  A macro takes the
  name of the field and the offset of the member instead of the member and its structure, and the
  size of the element type instead of the type; the type checks of the macros are the compiler's.
\<close>

named_theorems vmstate_macros

subsection \<open>Fields\<close>

definition VMSTATE_SINGLE_TEST ::
  "string \<Rightarrow> nat \<Rightarrow> (hmem \<Rightarrow> u64 \<Rightarrow> int \<Rightarrow> bool) option \<Rightarrow> int \<Rightarrow> VMStateInfo \<Rightarrow> nat \<Rightarrow> VMStateField" where
  [vmstate_macros]: "VMSTATE_SINGLE_TEST nm off test ver info sz =
     VMStateField nm off sz 0 0 0 0 (Some info) (VMS_SINGLE)
       None ver test"

definition VMSTATE_VALIDATE ::
  "string \<Rightarrow> (hmem \<Rightarrow> u64 \<Rightarrow> int \<Rightarrow> bool) option \<Rightarrow> VMStateField" where
  [vmstate_macros]: "VMSTATE_VALIDATE nm test =
     VMStateField nm 0 0 0 0 0 0 None (VMS_ARRAY OR VMS_MUST_EXIST)
       None 0 test"

definition VMSTATE_POINTER ::
  "string \<Rightarrow> nat \<Rightarrow> int \<Rightarrow> VMStateInfo \<Rightarrow> nat \<Rightarrow> VMStateField" where
  [vmstate_macros]: "VMSTATE_POINTER nm off ver info sz =
     VMStateField nm off sz 0 0 0 0 (Some info) (VMS_SINGLE OR VMS_POINTER)
       None ver None"

definition VMSTATE_POINTER_TEST ::
  "string \<Rightarrow> nat \<Rightarrow> (hmem \<Rightarrow> u64 \<Rightarrow> int \<Rightarrow> bool) option \<Rightarrow> VMStateInfo \<Rightarrow> nat \<Rightarrow> VMStateField" where
  [vmstate_macros]: "VMSTATE_POINTER_TEST nm off test info sz =
     VMStateField nm off sz 0 0 0 0 (Some info) (VMS_SINGLE OR VMS_POINTER)
       None 0 test"

definition VMSTATE_ARRAY ::
  "string \<Rightarrow> nat \<Rightarrow> int \<Rightarrow> int \<Rightarrow> VMStateInfo \<Rightarrow> nat \<Rightarrow> VMStateField" where
  [vmstate_macros]: "VMSTATE_ARRAY nm off num ver info sz =
     VMStateField nm off sz 0 num 0 0 (Some info) (VMS_ARRAY)
       None ver None"

definition VMSTATE_2DARRAY ::
  "string \<Rightarrow> nat \<Rightarrow> int \<Rightarrow> int \<Rightarrow> int \<Rightarrow> VMStateInfo \<Rightarrow> nat \<Rightarrow> VMStateField" where
  [vmstate_macros]: "VMSTATE_2DARRAY nm off n1 n2 ver info sz =
     VMStateField nm off sz 0 (n1 * n2) 0 0 (Some info) (VMS_ARRAY)
       None ver None"

definition VMSTATE_ARRAY_TEST ::
  "string \<Rightarrow> nat \<Rightarrow> int \<Rightarrow> (hmem \<Rightarrow> u64 \<Rightarrow> int \<Rightarrow> bool) option \<Rightarrow> VMStateInfo \<Rightarrow> nat \<Rightarrow> VMStateField" where
  [vmstate_macros]: "VMSTATE_ARRAY_TEST nm off num test info sz =
     VMStateField nm off sz 0 num 0 0 (Some info) (VMS_ARRAY)
       None 0 test"

definition VMSTATE_SUB_ARRAY ::
  "string \<Rightarrow> nat \<Rightarrow> nat \<Rightarrow> int \<Rightarrow> int \<Rightarrow> VMStateInfo \<Rightarrow> nat \<Rightarrow> VMStateField" where
  [vmstate_macros]: "VMSTATE_SUB_ARRAY nm off start num ver info sz =
     VMStateField nm (off + start * sz) sz 0 num 0 0 (Some info) (VMS_ARRAY)
       None ver None"

definition VMSTATE_ARRAY_INT32_UNSAFE ::
  "string \<Rightarrow> nat \<Rightarrow> nat \<Rightarrow> VMStateInfo \<Rightarrow> nat \<Rightarrow> VMStateField" where
  [vmstate_macros]: "VMSTATE_ARRAY_INT32_UNSAFE nm off numoff info sz =
     VMStateField nm off sz 0 0 numoff 0 (Some info) (VMS_VARRAY_INT32)
       None 0 None"

definition VMSTATE_VARRAY_INT32 ::
  "string \<Rightarrow> nat \<Rightarrow> nat \<Rightarrow> int \<Rightarrow> VMStateInfo \<Rightarrow> nat \<Rightarrow> VMStateField" where
  [vmstate_macros]: "VMSTATE_VARRAY_INT32 nm off numoff ver info sz =
     VMStateField nm off sz 0 0 numoff 0 (Some info) (VMS_VARRAY_INT32 OR VMS_POINTER)
       None ver None"

definition VMSTATE_VARRAY_UINT32 ::
  "string \<Rightarrow> nat \<Rightarrow> nat \<Rightarrow> int \<Rightarrow> VMStateInfo \<Rightarrow> nat \<Rightarrow> VMStateField" where
  [vmstate_macros]: "VMSTATE_VARRAY_UINT32 nm off numoff ver info sz =
     VMStateField nm off sz 0 0 numoff 0 (Some info) (VMS_VARRAY_UINT32 OR VMS_POINTER)
       None ver None"

definition VMSTATE_VARRAY_UINT16_UNSAFE ::
  "string \<Rightarrow> nat \<Rightarrow> nat \<Rightarrow> int \<Rightarrow> VMStateInfo \<Rightarrow> nat \<Rightarrow> VMStateField" where
  [vmstate_macros]: "VMSTATE_VARRAY_UINT16_UNSAFE nm off numoff ver info sz =
     VMStateField nm off sz 0 0 numoff 0 (Some info) (VMS_VARRAY_UINT16)
       None ver None"

definition VMSTATE_STRUCT_TEST ::
  "string \<Rightarrow> nat \<Rightarrow> (hmem \<Rightarrow> u64 \<Rightarrow> int \<Rightarrow> bool) option \<Rightarrow> int \<Rightarrow> VMStateDescription \<Rightarrow> nat \<Rightarrow> VMStateField" where
  [vmstate_macros]: "VMSTATE_STRUCT_TEST nm off test ver vmsd sz =
     VMStateField nm off sz 0 0 0 0 None (VMS_STRUCT)
       (Some vmsd) ver test"

definition VMSTATE_STRUCT_POINTER_V ::
  "string \<Rightarrow> nat \<Rightarrow> int \<Rightarrow> VMStateDescription \<Rightarrow> nat \<Rightarrow> VMStateField" where
  [vmstate_macros]: "VMSTATE_STRUCT_POINTER_V nm off ver vmsd sz =
     VMStateField nm off sz 0 0 0 0 None (VMS_STRUCT OR VMS_POINTER)
       (Some vmsd) ver None"

definition VMSTATE_STRUCT_POINTER_TEST_V ::
  "string \<Rightarrow> nat \<Rightarrow> (hmem \<Rightarrow> u64 \<Rightarrow> int \<Rightarrow> bool) option \<Rightarrow> int \<Rightarrow> VMStateDescription \<Rightarrow> nat \<Rightarrow> VMStateField" where
  [vmstate_macros]: "VMSTATE_STRUCT_POINTER_TEST_V nm off test ver vmsd sz =
     VMStateField nm off sz 0 0 0 0 None (VMS_STRUCT OR VMS_POINTER)
       (Some vmsd) ver test"

definition VMSTATE_ARRAY_OF_POINTER ::
  "string \<Rightarrow> nat \<Rightarrow> int \<Rightarrow> int \<Rightarrow> VMStateInfo \<Rightarrow> nat \<Rightarrow> VMStateField" where
  [vmstate_macros]: "VMSTATE_ARRAY_OF_POINTER nm off num ver info sz =
     VMStateField nm off sz 0 num 0 0 (Some info) (VMS_ARRAY OR VMS_ARRAY_OF_POINTER)
       None ver None"

definition VMSTATE_STRUCT_ARRAY_TEST ::
  "string \<Rightarrow> nat \<Rightarrow> int \<Rightarrow> (hmem \<Rightarrow> u64 \<Rightarrow> int \<Rightarrow> bool) option \<Rightarrow> int \<Rightarrow> VMStateDescription \<Rightarrow> nat \<Rightarrow> VMStateField" where
  [vmstate_macros]: "VMSTATE_STRUCT_ARRAY_TEST nm off num test ver vmsd sz =
     VMStateField nm off sz 0 num 0 0 None (VMS_STRUCT OR VMS_ARRAY)
       (Some vmsd) ver test"

definition VMSTATE_STRUCT_VARRAY_UINT8 ::
  "string \<Rightarrow> nat \<Rightarrow> nat \<Rightarrow> int \<Rightarrow> VMStateDescription \<Rightarrow> nat \<Rightarrow> VMStateField" where
  [vmstate_macros]: "VMSTATE_STRUCT_VARRAY_UINT8 nm off numoff ver vmsd sz =
     VMStateField nm off sz 0 0 numoff 0 None (VMS_STRUCT OR VMS_VARRAY_UINT8)
       (Some vmsd) ver None"

definition VMSTATE_STRUCT_VARRAY_POINTER_INT32 ::
  "string \<Rightarrow> nat \<Rightarrow> nat \<Rightarrow> VMStateDescription \<Rightarrow> nat \<Rightarrow> VMStateField" where
  [vmstate_macros]: "VMSTATE_STRUCT_VARRAY_POINTER_INT32 nm off numoff vmsd sz =
     VMStateField nm off sz 0 0 numoff 0 None (VMS_POINTER OR VMS_VARRAY_INT32 OR VMS_STRUCT)
       (Some vmsd) 0 None"

definition VMSTATE_STRUCT_VARRAY_POINTER_UINT32 ::
  "string \<Rightarrow> nat \<Rightarrow> nat \<Rightarrow> VMStateDescription \<Rightarrow> nat \<Rightarrow> VMStateField" where
  [vmstate_macros]: "VMSTATE_STRUCT_VARRAY_POINTER_UINT32 nm off numoff vmsd sz =
     VMStateField nm off sz 0 0 numoff 0 None (VMS_POINTER OR VMS_VARRAY_INT32 OR VMS_STRUCT)
       (Some vmsd) 0 None"

definition VMSTATE_STRUCT_VARRAY_POINTER_UINT16 ::
  "string \<Rightarrow> nat \<Rightarrow> nat \<Rightarrow> VMStateDescription \<Rightarrow> nat \<Rightarrow> VMStateField" where
  [vmstate_macros]: "VMSTATE_STRUCT_VARRAY_POINTER_UINT16 nm off numoff vmsd sz =
     VMStateField nm off sz 0 0 numoff 0 None (VMS_POINTER OR VMS_VARRAY_UINT16 OR VMS_STRUCT)
       (Some vmsd) 0 None"

definition VMSTATE_STRUCT_VARRAY_INT32 ::
  "string \<Rightarrow> nat \<Rightarrow> nat \<Rightarrow> int \<Rightarrow> VMStateDescription \<Rightarrow> nat \<Rightarrow> VMStateField" where
  [vmstate_macros]: "VMSTATE_STRUCT_VARRAY_INT32 nm off numoff ver vmsd sz =
     VMStateField nm off sz 0 0 numoff 0 None (VMS_STRUCT OR VMS_VARRAY_INT32)
       (Some vmsd) ver None"

definition VMSTATE_STRUCT_VARRAY_UINT32 ::
  "string \<Rightarrow> nat \<Rightarrow> nat \<Rightarrow> int \<Rightarrow> VMStateDescription \<Rightarrow> nat \<Rightarrow> VMStateField" where
  [vmstate_macros]: "VMSTATE_STRUCT_VARRAY_UINT32 nm off numoff ver vmsd sz =
     VMStateField nm off sz 0 0 numoff 0 None (VMS_STRUCT OR VMS_VARRAY_UINT32)
       (Some vmsd) ver None"

definition VMSTATE_STATIC_BUFFER ::
  "string \<Rightarrow> nat \<Rightarrow> int \<Rightarrow> (hmem \<Rightarrow> u64 \<Rightarrow> int \<Rightarrow> bool) option \<Rightarrow> nat \<Rightarrow> nat \<Rightarrow> VMStateField" where
  [vmstate_macros]: "VMSTATE_STATIC_BUFFER nm off ver test start limit =
     VMStateField nm (off + start) (limit - start) 0 0 0 0 (Some vmstate_info_buffer) (VMS_BUFFER)
       None ver test"

definition VMSTATE_VBUFFER_MULTIPLY ::
  "string \<Rightarrow> nat \<Rightarrow> int \<Rightarrow> (hmem \<Rightarrow> u64 \<Rightarrow> int \<Rightarrow> bool) option \<Rightarrow> nat \<Rightarrow> nat \<Rightarrow> nat \<Rightarrow> VMStateField" where
  [vmstate_macros]: "VMSTATE_VBUFFER_MULTIPLY nm off ver test start szoff mul =
     VMStateField nm off mul start 0 0 szoff (Some vmstate_info_buffer) (VMS_VBUFFER OR VMS_POINTER OR VMS_MULTIPLY)
       None ver test"

definition VMSTATE_VBUFFER ::
  "string \<Rightarrow> nat \<Rightarrow> int \<Rightarrow> (hmem \<Rightarrow> u64 \<Rightarrow> int \<Rightarrow> bool) option \<Rightarrow> nat \<Rightarrow> nat \<Rightarrow> VMStateField" where
  [vmstate_macros]: "VMSTATE_VBUFFER nm off ver test start szoff =
     VMStateField nm off 0 start 0 0 szoff (Some vmstate_info_buffer) (VMS_VBUFFER OR VMS_POINTER)
       None ver test"

definition VMSTATE_VBUFFER_UINT32 ::
  "string \<Rightarrow> nat \<Rightarrow> int \<Rightarrow> (hmem \<Rightarrow> u64 \<Rightarrow> int \<Rightarrow> bool) option \<Rightarrow> nat \<Rightarrow> nat \<Rightarrow> VMStateField" where
  [vmstate_macros]: "VMSTATE_VBUFFER_UINT32 nm off ver test start szoff =
     VMStateField nm off 0 start 0 0 szoff (Some vmstate_info_buffer) (VMS_VBUFFER OR VMS_POINTER)
       None ver test"

definition VMSTATE_BUFFER_UNSAFE_INFO ::
  "string \<Rightarrow> nat \<Rightarrow> int \<Rightarrow> VMStateInfo \<Rightarrow> nat \<Rightarrow> VMStateField" where
  [vmstate_macros]: "VMSTATE_BUFFER_UNSAFE_INFO nm off ver info sz =
     VMStateField nm off sz 0 0 0 0 (Some info) (VMS_BUFFER)
       None ver None"

definition VMSTATE_BUFFER_POINTER_UNSAFE ::
  "string \<Rightarrow> nat \<Rightarrow> int \<Rightarrow> nat \<Rightarrow> VMStateField" where
  [vmstate_macros]: "VMSTATE_BUFFER_POINTER_UNSAFE nm off ver sz =
     VMStateField nm off sz 0 0 0 0 (Some vmstate_info_buffer) (VMS_BUFFER OR VMS_POINTER)
       None ver None"

definition VMSTATE_UNUSED_BUFFER ::
  "(hmem \<Rightarrow> u64 \<Rightarrow> int \<Rightarrow> bool) option \<Rightarrow> int \<Rightarrow> nat \<Rightarrow> VMStateField" where
  [vmstate_macros]: "VMSTATE_UNUSED_BUFFER test ver sz =
     VMStateField ''unused'' 0 sz 0 0 0 0 (Some vmstate_info_unused_buffer) (VMS_BUFFER)
       None ver test"

definition VMSTATE_BITMAP ::
  "string \<Rightarrow> nat \<Rightarrow> int \<Rightarrow> nat \<Rightarrow> VMStateField" where
  [vmstate_macros]: "VMSTATE_BITMAP nm off ver szoff =
     VMStateField nm off 0 0 0 0 szoff (Some vmstate_info_bitmap) (VMS_VBUFFER OR VMS_POINTER)
       None ver None"

subsection \<open>Fields of common types\<close>

definition VMSTATE_SINGLE :: "string \<Rightarrow> nat \<Rightarrow> int \<Rightarrow> VMStateInfo \<Rightarrow> nat \<Rightarrow> VMStateField" where
  [vmstate_macros]: "VMSTATE_SINGLE nm off ver info sz = VMSTATE_SINGLE_TEST nm off None ver info sz"

definition VMSTATE_STRUCT :: "string \<Rightarrow> nat \<Rightarrow> int \<Rightarrow> VMStateDescription \<Rightarrow> nat \<Rightarrow> VMStateField" where
  [vmstate_macros]: "VMSTATE_STRUCT nm off ver vmsd sz = VMSTATE_STRUCT_TEST nm off None ver vmsd sz"

definition VMSTATE_BOOL :: "string \<Rightarrow> nat \<Rightarrow> VMStateField" where
  [vmstate_macros]: "VMSTATE_BOOL nm off = VMSTATE_SINGLE nm off 0 vmstate_info_bool 1"

definition VMSTATE_INT8 :: "string \<Rightarrow> nat \<Rightarrow> VMStateField" where
  [vmstate_macros]: "VMSTATE_INT8 nm off = VMSTATE_SINGLE nm off 0 vmstate_info_int8 1"

definition VMSTATE_UINT8 :: "string \<Rightarrow> nat \<Rightarrow> VMStateField" where
  [vmstate_macros]: "VMSTATE_UINT8 nm off = VMSTATE_SINGLE nm off 0 vmstate_info_uint8 1"

definition VMSTATE_UINT16 :: "string \<Rightarrow> nat \<Rightarrow> VMStateField" where
  [vmstate_macros]: "VMSTATE_UINT16 nm off = VMSTATE_SINGLE nm off 0 vmstate_info_uint16 2"

definition VMSTATE_UINT32 :: "string \<Rightarrow> nat \<Rightarrow> VMStateField" where
  [vmstate_macros]: "VMSTATE_UINT32 nm off = VMSTATE_SINGLE nm off 0 vmstate_info_uint32 4"

definition VMSTATE_UINT64 :: "string \<Rightarrow> nat \<Rightarrow> VMStateField" where
  [vmstate_macros]: "VMSTATE_UINT64 nm off = VMSTATE_SINGLE nm off 0 vmstate_info_uint64 8"

definition VMSTATE_INT32_POSITIVE_LE :: "string \<Rightarrow> nat \<Rightarrow> VMStateField" where
  [vmstate_macros]: "VMSTATE_INT32_POSITIVE_LE nm off = VMSTATE_SINGLE nm off 0 vmstate_info_int32_le 4"

definition VMSTATE_UINT16_ARRAY :: "string \<Rightarrow> nat \<Rightarrow> int \<Rightarrow> VMStateField" where
  [vmstate_macros]: "VMSTATE_UINT16_ARRAY nm off num = VMSTATE_ARRAY nm off num 0 vmstate_info_uint16 2"

definition VMSTATE_UINT32_SUB_ARRAY :: "string \<Rightarrow> nat \<Rightarrow> nat \<Rightarrow> int \<Rightarrow> VMStateField" where
  [vmstate_macros]: "VMSTATE_UINT32_SUB_ARRAY nm off start num = VMSTATE_SUB_ARRAY nm off start num 0 vmstate_info_uint32 4"

definition VMSTATE_BUFFER :: "string \<Rightarrow> nat \<Rightarrow> nat \<Rightarrow> VMStateField" where
  [vmstate_macros]: "VMSTATE_BUFFER nm off sz = VMSTATE_STATIC_BUFFER nm off 0 None 0 sz"

definition VMSTATE_UNUSED :: "nat \<Rightarrow> VMStateField" where
  [vmstate_macros]: "VMSTATE_UNUSED sz = VMSTATE_UNUSED_BUFFER None 0 sz"

definition VMSTATE_UNUSED_TEST :: "(hmem \<Rightarrow> u64 \<Rightarrow> int \<Rightarrow> bool) option \<Rightarrow> nat \<Rightarrow> VMStateField" where
  [vmstate_macros]: "VMSTATE_UNUSED_TEST test sz = VMSTATE_UNUSED_BUFFER test 0 sz"

end
