(* ===== verification/E1000_Migrate.thy ===== *)
theory E1000_Migrate
  imports E1000_Mmio Vmstate_Fields
begin

text \<open>
  The migration side of the e1000 model (\<^verbatim>\<open>src/harness/e1000/e1000.c\<close>): what happens to the device
  before it is saved and after it is loaded, the tables that say which of its state travels, the
  coalescing of register writes and the class data.

  The offsets of the members that follow \<^verbatim>\<open>mac_reg\<close> are those of the x86-64 layout, relative to the
  offset \<open>base\<close> of \<^verbatim>\<open>mac_reg\<close>; the size of the embedded \<^verbatim>\<open>PCIDevice\<close> and its description are arguments.
\<close>

subsection \<open>Before saving and after loading\<close>

definition is_version_1 :: "u64 \<Rightarrow> int \<Rightarrow> bool" where
  "is_version_1 opaque version_id \<longleftrightarrow> version_id = 1"

definition e1000_pre_save :: "E1000State \<Rightarrow> E1000State" where
  "e1000_pre_save s =
     (let s = (if mit_timer_on s then e1000_mit_timer s else s)
      in if \<not> tst (compat_flags s) E1000_FLAG_AUTONEG then s
         else if link_down (nc s) \<and> tst (phy_reg s PHY_CTRL) MII_CR_AUTO_NEG_EN \<and>
                 tst (phy_reg s PHY_CTRL) MII_CR_RESTART_AUTO_NEG
              then phy_set PHY_STATUS (phy_reg s PHY_STATUS OR MII_SR_AUTONEG_COMPLETE) s
              else s)"

definition e1000_post_load :: "E1000State \<Rightarrow> int \<Rightarrow> int \<times> E1000State" where
  "e1000_post_load s version_id =
     (let s = (if \<not> tst (compat_flags s) E1000_FLAG_MIT
               then (mac_set ITR 0 (mac_set RDTR 0 (mac_set RADV 0 (mac_set TADV 0 s))))\<lparr>mit_irq_level := False\<rparr>
               else s);
          s = s\<lparr>mit_ide := 0, mit_timer_on := False\<rparr>;
          s = s\<lparr>nc := (nc s)\<lparr>link_down := (mac_reg s STATUS AND E1000_STATUS_LU = 0)\<rparr>\<rparr>
      in if \<not> tst (compat_flags s) E1000_FLAG_AUTONEG then (0, s)
         else if tst (phy_reg s PHY_CTRL) MII_CR_AUTO_NEG_EN \<and>
                 tst (phy_reg s PHY_CTRL) MII_CR_RESTART_AUTO_NEG \<and>
                 \<not> tst (phy_reg s PHY_STATUS) MII_SR_AUTONEG_COMPLETE
              then (0, s\<lparr>nc := (nc s)\<lparr>link_down := False\<rparr>,
                        autoneg_timer := Some (qemu_clock_get_ms s + 500)\<rparr>)
              else (0, s))"

definition e1000_mit_state_needed :: "E1000State \<Rightarrow> bool" where
  "e1000_mit_state_needed s \<longleftrightarrow> tst (compat_flags s) E1000_FLAG_MIT"

subsection \<open>The layout of the state\<close>

definition e1000_layout :: "nat \<Rightarrow> (string \<times> nat) list" where
  "e1000_layout base =
     [(''parent_obj'', 0), (''mac_reg'', base), (''phy_reg'', base + 0x20000), (''eeprom_data'', base + 0x20040),
      (''rxbuf_size'', base + 0x200c0), (''rxbuf_min_shift'', base + 0x200c4),
      (''tx.header'', base + 0x200c8), (''tx.vlan_header'', base + 0x201c8), (''tx.vlan'', base + 0x201cc),
      (''tx.data'', base + 0x201d0), (''tx.size'', base + 0x301d0), (''tx.sum_needed'', base + 0x301d2),
      (''tx.vlan_needed'', base + 0x301d3), (''tx.ipcss'', base + 0x301d4), (''tx.ipcso'', base + 0x301d5),
      (''tx.ipcse'', base + 0x301d6), (''tx.tucss'', base + 0x301d8), (''tx.tucso'', base + 0x301d9),
      (''tx.tucse'', base + 0x301da), (''tx.hdr_len'', base + 0x301dc), (''tx.mss'', base + 0x301de),
      (''tx.paylen'', base + 0x301e0), (''tx.tso_frames'', base + 0x301e4), (''tx.tse'', base + 0x301e6),
      (''tx.ip'', base + 0x301e7), (''tx.tcp'', base + 0x301e8), (''tx.cptse'', base + 0x301e9),
      (''eecd_state.val_in'', base + 0x301ec), (''eecd_state.bitnum_in'', base + 0x301f0),
      (''eecd_state.bitnum_out'', base + 0x301f2), (''eecd_state.reading'', base + 0x301f4),
      (''eecd_state.old_eecd'', base + 0x301f8), (''autoneg_timer'', base + 0x30200),
      (''mit_timer'', base + 0x30208), (''mit_timer_on'', base + 0x30210), (''mit_irq_level'', base + 0x30211),
      (''mit_ide'', base + 0x30214), (''compat_flags'', base + 0x30218)]"

definition e1000_off :: "nat \<Rightarrow> string \<Rightarrow> nat" where
  "e1000_off base name = (case map_of (e1000_layout base) name of None \<Rightarrow> 0 | Some n \<Rightarrow> n)"

subsection \<open>The tables\<close>

definition VMSTATE_PCI_DEVICE :: "VMStateDescription \<Rightarrow> nat \<Rightarrow> string \<Rightarrow> nat \<Rightarrow> VMStateField" where
  [vmstate_macros]: "VMSTATE_PCI_DEVICE vmstate_pci_device pci_sz nm off =
     VMStateField nm off pci_sz 0 0 0 0 None VMS_STRUCT (Some vmstate_pci_device) 0 None"

text \<open>
  \<^verbatim>\<open>vmstate_pci_device\<close> (\<^verbatim>\<open>hw/pci/pci.c\<close>); the two kinds of values that PCI devices add are arguments,
  and so are the offsets of the members of \<^verbatim>\<open>PCIDevice\<close>.
\<close>

definition vmstate_pci_device :: "VMStateInfo \<Rightarrow> VMStateInfo \<Rightarrow> (string \<Rightarrow> nat) \<Rightarrow> VMStateDescription" where
  "vmstate_pci_device vmstate_info_pci_config vmstate_info_pci_irq_state off =
     VMStateDescription ''PCIDevice'' 0 2 1 1 None None None None
       [VMSTATE_INT32_POSITIVE_LE ''version_id'' (off ''version_id''),
        VMSTATE_BUFFER_UNSAFE_INFO ''config'' (off ''config'') 0 vmstate_info_pci_config 256,
        VMSTATE_BUFFER_UNSAFE_INFO ''irq_state'' (off ''irq_state'') 2 vmstate_info_pci_irq_state (4 * 4)] []"

text \<open>A register; its offset is that of the array plus four bytes for each register before it.\<close>

definition mac_field :: "(string \<Rightarrow> nat) \<Rightarrow> string \<Rightarrow> nat \<Rightarrow> VMStateField" where
  "mac_field off nm r = VMSTATE_UINT32 nm (off ''mac_reg'' + 4 * r)"

definition vmstate_e1000_mit_state :: "(string \<Rightarrow> nat) \<Rightarrow> VMStateDescription" where
  "vmstate_e1000_mit_state off =
     VMStateDescription ''e1000/mit_state'' 0 1 1 1 None None None None
       [mac_field off ''mac_reg[RDTR]'' RDTR, mac_field off ''mac_reg[RADV]'' RADV,
        mac_field off ''mac_reg[TADV]'' TADV, mac_field off ''mac_reg[ITR]'' ITR,
        VMSTATE_BOOL ''mit_irq_level'' (off ''mit_irq_level'')] []"

definition e1000_fields :: "VMStateDescription \<Rightarrow> nat \<Rightarrow> (string \<Rightarrow> nat) \<Rightarrow> VMStateField list" where
  "e1000_fields pci pci_sz off =
      [VMSTATE_PCI_DEVICE pci pci_sz ''parent_obj'' (off ''parent_obj''),
       VMSTATE_UNUSED_TEST (Some (\<lambda>m. is_version_1)) 4,
       VMSTATE_UNUSED 4,
       VMSTATE_UINT32 ''rxbuf_size'' (off ''rxbuf_size''),
       VMSTATE_UINT32 ''rxbuf_min_shift'' (off ''rxbuf_min_shift''),
       VMSTATE_UINT32 ''eecd_state.val_in'' (off ''eecd_state.val_in''),
       VMSTATE_UINT16 ''eecd_state.bitnum_in'' (off ''eecd_state.bitnum_in''),
       VMSTATE_UINT16 ''eecd_state.bitnum_out'' (off ''eecd_state.bitnum_out''),
       VMSTATE_UINT16 ''eecd_state.reading'' (off ''eecd_state.reading''),
       VMSTATE_UINT32 ''eecd_state.old_eecd'' (off ''eecd_state.old_eecd''),
       VMSTATE_UINT8 ''tx.ipcss'' (off ''tx.ipcss''),
       VMSTATE_UINT8 ''tx.ipcso'' (off ''tx.ipcso''),
       VMSTATE_UINT16 ''tx.ipcse'' (off ''tx.ipcse''),
       VMSTATE_UINT8 ''tx.tucss'' (off ''tx.tucss''),
       VMSTATE_UINT8 ''tx.tucso'' (off ''tx.tucso''),
       VMSTATE_UINT16 ''tx.tucse'' (off ''tx.tucse''),
       VMSTATE_UINT32 ''tx.paylen'' (off ''tx.paylen''),
       VMSTATE_UINT8 ''tx.hdr_len'' (off ''tx.hdr_len''),
       VMSTATE_UINT16 ''tx.mss'' (off ''tx.mss''),
       VMSTATE_UINT16 ''tx.size'' (off ''tx.size''),
       VMSTATE_UINT16 ''tx.tso_frames'' (off ''tx.tso_frames''),
       VMSTATE_UINT8 ''tx.sum_needed'' (off ''tx.sum_needed''),
       VMSTATE_INT8 ''tx.ip'' (off ''tx.ip''),
       VMSTATE_INT8 ''tx.tcp'' (off ''tx.tcp''),
       VMSTATE_BUFFER ''tx.header'' (off ''tx.header'') 256,
       VMSTATE_BUFFER ''tx.data'' (off ''tx.data'') 0x10000,
       VMSTATE_UINT16_ARRAY ''eeprom_data'' (off ''eeprom_data'') 64,
       VMSTATE_UINT16_ARRAY ''phy_reg'' (off ''phy_reg'') 0x20,
       mac_field off ''mac_reg[CTRL]'' CTRL,
       mac_field off ''mac_reg[EECD]'' EECD,
       mac_field off ''mac_reg[EERD]'' EERD,
       mac_field off ''mac_reg[GPRC]'' GPRC,
       mac_field off ''mac_reg[GPTC]'' GPTC,
       mac_field off ''mac_reg[ICR]'' ICR,
       mac_field off ''mac_reg[ICS]'' ICS,
       mac_field off ''mac_reg[IMC]'' IMC,
       mac_field off ''mac_reg[IMS]'' IMS,
       mac_field off ''mac_reg[LEDCTL]'' LEDCTL,
       mac_field off ''mac_reg[MANC]'' MANC,
       mac_field off ''mac_reg[MDIC]'' MDIC,
       mac_field off ''mac_reg[MPC]'' MPC,
       mac_field off ''mac_reg[PBA]'' PBA,
       mac_field off ''mac_reg[RCTL]'' RCTL,
       mac_field off ''mac_reg[RDBAH]'' RDBAH,
       mac_field off ''mac_reg[RDBAL]'' RDBAL,
       mac_field off ''mac_reg[RDH]'' RDH,
       mac_field off ''mac_reg[RDLEN]'' RDLEN,
       mac_field off ''mac_reg[RDT]'' RDT,
       mac_field off ''mac_reg[STATUS]'' STATUS,
       mac_field off ''mac_reg[SWSM]'' SWSM,
       mac_field off ''mac_reg[TCTL]'' TCTL,
       mac_field off ''mac_reg[TDBAH]'' TDBAH,
       mac_field off ''mac_reg[TDBAL]'' TDBAL,
       mac_field off ''mac_reg[TDH]'' TDH,
       mac_field off ''mac_reg[TDLEN]'' TDLEN,
       mac_field off ''mac_reg[TDT]'' TDT,
       mac_field off ''mac_reg[TORH]'' TORH,
       mac_field off ''mac_reg[TORL]'' TORL,
       mac_field off ''mac_reg[TOTH]'' TOTH,
       mac_field off ''mac_reg[TOTL]'' TOTL,
       mac_field off ''mac_reg[TPR]'' TPR,
       mac_field off ''mac_reg[TPT]'' TPT,
       mac_field off ''mac_reg[TXDCTL]'' TXDCTL,
       mac_field off ''mac_reg[WUFC]'' WUFC,
       mac_field off ''mac_reg[VET]'' VET,
       VMSTATE_UINT32_SUB_ARRAY ''mac_reg'' (off ''mac_reg'') RA 32,
       VMSTATE_UINT32_SUB_ARRAY ''mac_reg'' (off ''mac_reg'') MTA 128,
       VMSTATE_UINT32_SUB_ARRAY ''mac_reg'' (off ''mac_reg'') VFTA 128]"

text \<open>
  The functions of the table work on the memory of the device here; they are arguments, as is the
  test of the subsection.
\<close>

definition vmstate_e1000 ::
  "(u64 \<Rightarrow> hmem \<Rightarrow> hmem option) \<Rightarrow> (u64 \<Rightarrow> int \<Rightarrow> hmem \<Rightarrow> (int \<times> hmem) option) \<Rightarrow> (hmem \<Rightarrow> u64 \<Rightarrow> bool) \<Rightarrow>
   VMStateDescription \<Rightarrow> nat \<Rightarrow> (string \<Rightarrow> nat) \<Rightarrow> VMStateDescription" where
  "vmstate_e1000 pre_save post_load mit_state_needed pci pci_sz off =
     VMStateDescription ''e1000'' 0 2 1 1 None None (Some post_load) (Some pre_save)
       (e1000_fields pci pci_sz off)
       [VMStateSubsection (vmstate_e1000_mit_state off) mit_state_needed]"

subsection \<open>What travels\<close>

definition migrated_regs :: "nat list" where
  "migrated_regs =
     [CTRL, EECD, EERD, GPRC, GPTC, ICR, ICS, IMC, IMS, LEDCTL, MANC, MDIC, MPC, PBA, RCTL,
      RDBAH, RDBAL, RDH, RDLEN, RDT, STATUS, SWSM, TCTL, TDBAH, TDBAL, TDH, TDLEN, TDT, TORH,
      TORL, TOTH, TOTL, TPR, TPT, TXDCTL, WUFC, VET] @
     [RA..<RA + 32] @ [MTA..<MTA + 128] @ [VFTA..<VFTA + 128]"

definition mit_regs :: "nat list" where
  "mit_regs = [RDTR, RADV, TADV, ITR]"

text \<open>
  The device \<open>d\<close> after the state of \<open>s\<close> has been written over it field by field, as the tables say;
  the level of the interrupt pin travels with the PCI state.
\<close>

definition e1000_transfer :: "E1000State \<Rightarrow> E1000State \<Rightarrow> E1000State" where
  "e1000_transfer s d =
     d\<lparr>rxbuf_size := rxbuf_size s, rxbuf_min_shift := rxbuf_min_shift s, eecd := eecd s,
       tx := (tx d)\<lparr>tp_ipcss := tp_ipcss (tx s), tp_ipcso := tp_ipcso (tx s), tp_ipcse := tp_ipcse (tx s),
                     tp_tucss := tp_tucss (tx s), tp_tucso := tp_tucso (tx s), tp_tucse := tp_tucse (tx s),
                     tp_paylen := tp_paylen (tx s), tp_hdr_len := tp_hdr_len (tx s), tp_mss := tp_mss (tx s),
                     tp_size := tp_size (tx s), tp_tso_frames := tp_tso_frames (tx s),
                     tp_sum_needed := tp_sum_needed (tx s), tp_ip := tp_ip (tx s), tp_tcp := tp_tcp (tx s),
                     tp_header := tp_header (tx s), tp_data := tp_data (tx s)\<rparr>,
       eeprom_data := (\<lambda>i. if i < 64 then eeprom_data s i else eeprom_data d i),
       phy_reg := (\<lambda>i. if i < 0x20 then phy_reg s i else phy_reg d i),
       mac_reg := (\<lambda>r. if r \<in> set migrated_regs \<or> e1000_mit_state_needed s \<and> r \<in> set mit_regs
                       then mac_reg s r else mac_reg d r),
       mit_irq_level := (if e1000_mit_state_needed s then mit_irq_level s else mit_irq_level d),
       pci_irq := pci_irq s\<rparr>"

subsection \<open>Register writes that may be merged\<close>

text \<open>\<^verbatim>\<open>e1000_mmio_setup\<close>: the ranges, as start and length, on which writes may be batched.\<close>

abbreviation (input) PNPMMIO_SIZE :: nat where "PNPMMIO_SIZE \<equiv> 0x20000"

abbreviation (input) E1000_MDIC :: nat where "E1000_MDIC \<equiv> 0x00020"
abbreviation (input) E1000_ICR :: nat where "E1000_ICR \<equiv> 0x000c0"
abbreviation (input) E1000_ICS :: nat where "E1000_ICS \<equiv> 0x000c8"
abbreviation (input) E1000_IMS :: nat where "E1000_IMS \<equiv> 0x000d0"
abbreviation (input) E1000_IMC :: nat where "E1000_IMC \<equiv> 0x000d8"
abbreviation (input) E1000_TCTL :: nat where "E1000_TCTL \<equiv> 0x00400"
abbreviation (input) E1000_TDT :: nat where "E1000_TDT \<equiv> 0x03818"

definition excluded_regs :: "nat list" where
  "excluded_regs = [E1000_MDIC, E1000_ICR, E1000_ICS, E1000_IMS, E1000_IMC, E1000_TCTL, E1000_TDT, PNPMMIO_SIZE]"

fun coalescing_loop :: "nat list \<Rightarrow> (nat \<times> nat) list" where
  "coalescing_loop (r # r' # rs) =
     (if r = PNPMMIO_SIZE then [] else (r + 4, r' - r - 4) # coalescing_loop (r' # rs))"
| "coalescing_loop rs = []"

definition e1000_mmio_setup :: "(nat \<times> nat) list" where
  "e1000_mmio_setup = (0, hd excluded_regs) # coalescing_loop excluded_regs"

subsection \<open>Class data\<close>

record PCIDeviceClass =
  romfile :: string
  pc_vendor_id :: u16
  pc_device_id :: u16
  pc_revision :: u8
  pc_class_id :: u16
  pc_desc :: string

definition e1000_class_init :: "PCIDeviceClass" where
  "e1000_class_init =
     \<lparr>romfile = ''efi-e1000.rom'', pc_vendor_id = 0x8086, pc_device_id = E1000_DEVID, pc_revision = 0x03,
      pc_class_id = 0x0200, pc_desc = ''Intel Gigabit Ethernet''\<rparr>"

text \<open>The default of \<^verbatim>\<open>compat_flags\<close>: both property bits are set.\<close>

definition e1000_properties :: u32 where
  "e1000_properties = set_bit 0 (set_bit 1 0)"

end
