(* ===== verification/E1000_Machine.thy ===== *)
theory E1000_Machine
  imports E1000_Mmio
begin

text \<open>
  The device in its machine: the steps that the guest, the network, the timers and the bus can make,
  and the invariant of every reachable state.
\<close>

subsection \<open>Steps\<close>

text \<open>\<^verbatim>\<open>qemu_can_send_packet\<close> for a sender whose peer is this device.\<close>

definition qemu_can_send_packet :: "E1000State \<Rightarrow> nat \<Rightarrow> bool" where
  "qemu_can_send_packet s sender \<longleftrightarrow> \<not> receive_disabled (nc s) \<and> e1000_can_receive s"

text \<open>A frame sent by the peer (\<^verbatim>\<open>qemu_send_packet_async_with_flags\<close> on the peer's side).\<close>

definition peer_send ::
  "E1000State \<Rightarrow> nat \<Rightarrow> u32 \<Rightarrow> u8 list \<Rightarrow> nat option \<Rightarrow> (int \<times> E1000State) option" where
  "peer_send s sender flags data cb =
     (case qemu_net_queue_send qemu_deliver_packet run_sent_cb qemu_can_send_packet
             (incoming_queue (nc s)) s sender flags data cb of
        None \<Rightarrow> None
      | Some (ret, queue, s) \<Rightarrow> Some (ret, s\<lparr>nc := (nc s)\<lparr>incoming_queue := queue\<rparr>\<rparr>))"

inductive e1000_step :: "E1000State \<Rightarrow> E1000State \<Rightarrow> bool" where
  step_write: "e1000_mmio_write s addr val = Some s' \<Longrightarrow> e1000_step s s'"
| step_read: "e1000_mmio_read s addr = (val, s') \<Longrightarrow> e1000_step s s'"
| step_io_read: "e1000_io_read s addr = (val, s') \<Longrightarrow> e1000_step s s'"
| step_io_write: "e1000_step s (e1000_io_write s addr val)"
| step_peer: "peer_send s sender flags data cb = Some (ret, s') \<Longrightarrow> e1000_step s s'"
| step_link: "e1000_step s (e1000_set_link_status (s\<lparr>nc := (nc s)\<lparr>link_down := b\<rparr>\<rparr>))"
| step_autoneg: "autoneg_timer s = Some t \<Longrightarrow> t \<le> qemu_clock_get_ms s \<Longrightarrow>
    e1000_step s (e1000_autoneg_timer (s\<lparr>autoneg_timer := None\<rparr>))"
| step_mit: "mit_timer s = Some t \<Longrightarrow> t \<le> qemu_clock_get_ns s \<Longrightarrow>
    e1000_step s (e1000_mit_timer (s\<lparr>mit_timer := None\<rparr>))"
| step_reset: "e1000_step s (pci_device_reset s)"
| step_tick: "e1000_step s (s\<lparr>clock_ns := clock_ns s + int n\<rparr>)"
| step_ram: "e1000_step s (s\<lparr>ram := m\<rparr>)"

inductive_cases e1000_stepE: "e1000_step s s'"

inductive e1000_reachable :: "E1000State \<Rightarrow> bool" where
  reach_init: "e1000_reachable (pci_device_reset (pci_e1000_init mac flags peer hub m))"
| reach_step: "e1000_reachable s \<Longrightarrow> e1000_step s s' \<Longrightarrow> e1000_reachable s'"

subsection \<open>The invariant\<close>

definition regs_ok :: "E1000State \<Rightarrow> bool" where
  "regs_ok s \<longleftrightarrow>
     mac_reg s RDT \<le> 0xffff \<and> mac_reg s TDH \<le> 0xffff \<and> mac_reg s TDT \<le> 0xffff \<and>
     mac_reg s ITR \<le> 0xffff \<and> mac_reg s RDTR \<le> 0xffff \<and> mac_reg s RADV \<le> 0xffff \<and>
     mac_reg s TADV \<le> 0xffff \<and> mac_reg s TDLEN \<le> 0xfff80 \<and> rdh_ok s"

definition rx_conf_ok :: "E1000State \<Rightarrow> bool" where
  "rx_conf_ok s \<longleftrightarrow> (tst (mac_reg s RCTL) E1000_RCTL_EN \<longrightarrow> 256 \<le> rxbuf_size s)"

text \<open>The part of the invariant that does not look at the queue.\<close>

definition core_inv :: "E1000State \<Rightarrow> bool" where
  "core_inv s \<longleftrightarrow> intr_inv s \<and> regs_ok s \<and> rx_conf_ok s"

definition dev_inv :: "E1000State \<Rightarrow> bool" where
  "dev_inv s \<longleftrightarrow> core_inv s \<and> queue_wf (incoming_queue (nc s))"

lemmas inv_defs = core_inv_def regs_ok_def rx_conf_ok_def

text \<open>What a change must leave alone to keep the core.\<close>

lemma core_inv_cong:
  assumes "core_inv s" and "intr_inv t" and "rdh_ok t"
    and "\<And>r. r \<in> {RDT, TDH, TDT, ITR, RDTR, RADV, TADV, TDLEN, RCTL} \<Longrightarrow> mac_reg t r = mac_reg s r"
    and "rxbuf_size t = rxbuf_size s"
  shows "core_inv t"
  using assms(1-3,5) assms(4) [of RDT] assms(4) [of TDH] assms(4) [of TDT] assms(4) [of ITR]
    assms(4) [of RDTR] assms(4) [of RADV] assms(4) [of TADV] assms(4) [of TDLEN] assms(4) [of RCTL]
  by (simp add: inv_defs)

lemma core_inv_stable: "tx_stable s t \<Longrightarrow> core_inv s \<Longrightarrow> core_inv t"
  by (rule core_inv_cong)
    (auto simp: dev_stable_def core_inv_def regs_ok_def xmit_regs_def rx_regs_def)

lemma core_inv_nc [simp]: "core_inv (s\<lparr>nc := c\<rparr>) = core_inv s"
  by (auto simp: inv_defs rdh_ok_def intr_inv_def intr_pre_def pending_def)

text \<open>The transmit head stays a 16-bit index as well.\<close>

definition tdh_ok :: "E1000State \<Rightarrow> bool" where
  "tdh_ok s \<longleftrightarrow> mac_reg s TDH \<le> 0xffff \<and> mac_reg s TDLEN \<le> 0xfff80"

lemma tdh_ok_xmit_step:
  assumes "xmit_step c s = Some (c', s')"
  shows "tdh_ok s \<longrightarrow> tdh_ok s'"
  using xmit_step_keeps [OF assms] dev_stable_reg [of _ s s' TDLEN] xmit_regs_ring
  by (simp add: tdh_ok_def ring_next_bound)

lemma tdh_ok_xmit_loop:
  assumes "xmit_loop start c s = Some (c', s')"
  shows "tdh_ok s \<longrightarrow> tdh_ok s'"
proof -
  have "tdh_ok s \<longrightarrow> tdh_ok (snd (c', s'))"
  proof (rule xmit_loop.raw_induct [where P = "\<lambda>_ _ s r. tdh_ok s \<longrightarrow> tdh_ok (snd r)", OF _ assms],
      goal_cases)
    case (1 loop start c s r)
    from 1(2) show ?case
      by (auto split: bind_splits if_splits dest!: tdh_ok_xmit_step 1(1))
  qed
  then show ?thesis by simp
qed

lemma core_inv_start_xmit:
  assumes "start_xmit s = Some s'" and "core_inv s"
  shows "core_inv s'" and "nc s' = nc s"
proof -
  have st: "ring_stable s s'" using assms(1) by (rule start_xmit_stable)
  then show "nc s' = nc s" by (simp add: dev_stable_def)
  have "tdh_ok s" using assms(2) by (simp add: core_inv_def regs_ok_def tdh_ok_def)
  then have "tdh_ok s'"
    using assms(1) tdh_ok_xmit_loop
    by (fastforce simp: start_xmit_def tdh_ok_def set_ics_mac_reg split: if_splits)
  moreover have "mac_reg s' r = mac_reg s r"
    if "r \<in> {RDT, TDT, ITR, RDTR, RADV, TADV, TDLEN, RCTL}" for r
    using dev_stable_reg [OF st, of r] that by (auto simp: xmit_regs_def rx_regs_def)
  ultimately show "core_inv s'"
    using st assms(2) by (simp add: inv_defs tdh_ok_def dev_stable_def)
qed

subsection \<open>The device as owner of its queue\<close>

lemma core_inv_fields [simp]:
  "core_inv (s\<lparr>sent_cbs := x\<rparr>) = core_inv s" "core_inv (s\<lparr>notify_count := n\<rparr>) = core_inv s"
  "core_inv (s\<lparr>hub_flushes := n\<rparr>) = core_inv s" "core_inv (s\<lparr>ram := m\<rparr>) = core_inv s"
  "core_inv (s\<lparr>clock_ns := k\<rparr>) = core_inv s" "core_inv (s\<lparr>eecd := e\<rparr>) = core_inv s"
  "core_inv (s\<lparr>phy_reg := p\<rparr>) = core_inv s" "core_inv (s\<lparr>autoneg_timer := a\<rparr>) = core_inv s"
  by (auto simp: inv_defs rdh_ok_def intr_inv_def intr_pre_def pending_def)

lemma core_inv_receive: "e1000_receive s b = Some (r, b', s') \<Longrightarrow> core_inv s \<longrightarrow> core_inv s'"
  using core_inv_stable tx_stable_receive by blast

interpretation e1000_client: queue_client qemu_deliver_packet run_sent_cb core_inv
proof
  fix s :: E1000State and sender flags data ret s'
  assume "core_inv s" and "qemu_deliver_packet s sender flags data = Some (ret, s')"
  then show "core_inv s'"
    by (auto simp: qemu_deliver_packet_def split: if_splits option.splits
        dest!: core_inv_receive)
qed (simp add: run_sent_cb_def)

text \<open>
  A device that can take frames: the receive head inside the ring and a buffer size set.  Its handler
  returns, whatever the frame and whatever the guest's memory holds.
\<close>

definition rx_ready :: "E1000State \<Rightarrow> bool" where
  "rx_ready s \<longleftrightarrow> core_inv s \<and> ring_ok (mac_reg s RDH) (mac_reg s RDLEN) \<and> 0 < rxbuf_size s"

lemma rx_ready_nc [simp]: "rx_ready (s\<lparr>nc := c\<rparr>) = rx_ready s" "rx_ready (s\<lparr>sent_cbs := x\<rparr>) = rx_ready s"
  "rx_ready (s\<lparr>hub_flushes := n\<rparr>) = rx_ready s"
  by (simp_all add: rx_ready_def)

lemma e1000_receive_returns:
  assumes "ring_ok (mac_reg s RDH) (mac_reg s RDLEN)" and "0 < rxbuf_size s"
  shows "\<exists>r b' s'. e1000_receive s b = Some (r, b', s')"
  using e1000_receive_iov_returns [OF assms, of "[b]"] by (auto simp: e1000_receive_def)

lemma rx_ready_deliver:
  assumes "rx_ready s"
  obtains ret s' where "qemu_deliver_packet s sender flags data = Some (ret, s')" and "rx_ready s'"
proof -
  obtain r b' t where t: "e1000_receive s data = Some (r, b', t)"
    using e1000_receive_returns assms unfolding rx_ready_def by blast
  have "rx_ready t"
    using assms core_inv_stable [OF tx_stable_receive [OF t]] ring_ok_receive [OF _ t]
      e1000_receive_fields(5) [OF t] by (simp add: rx_ready_def)
  then show ?thesis
    using that assms t by (cases "link_down (nc s)"; cases "receive_disabled (nc s)"; cases "r = 0")
      (simp_all add: qemu_deliver_packet_def)
qed

interpretation e1000_receiver: receiver qemu_deliver_packet run_sent_cb rx_ready
proof
  fix s :: E1000State and sender flags data
  assume "rx_ready s"
  then obtain r t where d: "qemu_deliver_packet s sender flags data = Some (r, t)" and t: "rx_ready t"
    by (rule rx_ready_deliver)
  show "qemu_deliver_packet s sender flags data \<noteq> None" by (simp add: d)
  show "rx_ready s'" if "qemu_deliver_packet s sender flags data = Some (ret, s')" for ret s'
    using that d t by simp
qed (simp add: run_sent_cb_def)

text \<open>A delivery leaves the queue itself to the caller.\<close>

lemma deliver_queue:
  "qemu_deliver_packet s sender flags data = Some (ret, s') \<Longrightarrow>
   incoming_queue (nc s') = incoming_queue (nc s)"
  by (auto simp: qemu_deliver_packet_def split: if_splits option.splits
      dest: e1000_receive_fields(1))

lemma core_inv_flush:
  assumes "qemu_flush_queued_packets s = Some s'" and "core_inv s"
  shows "core_inv s'" and "queue_wf (incoming_queue (nc s)) \<Longrightarrow> queue_wf (incoming_queue (nc s'))"
proof -
  define t where "t = (let s = s\<lparr>nc := (nc s)\<lparr>receive_disabled := False\<rparr>\<rparr>
    in if has_peer (nc s) \<and> peer_is_hubport (nc s) then s\<lparr>hub_flushes := hub_flushes s + 1\<rparr> else s)"
  have t: "core_inv t" "incoming_queue (nc t) = incoming_queue (nc s)"
    using assms(2) by (simp_all add: t_def Let_def)
  have eq: "qemu_flush_queued_packets s =
      (case qemu_net_queue_flush qemu_deliver_packet run_sent_cb (incoming_queue (nc t)) t of
         None \<Rightarrow> None
       | Some (emptied, queue, s) \<Rightarrow>
           let s = s\<lparr>nc := (nc s)\<lparr>incoming_queue := queue\<rparr>\<rparr>
           in Some (if emptied then s\<lparr>notify_count := notify_count s + 1\<rparr> else s))"
    by (simp only: qemu_flush_queued_packets_def t_def Let_def)
  obtain e q u where fl: "qemu_net_queue_flush qemu_deliver_packet run_sent_cb (incoming_queue (nc t)) t =
      Some (e, q, u)" and s': "core_inv s' = core_inv u" "incoming_queue (nc s') = q"
    using assms(1) eq by (auto simp: Let_def split: option.splits if_splits)
  show "core_inv s'" using e1000_client.flush_inv [OF fl t(1)] s'(1) by simp
  show "queue_wf (incoming_queue (nc s'))" if "queue_wf (incoming_queue (nc s))"
    using queue_wf_flush [OF _ fl] that s'(2) t(2) by simp
qed

subsection \<open>Every handler keeps the invariant\<close>

lemma and_le: "x AND m \<le> (m :: 'a::len word)"
  by (metis and.commute word_and_le1)

text \<open>The registers that the invariant speaks about.\<close>

definition inv_regs :: "nat set" where
  "inv_regs = {ICR, ICS, IMS, RDH, RDLEN, RDT, TDH, TDT, ITR, RDTR, RADV, TADV, TDLEN, RCTL}"

lemma core_inv_mac_set: "core_inv s \<Longrightarrow> r \<notin> inv_regs \<Longrightarrow> core_inv (mac_set r v s)"
  by (rule core_inv_cong [of s])
    (auto simp: core_inv_def regs_ok_def rdh_ok_def inv_regs_def intro!: intr_inv_mac_set)

lemma core_inv_16bit:
  assumes "core_inv s" and "r \<in> {RDH, RDT, TDH, TDT, ITR, RDTR, RADV, TADV}"
  shows "core_inv (mac_set r (v AND 0xffff) s)"
proof -
  have "intr_inv (mac_set r (v AND 0xffff) s)"
    using assms by (intro intr_inv_mac_set) (auto simp: core_inv_def)
  then show ?thesis using assms by (auto simp: inv_defs rdh_ok_def and_le)
qed

lemma core_inv_dlen:
  assumes "core_inv s" and "r \<in> {RDLEN, TDLEN}"
  shows "core_inv (mac_set r (v AND 0xfff80) s)"
proof -
  have "intr_inv (mac_set r (v AND 0xfff80) s)"
    using assms by (intro intr_inv_mac_set) (auto simp: core_inv_def)
  then show ?thesis using assms by (auto simp: inv_defs rdh_ok_def and_le)
qed

text \<open>A write to the transmit tail is masked before it is used; one to TCTL masks the tail again.\<close>

lemma core_inv_tctl:
  assumes "core_inv s" and "r = TCTL \<or> r = TDT"
  shows "core_inv (mac_set TDT (mac_reg (mac_set r v s) TDT AND 0xffff) (mac_set r v s))"
proof -
  have "intr_inv (mac_set TDT (mac_reg (mac_set r v s) TDT AND 0xffff) (mac_set r v s))"
    using assms by (intro intr_inv_mac_set) (auto simp: core_inv_def)
  then show ?thesis using assms by (auto simp: inv_defs rdh_ok_def and_le)
qed

lemma core_inv_rctl:
  assumes "core_inv s"
  shows "core_inv (s\<lparr>mac_reg := (mac_reg s)(RCTL := v), rxbuf_size := rxbufsize v, rxbuf_min_shift := k\<rparr>)"
proof -
  have "intr_inv (s\<lparr>mac_reg := (mac_reg s)(RCTL := v), rxbuf_size := rxbufsize v, rxbuf_min_shift := k\<rparr>)"
    using assms by (auto simp: core_inv_def elim: intr_inv_cong)
  then show ?thesis using assms rxbufsize_bounds(1) [of v] by (auto simp: inv_defs rdh_ok_def)
qed

text \<open>The interrupt operations touch no other register of the invariant.\<close>

lemma core_inv_ics: "core_inv s \<Longrightarrow> core_inv (set_ics s i v)"
  by (rule core_inv_cong [of s])
    (auto simp: core_inv_def regs_ok_def rdh_ok_def set_ics_mac_reg intro!: intr_inv_set_ics)

lemma core_inv_cause: "core_inv s \<Longrightarrow> core_inv (set_interrupt_cause s i v)"
  by (rule core_inv_cong [of s])
    (auto simp: core_inv_def regs_ok_def rdh_ok_def set_interrupt_cause_mac_reg
      intro!: intr_inv_set_interrupt_cause)

lemma core_inv_ims:
  assumes "core_inv s"
  shows "core_inv (set_imc s i v)" and "core_inv (set_ims s i v)" and "core_inv (set_icr s i v)"
    and "core_inv (snd (mac_icr_read s i))"
proof -
  have "intr_inv s" using assms by (simp add: core_inv_def)
  note i = intr_inv_causes [OF this]
  show "core_inv (set_imc s i v)" and "core_inv (set_ims s i v)"
    using assms i(3,4) unfolding set_imc_def set_ims_def
    by - (rule core_inv_cong [of s]; auto simp: core_inv_def regs_ok_def rdh_ok_def set_ics_mac_reg)+
  show "core_inv (set_icr s i v)" and "core_inv (snd (mac_icr_read s i))"
    using assms by (simp_all add: set_icr_def mac_icr_read_def core_inv_cause)
qed

lemma core_inv_link:
  "core_inv s \<Longrightarrow> core_inv (e1000_link_down s)" "core_inv s \<Longrightarrow> core_inv (e1000_link_up s)"
  by (simp_all add: e1000_link_down_def e1000_link_up_def Let_def core_inv_mac_set inv_regs_def)

lemma core_inv_mdic: "core_inv s \<Longrightarrow> core_inv (set_mdic s i v)"
proof -
  assume "core_inv s"
  moreover from this have "core_inv (set_phy_ctrl s k w)" for k w
    by (simp add: set_phy_ctrl_def Let_def core_inv_link)
  ultimately have "core_inv (snd (mdic_access s i v))"
    unfolding mdic_access_def phyreg_writeops_def Let_def by simp
  then have "core_inv (mac_set MDIC w (snd (mdic_access s i v)))" for w
    by (rule core_inv_mac_set) (simp add: inv_regs_def)
  then show ?thesis
    by (simp add: set_mdic_def Let_def case_prod_unfold core_inv_ics)
qed

subsection \<open>The dispatch tables\<close>

lemma dev_inv_total:
  assumes "dev_inv s" and "total_op f s i v = Some s'" and "core_inv (f s i v)"
    and "incoming_queue (nc (f s i v)) = incoming_queue (nc s)"
  shows "dev_inv s'"
  using assms by (auto simp: total_op_def dev_inv_def)

lemma queue_frame [simp]:
  "incoming_queue (nc (set_mdic s i v)) = incoming_queue (nc s)"
  "incoming_queue (nc (set_imc s i v)) = incoming_queue (nc s)"
  "incoming_queue (nc (set_ims s i v)) = incoming_queue (nc s)"
  "incoming_queue (nc (set_icr s i v)) = incoming_queue (nc s)"
  "incoming_queue (nc (mac_writereg s i v)) = incoming_queue (nc s)"
  "incoming_queue (qemu_format_nic_info_str c m) = incoming_queue c"
proof -
  show "incoming_queue (nc (set_mdic s i v)) = incoming_queue (nc s)"
    by (simp add: set_mdic_def mdic_access_def phyreg_writeops_def set_phy_ctrl_def e1000_link_down_def
        Let_def case_prod_unfold)
qed (simp_all add: set_imc_def set_ims_def set_icr_def mac_writereg_def qemu_format_nic_info_str_def Let_def)

lemma core_inv_writereg: "core_inv s \<Longrightarrow> r \<notin> inv_regs \<Longrightarrow> core_inv (mac_writereg s r v)"
  using core_inv_mac_set [of s r v] by (auto simp: mac_writereg_def Let_def)

lemma dev_inv_writereg:
  "dev_inv s \<Longrightarrow> total_op mac_writereg s i v = Some s' \<Longrightarrow> i \<notin> inv_regs \<Longrightarrow> dev_inv s'"
  by (auto simp: total_op_def dev_inv_def core_inv_writereg)

lemma dev_inv_16bit:
  "dev_inv s \<Longrightarrow> total_op set_16bit s i v = Some s' \<Longrightarrow>
   i \<in> {RDH, RDT, TDH, TDT, ITR, RDTR, RADV, TADV} \<Longrightarrow> dev_inv s'"
  by (auto simp: total_op_def dev_inv_def set_16bit_def core_inv_16bit)

lemma dev_inv_flush:
  assumes "qemu_flush_queued_packets t = Some s'" and "core_inv t" and "queue_wf (incoming_queue (nc t))"
  shows "dev_inv s'"
  using core_inv_flush [OF assms(1,2)] assms(3) by (simp add: dev_inv_def)

lemma dev_inv_partial:
  assumes "dev_inv s"
  shows "set_tctl s TCTL v = Some s' \<Longrightarrow> dev_inv s'" and "set_tctl s TDT v = Some s' \<Longrightarrow> dev_inv s'"
    and "set_rdt s RDT v = Some s' \<Longrightarrow> dev_inv s'" and "set_rx_control s i v = Some s' \<Longrightarrow> dev_inv s'"
proof -
  have s: "core_inv s" "queue_wf (incoming_queue (nc s))" using assms by (simp_all add: dev_inv_def)
  show "dev_inv s'" if "set_tctl s TCTL v = Some s'"
    using core_inv_start_xmit [OF that [unfolded set_tctl_def Let_def] core_inv_tctl] s
    by (simp add: dev_inv_def)
  show "dev_inv s'" if "set_tctl s TDT v = Some s'"
    using core_inv_start_xmit [OF that [unfolded set_tctl_def Let_def] core_inv_tctl] s
    by (simp add: dev_inv_def)
  have rdt: "core_inv (mac_set RDT (v AND 0xffff) s)" using s(1) by (rule core_inv_16bit) simp
  show "dev_inv s'" if "set_rdt s RDT v = Some s'"
  proof (cases "e1000_has_rxbufs (mac_set RDT (v AND 0xffff) s) 1")
    case True
    then have "qemu_flush_queued_packets (mac_set RDT (v AND 0xffff) s) = Some s'"
      using that by (simp add: set_rdt_def Let_def)
    from dev_inv_flush [OF this rdt] show ?thesis using s(2) by simp
  next
    case False
    then show ?thesis using that rdt s(2) by (auto simp: set_rdt_def Let_def dev_inv_def)
  qed
  show "dev_inv s'" if "set_rx_control s i v = Some s'"
    using dev_inv_flush [OF that [unfolded set_rx_control_def Let_def]] core_inv_rctl [OF s(1)] s(2)
    by simp
qed

lemma macreg_writeops_inv:
  assumes "macreg_writeops i = Some f" and "f s i v = Some s'" and inv: "dev_inv s"
  shows "dev_inv s'"
proof -
  have core: "core_inv s" using inv by (simp add: dev_inv_def)
  consider (reg) "f = total_op mac_writereg" "i \<notin> inv_regs"
    | (b16) "f = total_op set_16bit" "i \<in> {RDH, RDT, TDH, TDT, ITR, RDTR, RADV, TADV}"
    | (dlen) "f = total_op set_dlen" "i \<in> {RDLEN, TDLEN}"
    | (part) "f = set_tctl" "i = TCTL \<or> i = TDT" | (rdt) "f = set_rdt" "i = RDT"
    | (rctl) "f = set_rx_control"
    | (other) g where "f = total_op g" "g \<in> {set_mdic, set_ics, set_imc, set_ims, set_icr, set_eecd, set_ctrl}"
    using assms(1) unfolding macreg_writeops_def
    by (elim if_SomeE) (use that in \<open>auto simp: inv_regs_def\<close>)
  then show ?thesis
  proof cases
    case reg then show ?thesis using assms(2) inv by (auto intro: dev_inv_writereg)
  next
    case b16 then show ?thesis using assms(2) inv by (auto intro: dev_inv_16bit)
  next
    case dlen
    then show ?thesis using assms(2) inv core
      by (intro dev_inv_total [of s set_dlen i v s']) (auto simp: set_dlen_def core_inv_dlen)
  next
    case part then show ?thesis using assms(2) dev_inv_partial(1,2) [OF inv] by auto
  next
    case rdt then show ?thesis using assms(2) dev_inv_partial(3) [OF inv] by auto
  next
    case rctl then show ?thesis using assms(2) dev_inv_partial(4) [OF inv] by auto
  next
    case other
    have "core_inv (g s i v)" "incoming_queue (nc (g s i v)) = incoming_queue (nc s)"
      using other(2) core
      by (auto simp: core_inv_mdic core_inv_ics core_inv_ims set_eecd_def set_ctrl_def
          core_inv_mac_set inv_regs_def)
    then show ?thesis using assms(2) inv other(1) by (intro dev_inv_total [of s g i v s']) simp_all
  qed
qed

lemma dev_inv_mmio_write:
  "e1000_mmio_write s addr val = Some s' \<Longrightarrow> dev_inv s \<Longrightarrow> dev_inv s'"
  by (auto simp: e1000_mmio_write_def Let_def split: if_splits option.splits
      dest: macreg_writeops_inv)

lemma dev_inv_mac_set: "dev_inv s \<Longrightarrow> r \<notin> inv_regs \<Longrightarrow> dev_inv (mac_set r v s)"
  by (simp add: dev_inv_def core_inv_mac_set)

lemma macreg_readops_inv:
  assumes "macreg_readops i = Some f" and "f s i = (v, s')" and inv: "dev_inv s"
  shows "dev_inv s'"
proof -
  consider (same) "\<And>s. snd (f s i) = s" | (clr4) "f = mac_read_clr4" "i \<notin> inv_regs"
    | (clr8) "f = mac_read_clr8" "i \<notin> inv_regs" "i - 1 \<notin> inv_regs" | (icr) "f = mac_icr_read"
    using assms(1) unfolding macreg_readops_def
    by (elim if_SomeE)
      (use that in \<open>auto simp: inv_regs_def mac_readreg_def get_eecd_def flash_eerd_read_def Let_def\<close>)
  then show ?thesis
  proof cases
    case same
    from this [of s] show ?thesis using assms(2) inv by simp
  next
    case clr4 then show ?thesis using assms(2) inv by (auto simp: mac_read_clr4_def dev_inv_mac_set)
  next
    case clr8
    have "dev_inv (mac_set (i - 1) 0 (mac_set i 0 s))"
      using clr8(2,3) inv by (intro dev_inv_mac_set)
    then show ?thesis using assms(2) clr8(1) by (auto simp: mac_read_clr8_def Let_def)
  next
    case icr
    have "core_inv (snd (mac_icr_read s i))" using inv by (simp add: dev_inv_def core_inv_ims)
    then show ?thesis using assms(2) icr inv by (auto simp: dev_inv_def mac_icr_read_def)
  qed
qed

lemma dev_inv_mmio_read: "e1000_mmio_read s addr = (val, s') \<Longrightarrow> dev_inv s \<Longrightarrow> dev_inv s'"
  by (auto simp: e1000_mmio_read_def Let_def split: if_splits option.splits prod.splits
      dest: macreg_readops_inv)

subsection \<open>The other steps\<close>

lemma dev_inv_peer_send:
  assumes "peer_send s sender flags data cb = Some (ret, s')" and "dev_inv s"
  shows "dev_inv s'"
proof -
  obtain q t where send: "qemu_net_queue_send qemu_deliver_packet run_sent_cb qemu_can_send_packet
      (incoming_queue (nc s)) s sender flags data cb = Some (ret, q, t)"
    and s': "s' = t\<lparr>nc := (nc t)\<lparr>incoming_queue := q\<rparr>\<rparr>"
    using assms(1) by (auto simp: peer_send_def split: option.splits)
  have "core_inv t" using e1000_client.send_inv [OF send] assms(2) by (simp add: dev_inv_def)
  moreover have "queue_wf q" using queue_wf_send [OF _ send] assms(2) by (simp add: dev_inv_def)
  ultimately show ?thesis by (simp add: s' dev_inv_def)
qed

lemma dev_inv_link_status: "dev_inv s \<Longrightarrow> dev_inv (e1000_set_link_status (s\<lparr>nc := (nc s)\<lparr>link_down := b\<rparr>\<rparr>))"
  by (simp add: dev_inv_def e1000_set_link_status_def Let_def core_inv_link core_inv_ics)
    (simp add: e1000_link_down_def e1000_link_up_def Let_def)

lemma dev_inv_autoneg: "dev_inv s \<Longrightarrow> dev_inv (e1000_autoneg_timer (s\<lparr>autoneg_timer := None\<rparr>))"
  by (simp add: dev_inv_def e1000_autoneg_timer_def Let_def core_inv_link)
    (simp add: e1000_link_up_def Let_def)

lemma dev_inv_mit: "dev_inv s \<Longrightarrow> dev_inv (e1000_mit_timer (s\<lparr>mit_timer := None\<rparr>))"
proof -
  assume inv: "dev_inv s"
  define t where "t = s\<lparr>mit_timer := None, mit_timer_on := False\<rparr>"
  have "intr_pre t" using inv by (simp add: t_def dev_inv_def core_inv_def intr_inv_def intr_pre_def)
  define u where "u = set_interrupt_cause t 0 (mac_reg s ICR)"
  have "intr_inv u" unfolding u_def using \<open>intr_pre t\<close> by (rule intr_inv_set_interrupt_cause)
  moreover have "mac_reg u = (mac_reg s)(ICR := mac_reg s ICR, ICS := mac_reg s ICR)"
    "rxbuf_size u = rxbuf_size s" "nc u = nc s"
    by (simp_all add: u_def t_def set_interrupt_cause_mac_reg)
  ultimately have "dev_inv u" using inv by (simp add: dev_inv_def inv_defs rdh_ok_def)
  then show ?thesis by (simp add: e1000_mit_timer_def Let_def u_def t_def)
qed

lemma e1000_reset_regs:
  assumes "r \<noteq> STATUS" and "r \<noteq> RA" and "r \<noteq> RA + 1"
  shows "mac_reg (e1000_reset s) r = mac_reg_init r"
  using assms by (simp add: e1000_reset_def Let_def reset_ra_step_def upt_conv_Cons)

lemma e1000_reset_fields:
  "mit_irq_level (e1000_reset s) = False" "mit_timer_on (e1000_reset s) = False"
  "mit_timer (e1000_reset s) = None" "incoming_queue (nc (e1000_reset s)) = incoming_queue (nc s)"
  "link_down (nc (e1000_reset s)) = link_down (nc s)" "eeprom_data (e1000_reset s) = eeprom_data s"
  by (simp_all add: e1000_reset_def Let_def reset_ra_step_def upt_conv_Cons e1000_link_down_def
      qemu_format_nic_info_str_def)

lemma core_inv_reset: "core_inv (pci_device_reset s)"
proof -
  have r: "mac_reg (pci_device_reset s) r = 0" if "r \<in> inv_regs" for r
  proof -
    have "mac_reg (e1000_reset s) r = mac_reg_init r"
      using that by (intro e1000_reset_regs) (auto simp: inv_regs_def)
    then show ?thesis
      using that by (auto simp: inv_regs_def mac_reg_init_def pci_device_reset_def pci_set_irq_def)
  qed
  have "intr_inv (pci_device_reset s)"
    using r [of ICR] r [of ICS]
    by (simp add: inv_regs_def intr_inv_def intr_pre_def pending_def pci_device_reset_def pci_set_irq_def
        e1000_reset_fields)
  then show ?thesis
    using r [of RDT] r [of TDH] r [of TDT] r [of ITR] r [of RDTR] r [of RADV] r [of TADV]
      r [of TDLEN] r [of RDH] r [of RDLEN] r [of RCTL]
    by (simp add: inv_regs_def inv_defs rdh_ok_def)
qed

lemma dev_inv_reset: "queue_wf (incoming_queue (nc s)) \<Longrightarrow> dev_inv (pci_device_reset s)"
  using core_inv_reset [of s]
  by (simp add: dev_inv_def pci_device_reset_def pci_set_irq_def e1000_reset_fields)

lemma dev_inv_env:
  "dev_inv s \<Longrightarrow> dev_inv (pci_device_reset s)" "dev_inv s \<Longrightarrow> dev_inv (s\<lparr>clock_ns := k\<rparr>)"
  "dev_inv s \<Longrightarrow> dev_inv (s\<lparr>ram := m\<rparr>)"
  using dev_inv_reset by (simp_all add: dev_inv_def)

lemma dev_inv_step: "e1000_step s s' \<Longrightarrow> dev_inv s \<Longrightarrow> dev_inv s'"
  by (erule e1000_stepE)
    (auto intro: dev_inv_mmio_write dev_inv_mmio_read dev_inv_peer_send dev_inv_link_status
      dev_inv_autoneg dev_inv_mit dev_inv_env simp: e1000_io_read_def e1000_io_write_def)

text \<open>The invariant holds in every reachable state.\<close>

lemma reachable_dev_inv: "e1000_reachable s \<Longrightarrow> dev_inv s"
proof (induction rule: e1000_reachable.induct)
  case (reach_init mac flags peer hub m)
  then show ?case
    by (intro dev_inv_reset) (simp add: pci_e1000_init_def Let_def queue_wf_new)
qed (rule dev_inv_step)

end
