(* ===== verification/E1000_Identity.thy ===== *)
theory E1000_Identity
  imports E1000_Machine
begin

text \<open>
  What makes a card itself: its address, its EEPROM and its compatibility flags.  No step of the
  machine changes them, so what \<^verbatim>\<open>pci_e1000_init\<close> puts there holds for the life of the device.
\<close>

definition ident :: "E1000State \<Rightarrow> u8 list \<times> (nat \<Rightarrow> u16) \<times> u32" where
  "ident s = (macaddr s, eeprom_data s, compat_flags s)"

lemma ident_upd [simp]:
  "ident (s\<lparr>nc := c\<rparr>) = ident s" "ident (s\<lparr>mac_reg := r\<rparr>) = ident s" "ident (s\<lparr>phy_reg := p\<rparr>) = ident s"
  "ident (s\<lparr>rxbuf_size := z\<rparr>) = ident s" "ident (s\<lparr>rxbuf_min_shift := z\<rparr>) = ident s"
  "ident (s\<lparr>eecd := e\<rparr>) = ident s" "ident (s\<lparr>tx := t\<rparr>) = ident s" "ident (s\<lparr>autoneg_timer := a\<rparr>) = ident s"
  "ident (s\<lparr>mit_timer := a\<rparr>) = ident s" "ident (s\<lparr>mit_timer_on := b\<rparr>) = ident s"
  "ident (s\<lparr>mit_irq_level := b\<rparr>) = ident s" "ident (s\<lparr>mit_ide := z\<rparr>) = ident s"
  "ident (s\<lparr>ram := m\<rparr>) = ident s" "ident (s\<lparr>clock_ns := n\<rparr>) = ident s" "ident (s\<lparr>pci_irq := b\<rparr>) = ident s"
  "ident (s\<lparr>sent_packets := ps\<rparr>) = ident s" "ident (s\<lparr>notify_count := k\<rparr>) = ident s"
  "ident (s\<lparr>hub_flushes := k\<rparr>) = ident s" "ident (s\<lparr>sent_cbs := cs\<rparr>) = ident s"
  by (simp_all add: ident_def)

lemma ident_stable: "dev_stable R s t \<Longrightarrow> ident t = ident s"
  by (simp add: dev_stable_def ident_def)

lemma ident_cause [simp]: "ident (set_interrupt_cause s i v) = ident s"
  by (simp add: set_interrupt_cause_def Let_def mit_rearm_def pci_set_irq_def)

lemma ident_intr [simp]:
  "ident (set_ics s i v) = ident s"
  "ident (set_icr s i v) = ident s" "ident (set_imc s i v) = ident s" "ident (set_ims s i v) = ident s"
  "ident (e1000_mit_timer s) = ident s" "ident (e1000_link_up s) = ident s"
  "ident (e1000_link_down s) = ident s" "ident (e1000_autoneg_timer s) = ident s"
  "ident (e1000_set_link_status s) = ident s"
  by (simp_all add: Let_def set_ics_def set_icr_def set_imc_def set_ims_def e1000_mit_timer_def e1000_link_up_def e1000_link_down_def
      e1000_autoneg_timer_def e1000_set_link_status_def)

lemma ident_mdic [simp]: "ident (set_mdic s i v) = ident s"
proof -
  have "ident (snd (mdic_access s i v)) = ident s"
    by (simp add: mdic_access_def Let_def phyreg_writeops_def set_phy_ctrl_def split: option.split)
  then show ?thesis by (cases "mdic_access s i v") (simp add: set_mdic_def Let_def)
qed

interpretation ident_client: queue_client qemu_deliver_packet run_sent_cb "\<lambda>s. ident s = c" for c
proof
  fix s s' :: E1000State and sender flags data ret
  assume c: "ident s = c" and "qemu_deliver_packet s sender flags data = Some (ret, s')"
  then consider "s' = s" | r b t where "e1000_receive s data = Some (r, b, t)"
      "s' = t \<or> s' = t\<lparr>nc := (nc t)\<lparr>receive_disabled := True\<rparr>\<rparr>"
    by (auto simp: qemu_deliver_packet_def split: if_splits option.splits)
  then show "ident s' = c"
    using c by cases (auto dest!: tx_stable_receive ident_stable)
qed (simp add: run_sent_cb_def)

lemma ident_flush: "qemu_flush_queued_packets s = Some s' \<Longrightarrow> ident s' = ident s"
  by (auto simp: qemu_flush_queued_packets_def Let_def split: option.splits if_splits
      dest!: ident_client.flush_inv [where c = "ident s"])

lemma ident_peer_send: "peer_send s sender flags data cb = Some (ret, s') \<Longrightarrow> ident s' = ident s"
  by (auto simp: peer_send_def split: option.splits dest!: ident_client.send_inv [where c = "ident s"])

lemma ident_total:
  "ident (mac_writereg s i v) = ident s" "ident (set_16bit s i v) = ident s"
  "ident (set_dlen s i v) = ident s" "ident (set_eecd s i v) = ident s" "ident (set_ctrl s i v) = ident s"
  by (simp_all add: mac_writereg_def set_16bit_def set_dlen_def set_eecd_def set_ctrl_def Let_def)

lemma ident_partial:
  "set_tctl s i v = Some s' \<Longrightarrow> ident s' = ident s" "set_rdt s i v = Some s' \<Longrightarrow> ident s' = ident s"
  "set_rx_control s i v = Some s' \<Longrightarrow> ident s' = ident s"
  by (auto simp: set_tctl_def set_rdt_def set_rx_control_def Let_def split: if_splits
      dest!: start_xmit_stable ident_stable ident_flush)

lemma ident_writeops:
  assumes "macreg_writeops i = Some f" and "f s i v = Some s'"
  shows "ident s' = ident s"
proof -
  have "f \<in> total_op ` {mac_writereg, set_dlen, set_16bit, set_mdic, set_ics, set_imc, set_ims, set_icr,
      set_eecd, set_ctrl} \<union> {set_tctl, set_rdt, set_rx_control}"
    using assms(1) unfolding macreg_writeops_def by (elim if_SomeE) simp_all
  then show ?thesis
    using assms(2) by (auto simp: total_op_def ident_total dest: ident_partial)
qed

lemma ident_mmio_write: "e1000_mmio_write s addr val = Some s' \<Longrightarrow> ident s' = ident s"
  by (auto simp: e1000_mmio_write_def Let_def split: if_splits option.splits dest: ident_writeops)

lemma ident_readops:
  assumes "macreg_readops i = Some f"
  shows "ident (snd (f s i)) = ident s"
proof -
  have "f \<in> {mac_readreg, mac_read_clr8, mac_read_clr4, mac_icr_read, get_eecd, flash_eerd_read}"
    using assms(1) unfolding macreg_readops_def by (elim if_SomeE) simp_all
  then show ?thesis
    by (auto simp: mac_readreg_def mac_read_clr4_def mac_read_clr8_def mac_icr_read_def get_eecd_def
        flash_eerd_read_def Let_def)
qed

lemma ident_mmio_read: "e1000_mmio_read s addr = (val, s') \<Longrightarrow> ident s' = ident s"
  by (auto simp: e1000_mmio_read_def Let_def split: if_splits option.splits prod.splits
      dest!: ident_readops [of _ _ s])

lemma ident_reset [simp]: "ident (pci_device_reset s) = ident s"
  by (simp add: pci_device_reset_def pci_set_irq_def e1000_reset_def Let_def reset_ra_step_def
      upt_conv_Cons)

lemma ident_step: "e1000_step s s' \<Longrightarrow> ident s' = ident s"
  by (erule e1000_stepE)
    (auto simp: e1000_io_read_def e1000_io_write_def
      dest: ident_mmio_write ident_mmio_read ident_peer_send)

lemma reachable_ident:
  "e1000_reachable s \<Longrightarrow> \<exists>mac flags. ident s = (mac, eeprom_init mac, flags)"
proof (induction rule: e1000_reachable.induct)
  case (reach_init mac flags peer hub m)
  show ?case by (simp, simp add: ident_def pci_e1000_init_def Let_def)
next
  case (reach_step s s')
  then show ?case by (simp add: ident_step)
qed

end
