(* ===== verification/E1000_Tx_Stream.thy ===== *)
theory E1000_Tx_Stream
  imports E1000_Tx_Frames
begin

text \<open>
  What goes out on the wire: an untouched frame for a plain descriptor, and for TCP segmentation a
  sequence of segments whose payloads, put end to end, are the payload the guest handed over.
\<close>

subsection \<open>One segment\<close>

definition on_wire :: "E1000State \<Rightarrow> bool" where
  "on_wire s \<longleftrightarrow> \<not> loopback s \<and> \<not> link_down (nc s) \<and> has_peer (nc s)"

lemma on_wire_upd [simp]: "on_wire (s\<lparr>tx := t\<rparr>) = on_wire s" "on_wire (mac_set r v s) = on_wire s"
  "on_wire (s\<lparr>sent_packets := ps\<rparr>) = on_wire s" "on_wire (s\<lparr>mit_ide := v\<rparr>) = on_wire s"
  by (simp_all add: on_wire_def)

lemma on_wire_stable: "dev_stable R s t \<Longrightarrow> on_wire t = on_wire s"
  by (simp add: on_wire_def dev_stable_def)

text \<open>The transmit state after the header updates and checksums of a segment.\<close>

definition seg_done :: "e1000_tx \<Rightarrow> e1000_tx" where
  "seg_done tp = seg_checksums (tso_fixup tp)"

lemma seg_done_fields [simp]:
  "tp_size (seg_done tp) = tp_size tp" "tp_vlan_needed (seg_done tp) = tp_vlan_needed tp"
  "tp_hdr_len (seg_done tp) = tp_hdr_len tp" "tp_mss (seg_done tp) = tp_mss tp"
  "tp_header (seg_done tp) = tp_header tp" "tp_ipcss (seg_done tp) = tp_ipcss tp"
  "tp_ipcso (seg_done tp) = tp_ipcso tp" "tp_tucss (seg_done tp) = tp_tucss tp"
  "tp_tucso (seg_done tp) = tp_tucso tp" "tp_tse (seg_done tp) = tp_tse tp"
  "tp_cptse (seg_done tp) = tp_cptse tp" "tp_sum_needed (seg_done tp) = tp_sum_needed tp"
  by (simp_all add: seg_done_def seg_checksums_def tso_fixup_def Let_def)

lemma buf_write_read_id: "buf_write b off (buf_read b off n) = b"
  by (auto simp: buf_write_def fun_eq_iff)

lemma tx_stats_frame [simp]:
  "sent_packets (tx_stats s) = sent_packets s" "ram (tx_stats s) = ram s" "nc (tx_stats s) = nc s"
  "phy_reg (tx_stats s) = phy_reg s"
  by (simp_all add: tx_stats_def Let_def)

lemma xmit_seg_wire:
  assumes "on_wire s" and "\<not> tp_vlan_needed (tx s)"
  obtains s' where "xmit_seg s = Some s'" and "tx s' = seg_done (tx s)" and "ram s' = ram s"
    and "sent_packets s' = sent_packets s @ [buf_read (tp_data (seg_done (tx s))) 0 (unat (tp_size (tx s)))]"
    and "on_wire s'"
proof -
  let ?f = "buf_read (tp_data (seg_done (tx s))) 0 (unat (tp_size (tx s)))"
  define s' where "s' = tx_stats (s\<lparr>sent_packets := sent_packets s @ [?f], tx := seg_done (tx s)\<rparr>)"
  have "seg_restore ?f (seg_done (tx s)) = seg_done (tx s)"
    using assms(2) by (simp add: seg_restore_def buf_write_read_id)
  then have "xmit_seg s = Some s'"
    using assms by (simp add: xmit_seg_def Let_def seg_done_def [symmetric] seg_frame_def on_wire_def
        e1000_send_packet_def qemu_send_packet_def s'_def)
  then show ?thesis
    by (rule that) (use assms(1) in \<open>simp_all add: s'_def on_wire_def\<close>)
qed

text \<open>
  The header: all fields that segmentation and checksum insertion touch lie inside it, and no tag is
  to be inserted.
\<close>

definition hdr_ok :: "e1000_tx \<Rightarrow> bool" where
  "hdr_ok tp \<longleftrightarrow>
     unat (tp_ipcss tp) + 6 \<le> unat (tp_hdr_len tp) \<and> unat (tp_tucss tp) + 14 \<le> unat (tp_hdr_len tp) \<and>
     unat (tp_ipcso tp) + 2 \<le> unat (tp_hdr_len tp) \<and> unat (tp_tucso tp) + 2 \<le> unat (tp_hdr_len tp) \<and>
     \<not> tp_vlan_needed tp"

lemma hdr_ok_seg_done [simp]: "hdr_ok (seg_done tp) = hdr_ok tp"
  by (simp add: hdr_ok_def)

lemma seg_done_payload:
  assumes "hdr_ok tp" and "unat (tp_hdr_len tp) \<le> i"
  shows "tp_data (seg_done tp) i = tp_data tp i"
proof -
  have ip: "tso_ip_fixup tp i = tp_data tp i"
    using assms by (simp add: tso_ip_fixup_def Let_def hdr_ok_def buf_simps)
  have tcp: "tso_tcp_fixup tp d i = d i" for d
    using assms by (simp add: tso_tcp_fixup_def Let_def hdr_ok_def buf_simps)
  have ph: "tso_phsum tp d i = d i" for d
    using assms by (simp add: tso_phsum_def Let_def hdr_ok_def buf_simps)
  have "putsum d n (ucast (tp_tucso tp)) css cse i = d i" "putsum d n (ucast (tp_ipcso tp)) css cse i = d i"
    for d n css cse
    using assms by (intro putsum_other; simp add: hdr_ok_def)+
  then show ?thesis
    by (simp add: seg_done_def seg_checksums_def Let_def tso_fixup_def ip tcp ph)
qed


subsection \<open>Segmentation\<close>

text \<open>The payload in the buffer, behind the header.\<close>

definition tx_payload :: "E1000State \<Rightarrow> u8 list" where
  "tx_payload s = drop (unat (tp_hdr_len (tx s))) (buf_read (tp_data (tx s)) 0 (unat (tp_size (tx s))))"

lemma drop_buf_read: "drop h (buf_read b off n) = buf_read b (off + h) (n - h)"
  by (rule nth_equalityI) (simp_all add: add.assoc)

lemma buf_read_after_write:
  "buf_read (buf_write b n bs) 0 (n + length bs) = buf_read b 0 n @ bs"
  by (rule nth_equalityI) (auto simp: buf_write_def nth_append)

definition tso_conf :: "E1000State \<Rightarrow> bool" where
  "tso_conf s \<longleftrightarrow> on_wire s \<and> hdr_ok (tx s) \<and> 0 < tp_mss (tx s) \<and> unat (seg_limit s) < 65536"

lemma tso_fill_wire:
  fixes s addr bytes msh
  defines "u \<equiv> snd (tso_fill addr bytes msh s)"
  shows "sent_packets u = sent_packets s" "on_wire u = on_wire s" "hdr_ok (tx u) = hdr_ok (tx s)"
    "tp_vlan_needed (tx u) = tp_vlan_needed (tx s)" "seg_limit u = seg_limit s"
    "tp_data (tx u) = buf_write (tp_data (tx s)) (unat (tp_size (tx s))) (ram_read (ram s) addr (unat bytes))"
  by (simp_all add: u_def tso_fill_def Let_def hdr_ok_def pci_dma_read_def seg_limit_def)

lemma tso_next_wire:
  "sent_packets (tso_next s) = sent_packets s" "on_wire (tso_next s) = on_wire s"
  "hdr_ok (tx (tso_next s)) = hdr_ok (tx s)" "seg_limit (tso_next s) = seg_limit s"
  "tx_payload (tso_next s) = []"
  by (simp_all add: tso_next_def Let_def hdr_ok_def seg_limit_def tx_payload_def)

text \<open>One round: it sends the full segment or keeps the bytes.\<close>

lemma tso_round_wire:
  assumes conf: "tso_conf s" and size: "unat (tp_size (tx s)) + unat bytes \<le> unat (seg_limit s)"
  obtains s' fs where "tso_round addr bytes (seg_limit s) s = Some s'"
    and "sent_packets s' = sent_packets s @ fs" and "\<forall>f \<in> set fs. length f = unat (seg_limit s)"
    and "tso_conf s'" and "seg_limit s' = seg_limit s" and "ram s' = ram s"
    and "tp_hdr_len (tx s') = tp_hdr_len (tx s)"
    and "concat (map (drop (unat (tp_hdr_len (tx s)))) fs) @ tx_payload s' =
      drop (unat (tp_hdr_len (tx s)))
        (buf_read (tp_data (tx s)) 0 (unat (tp_size (tx s))) @ ram_read (ram s) addr (unat bytes))"
    and "unat (tp_size (tx s')) = (if unat (tp_size (tx s)) + unat bytes = unat (seg_limit s)
      then unat (tp_hdr_len (tx s)) else unat (tp_size (tx s)) + unat bytes)"
proof -
  let ?h = "unat (tp_hdr_len (tx s))" and ?sz = "unat (tp_size (tx s))"
  let ?all = "buf_read (tp_data (tx s)) 0 ?sz @ ram_read (ram s) addr (unat bytes)"
  define u where "u = snd (tso_fill addr bytes (seg_limit s) s)"
  have eq: "tso_round addr bytes (seg_limit s) s =
      (if ucast (tp_size (tx s)) + bytes = seg_limit s then map_option tso_next (xmit_seg u) else Some u)"
    by (simp add: tso_round_def u_def tso_fill_facts(1) split_beta)
  note u = tso_fill_wire [of addr bytes "seg_limit s" s, folded u_def]
    tso_fill_facts(2-4,6) [of addr bytes "seg_limit s" s, folded u_def]
  have sum: "unat (ucast (tp_size (tx s)) + bytes :: u32) = ?sz + unat bytes"
    using size conf by (simp add: unat_word_ariths tso_conf_def)
  then have sz: "unat (tp_size (tx u)) = ?sz + unat bytes"
    using size conf by (simp add: u(7) unsigned_ucast_eq take_bit_nat_eq_self tso_conf_def)
  have full: "ucast (tp_size (tx s)) + bytes = seg_limit s \<longleftrightarrow> ?sz + unat bytes = unat (seg_limit s)"
    by (simp add: word_unat_eq_iff sum)
  have all: "buf_read (tp_data (tx u)) 0 (?sz + unat bytes) = ?all"
    using buf_read_after_write [of "tp_data (tx s)" ?sz "ram_read (ram s) addr (unat bytes)"] by (simp add: u(6))
  show ?thesis
  proof (cases "?sz + unat bytes = unat (seg_limit s)")
    case True
    have "on_wire u" "hdr_ok (tx u)" using conf by (simp_all add: u tso_conf_def)
    moreover from this(2) have "\<not> tp_vlan_needed (tx u)" by (simp add: hdr_ok_def)
    ultimately obtain v where v: "xmit_seg u = Some v" "tx v = seg_done (tx u)" "ram v = ram u" "on_wire v"
      "sent_packets v = sent_packets u @ [buf_read (tp_data (seg_done (tx u))) 0 (unat (tp_size (tx u)))]"
      using xmit_seg_wire by metis
    let ?f = "buf_read (tp_data (seg_done (tx u))) 0 (unat (tp_size (tx u)))"
    have "drop ?h ?f = drop ?h ?all"
      unfolding all [symmetric] drop_buf_read sz
      using seg_done_payload [OF \<open>hdr_ok (tx u)\<close>] by (intro nth_equalityI) (simp_all add: u)
    moreover have "unat (tp_hdr_len (tx s)) < unat (seg_limit s)" "0 < tp_mss (tx s)"
      using conf by (auto simp: unat_seg_limit tso_conf_def unat_gt_0)
    moreover have "seg_limit v = seg_limit s" by (simp add: seg_limit_def v(2) u(8,9))
    ultimately show ?thesis
      using conf True full v \<open>hdr_ok (tx u)\<close>
      by (intro that [of "tso_next v" "[?f]"])
        (simp_all add: eq u(1,8-10) sz tso_conf_def tso_next_wire)
  next
    case False
    then show ?thesis
      using conf size full all
      by (intro that [of u "[]"]) (simp_all add: eq u(1-5,8-10) sz tso_conf_def tx_payload_def)
  qed
qed


text \<open>The whole loop.\<close>

lemma tso_loop_wire:
  assumes "tso_conf s" and "unat (tp_size (tx s)) < unat (seg_limit s)" and "unat split_size < 65536"
  shows "\<exists>s' fs. tso_loop addr split_size (seg_limit s) s = Some s' \<and>
    sent_packets s' = sent_packets s @ fs \<and> (\<forall>f \<in> set fs. length f = unat (seg_limit s)) \<and>
    concat (map (drop (unat (tp_hdr_len (tx s)))) fs) @ tx_payload s' =
      drop (unat (tp_hdr_len (tx s)))
        (buf_read (tp_data (tx s)) 0 (unat (tp_size (tx s))) @ ram_read (ram s) addr (unat split_size))"
  using assms
proof (induction "unat split_size" arbitrary: addr split_size s rule: less_induct)
  case less
  let ?h = "unat (tp_hdr_len (tx s))" and ?sz = "unat (tp_size (tx s))"
  let ?buf = "buf_read (tp_data (tx s)) 0 ?sz"
  define bytes where "bytes = tso_bytes (tp_size (tx s)) split_size (seg_limit s)"
  have b: "unat bytes = min (unat split_size) (unat (seg_limit s) - ?sz)"
    using unat_tso_bytes [of "tp_size (tx s)" "seg_limit s" split_size] less.prems
    by (auto simp: bytes_def tso_conf_def)
  have "?sz + unat bytes \<le> unat (seg_limit s)" using b less.prems(2) by simp
  then obtain t fs where round: "tso_round addr bytes (seg_limit s) s = Some t"
    and fs: "sent_packets t = sent_packets s @ fs" "\<forall>f \<in> set fs. length f = unat (seg_limit s)"
    and t: "tso_conf t" "seg_limit t = seg_limit s" "ram t = ram s" "tp_hdr_len (tx t) = tp_hdr_len (tx s)"
    and pay: "concat (map (drop ?h) fs) @ tx_payload t = drop ?h (?buf @ ram_read (ram s) addr (unat bytes))"
    and sz: "unat (tp_size (tx t)) = (if ?sz + unat bytes = unat (seg_limit s) then ?h else ?sz + unat bytes)"
    using tso_round_wire [OF less.prems(1)] by metis
  have unfold: "tso_loop addr split_size (seg_limit s) s =
      (if split_size - bytes \<noteq> 0 then tso_loop (addr + ucast bytes) (split_size - bytes) (seg_limit t) t
       else Some t)"
    by (subst tso_loop.simps) (simp add: round t(2) bytes_def [symmetric] Let_def)
  have left: "unat (split_size - bytes) = unat split_size - unat bytes"
    using b by (intro unat_sub) (simp add: word_le_nat_alt)
  show ?case
  proof (cases "unat bytes = unat split_size")
    case True
    then have "split_size - bytes = 0" using left by (metis diff_self_eq_0 unat_eq_zero)
    then have "tso_loop addr split_size (seg_limit s) s = Some t" by (simp only: unfold) simp
    then show ?thesis using fs pay True by (intro exI [of _ t] exI [of _ fs]) simp
  next
    case False
    then have full: "?sz + unat bytes = unat (seg_limit s)" and pos: "0 < unat bytes"
      using b less.prems(2) by (auto simp: min_def split: if_splits)
    then have size: "unat (tp_size (tx t)) = ?h" using sz by simp
    have "?h < unat (seg_limit t)"
      using t(1) t(4) by (auto simp: unat_seg_limit tso_conf_def unat_gt_0)
    moreover have smaller: "unat (split_size - bytes) < unat split_size" using left pos b by simp
    ultimately obtain s' gs where
      rest: "tso_loop (addr + ucast bytes) (split_size - bytes) (seg_limit t) t = Some s'"
        "sent_packets s' = sent_packets t @ gs" "\<forall>f \<in> set gs. length f = unat (seg_limit t)"
        "concat (map (drop ?h) gs) @ tx_payload s' =
          drop ?h (buf_read (tp_data (tx t)) 0 ?h @ ram_read (ram s) (addr + ucast bytes) (unat split_size - unat bytes))"
      using less.hyps [OF smaller t(1), of "addr + ucast bytes"] less.prems(3)
      unfolding left size t(3,4) by auto
    have "tx_payload t = []" by (simp add: tx_payload_def t(4) size)
    moreover have "?h \<le> ?sz + unat bytes" using full by (simp add: unat_seg_limit)
    moreover have "ram_read (ram s) addr (unat split_size) =
        ram_read (ram s) addr (unat bytes) @ ram_read (ram s) (addr + ucast bytes) (unat split_size - unat bytes)"
    proof -
      have "unat bytes \<le> unat split_size" using b by simp
      then show ?thesis
        using guest_ram.rd_add [of "ram s" addr "unat bytes" "unat split_size - unat bytes"] by simp
    qed
    moreover have "unat (split_size - bytes) \<noteq> 0" using left False b by simp
    then have "split_size - bytes \<noteq> 0" by (metis unat_0)
    then have "tso_loop addr split_size (seg_limit s) s = Some s'" by (simp only: unfold rest(1)) simp
    ultimately show ?thesis
      using rest(2-4) fs pay t by (intro exI [of _ s'] exI [of _ "fs @ gs"]) auto
  qed
qed


subsection \<open>A plain frame\<close>

text \<open>A legacy descriptor that is a whole packet.\<close>

definition plain_desc :: "E1000State \<Rightarrow> u8 list \<Rightarrow> bool" where
  "plain_desc s d \<longleftrightarrow>
     \<not> tst (tx_desc_lower d) E1000_TXD_CMD_DEXT \<and> tst (tx_desc_lower d) E1000_TXD_CMD_EOP \<and>
     \<not> (vlan_enabled s \<and> is_vlan_txd (tx_desc_lower d))"

lemma plain_frame_wire:
  assumes "on_wire s" and "plain_desc s d" and "tp_size (tx s) = 0" and "tp_sum_needed (tx s) = 0"
    and "\<not> tp_vlan_needed (tx s)"
  shows "\<exists>s'. process_tx_desc s d = Some s' \<and> tp_size (tx s') = 0 \<and>
    sent_packets s' = sent_packets s @
      [ram_read (ram s) (tx_desc_addr d) (unat (tx_desc_lower d AND 0xffff))]"
proof -
  define n where "n = tx_desc_lower d AND 0xffff"
  have n: "unat n < 65536" using unat_and_mask16 [of "tx_desc_lower d"] by (simp add: n_def)
  have dext: "(x AND (a OR b)) AND a = x AND a" "(a OR b) AND a = a" for x a b :: u32
    by (auto intro: bit_word_eqI simp: bit_simps)
  have "tx_desc_lower d AND E1000_TXD_CMD_DEXT = 0" "E1000_TXD_CMD_DEXT \<noteq> 0"
    using assms(2) by (simp_all add: plain_desc_def E1000_TXD_CMD_DEXT_def)
  then have "tx_desc_lower d AND (E1000_TXD_CMD_DEXT OR E1000_TXD_DTYP_D) \<noteq> E1000_TXD_CMD_DEXT"
    "tx_desc_lower d AND (E1000_TXD_CMD_DEXT OR E1000_TXD_DTYP_D) \<noteq> E1000_TXD_CMD_DEXT OR E1000_TXD_DTYP_D"
    using dext by (metis and.idem)+
  then have nctx: "\<not> is_context d" and prep: "tx_vlan_setup (tx_setup s d) d =
      s\<lparr>mit_ide := mit_ide s OR (tx_desc_lower d AND E1000_TXD_CMD_IDE), tx := (tx s)\<lparr>tp_cptse := False\<rparr>\<rparr>"
    using assms(2)
    by (auto simp: is_context_def tx_setup_def tx_vlan_setup_def Let_def plain_desc_def vlan_enabled_def)
  define t where "t = s\<lparr>mit_ide := mit_ide s OR (tx_desc_lower d AND E1000_TXD_CMD_IDE),
    tx := (tx s)\<lparr>tp_cptse := False, tp_data := buf_write (tp_data (tx s)) 0 (ram_read (ram s) (tx_desc_addr d) (unat n)),
      tp_size := ucast n\<rparr>\<rparr>"
  have "n \<le> 0x10000" using n by (simp add: word_le_nat_alt)
  then have data: "tx_data (tx_vlan_setup (tx_setup s d) d) d = Some t"
    unfolding prep by (simp add: tx_data_def Let_def assms(3) n_def [symmetric] t_def min_def pci_dma_read_def)
  have size: "unat (tp_size (tx t)) = unat n"
    using n by (simp add: t_def unsigned_ucast_eq take_bit_nat_eq_self)
  have "seg_done (tx t) = tx t"
    using assms(4) by (simp add: t_def seg_done_def tso_fixup_def seg_checksums_def Let_def)
  moreover have "on_wire t" "\<not> tp_vlan_needed (tx t)" using assms(1,5) by (simp_all add: t_def)
  ultimately obtain u where "xmit_seg t = Some u"
    and "sent_packets u = sent_packets t @ [buf_read (tp_data (tx t)) 0 (unat (tp_size (tx t)))]"
    using xmit_seg_wire by metis
  moreover have "buf_read (tp_data (tx t)) 0 (unat n) = ram_read (ram s) (tx_desc_addr d) (unat n)"
    by (simp add: t_def buf_read_write)
  ultimately show ?thesis
    using assms(2) by (simp add: process_tx_desc_eq nctx data tx_eop_def plain_desc_def n_def size)
      (simp add: t_def n_def)
qed

end
