(* ===== verification/E1000_Scatter.thy ===== *)
theory E1000_Scatter
  imports E1000_Receive
begin

text \<open>
  A received frame over as many buffers as it needs: the descriptors of the ring from the head on, the
  part of the frame each of them gets, and how it is handed back.
\<close>

subsection \<open>Descriptors and parts\<close>

text \<open>The head after \<open>j\<close> descriptors, its place in memory and the descriptor there.\<close>

definition rx_head :: "E1000State \<Rightarrow> nat \<Rightarrow> u32" where
  "rx_head s j = ((\<lambda>h. ring_next h (mac_reg s RDLEN)) ^^ j) (mac_reg s RDH)"

definition rx_slot :: "E1000State \<Rightarrow> nat \<Rightarrow> u64" where
  "rx_slot s j = rx_desc_base s + 16 * ucast (rx_head s j)"

definition rx_slot_desc :: "E1000State \<Rightarrow> nat \<Rightarrow> e1000_rx_desc" where
  "rx_slot_desc s j = rx_desc_decode (ram_read (ram s) (rx_slot s j) 16)"

abbreviation rx_slot_addr :: "E1000State \<Rightarrow> nat \<Rightarrow> u64" where
  "rx_slot_addr s j \<equiv> rx_buffer_addr (rx_slot_desc s j)"

text \<open>The part of the payload that goes to the buffer of descriptor \<open>j\<close>, of \<open>n\<close> bytes.\<close>

definition rx_part :: "nat \<Rightarrow> u8 list \<Rightarrow> nat \<Rightarrow> u8 list" where
  "rx_part n P j = take n (drop (j * n) P)"

text \<open>Regions of guest memory without a common byte.\<close>

definition ram_apart :: "u64 \<Rightarrow> nat \<Rightarrow> u64 \<Rightarrow> nat \<Rightarrow> bool" where
  "ram_apart a m b n \<longleftrightarrow> (\<forall>i<m. \<forall>j<n. a + of_nat i \<noteq> b + of_nat j)"

text \<open>The first \<open>k\<close> descriptors and their buffers do not overlap.\<close>

definition rx_ring_apart :: "E1000State \<Rightarrow> nat \<Rightarrow> bool" where
  "rx_ring_apart s k \<longleftrightarrow>
     (\<forall>i<k. \<forall>j<k.
        ram_apart (rx_slot_addr s i) (unat (rxbuf_size s)) (rx_slot s j) 16 \<and>
        (i \<noteq> j \<longrightarrow> ram_apart (rx_slot s i) 16 (rx_slot s j) 16 \<and>
          ram_apart (rx_slot_addr s i) (unat (rxbuf_size s)) (rx_slot_addr s j) (unat (rxbuf_size s))))"

subsection \<open>Memory after \<open>j\<close> descriptors\<close>

primrec rx_mem :: "u16 \<Rightarrow> u8 \<Rightarrow> nat \<Rightarrow> u8 list \<Rightarrow> E1000State \<Rightarrow> nat \<Rightarrow> u64 \<Rightarrow> u8" where
  "rx_mem spec st tot P s 0 = ram s"
| "rx_mem spec st tot P s (Suc j) =
     (let n = unat (rxbuf_size s)
      in ram_write (ram_write (rx_mem spec st tot P s j) (rx_slot_addr s j) (rx_part n P j)) (rx_slot s j)
           (rx_desc_encode (rx_filled_desc spec st (tot - j * n) n (rx_slot_desc s j))))"

abbreviation rx_after :: "u16 \<Rightarrow> u8 \<Rightarrow> nat \<Rightarrow> u8 list \<Rightarrow> E1000State \<Rightarrow> nat \<Rightarrow> E1000State" where
  "rx_after spec st tot P s j \<equiv> s\<lparr>ram := rx_mem spec st tot P s j, mac_reg := (mac_reg s)(RDH := rx_head s j)\<rparr>"

lemma length_rx_part: "length (rx_part n P j) \<le> n"
  by (simp add: rx_part_def)

lemma ram_apart_read:
  assumes "ram_apart b n a l" and "length bs \<le> n"
  shows "ram_read (ram_write m b bs) a l = ram_read m a l"
  using assms unfolding ram_apart_def by (intro guest_ram.rd_wr_disjoint) (metis less_le_trans)

lemma ram_apart_sym: "ram_apart a m b n \<Longrightarrow> ram_apart b n a m"
  by (force simp: ram_apart_def)

text \<open>A region that no descriptor from \<open>i\<close> on touches.\<close>

lemma rx_mem_keeps:
  assumes "\<And>j. i \<le> j \<Longrightarrow> j < k \<Longrightarrow> ram_apart (rx_slot_addr s j) (unat (rxbuf_size s)) a l \<and> ram_apart (rx_slot s j) 16 a l"
    and "i \<le> k"
  shows "ram_read (rx_mem spec st tot P s k) a l = ram_read (rx_mem spec st tot P s i) a l"
  using assms
proof (induction k)
  case (Suc k)
  show ?case
  proof (cases "i = Suc k")
    case False
    then have "i \<le> k" and ap: "ram_apart (rx_slot_addr s k) (unat (rxbuf_size s)) a l" "ram_apart (rx_slot s k) 16 a l"
      using Suc.prems by auto
    then show ?thesis
      using Suc ram_apart_read [OF ap(1) length_rx_part] ram_apart_read [OF ap(2), of "rx_desc_encode d" for d]
      by (simp add: Let_def)
  qed simp
qed simp

text \<open>The descriptors ahead are still the driver's.\<close>

lemma rx_mem_ahead:
  assumes "rx_ring_apart s k" and "j \<le> i" and "i < k"
  shows "ram_read (rx_mem spec st tot P s j) (rx_slot s i) 16 = ram_read (ram s) (rx_slot s i) 16"
  using rx_mem_keeps [of 0 j s "rx_slot s i" 16 spec st tot P] assms by (auto simp: rx_ring_apart_def)

text \<open>What was stored stays.\<close>

lemma rx_mem_stored:
  assumes "rx_ring_apart s k" and "j < k"
  shows "ram_read (rx_mem spec st tot P s k) (rx_slot_addr s j) (length (rx_part (unat (rxbuf_size s)) P j)) =
      rx_part (unat (rxbuf_size s)) P j"
    and "rx_desc_decode (ram_read (rx_mem spec st tot P s k) (rx_slot s j) 16) =
      rx_filled_desc spec st (tot - j * unat (rxbuf_size s)) (unat (rxbuf_size s)) (rx_slot_desc s j)"
proof -
  let ?n = "unat (rxbuf_size s)"
  let ?l = "length (rx_part ?n P j)"
  have le: "?l \<le> ?n" "?l \<le> 2 ^ 64" using length_rx_part [of ?n P j] u32_bound [of "rxbuf_size s"] by simp_all
  have ap: "ram_apart (rx_slot_addr s i) ?n (rx_slot s j) 16" if "i < k" for i
    using assms that by (simp add: rx_ring_apart_def)
  have sub: "ram_apart b m a ?n \<Longrightarrow> ram_apart b m a ?l" for a b m using le(1) by (auto simp: ram_apart_def)
  have far: "ram_apart (rx_slot_addr s i) ?n (rx_slot_addr s j) ?l \<and> ram_apart (rx_slot s i) 16 (rx_slot_addr s j) ?l"
    if "i < k" "i \<noteq> j" for i
    using assms that by (auto simp: rx_ring_apart_def intro!: sub intro: ram_apart_sym)
  have "ram_read (rx_mem spec st tot P s k) (rx_slot_addr s j) ?l =
      ram_read (rx_mem spec st tot P s (Suc j)) (rx_slot_addr s j) ?l"
    using assms far by (intro rx_mem_keeps) auto
  also have "\<dots> = rx_part ?n P j"
    using ram_apart_read [OF sub [OF ram_apart_sym [OF ap [OF assms(2)]]], of "rx_desc_encode d" for d]
      guest_ram.rd_wr_same [OF le(2)] by (simp add: Let_def)
  finally show "ram_read (rx_mem spec st tot P s k) (rx_slot_addr s j) ?l = rx_part ?n P j" .
  have "ram_read (rx_mem spec st tot P s k) (rx_slot s j) 16 = ram_read (rx_mem spec st tot P s (Suc j)) (rx_slot s j) 16"
    using assms by (intro rx_mem_keeps) (auto simp: rx_ring_apart_def)
  also have "\<dots> = rx_desc_encode (rx_filled_desc spec st (tot - j * ?n) ?n (rx_slot_desc s j))"
    using guest_ram.rd_wr_same [of "rx_desc_encode d" for d] by (simp add: Let_def)
  finally show "rx_desc_decode (ram_read (rx_mem spec st tot P s k) (rx_slot s j) 16) =
      rx_filled_desc spec st (tot - j * ?n) ?n (rx_slot_desc s j)" by (simp add: rx_desc_roundtrip)
qed

subsection \<open>The loop\<close>

lemma rx_head_Suc: "rx_head s (Suc j) = ring_next (rx_head s j) (mac_reg s RDLEN)"
  by (simp add: rx_head_def)

lemma rx_desc_loop_scatter:
  assumes "rx_ring_apart s k" and "\<forall>j<k. rx_slot_addr s j \<noteq> 0 \<and> rx_head s (Suc j) \<noteq> mac_reg s RDH"
    and "0 < unat (rxbuf_size s)" and "length P \<le> tot"
    and "(k - 1) * unat (rxbuf_size s) < tot" and "tot \<le> k * unat (rxbuf_size s)"
    and "j < k" and "rx_pos P (j * unat (rxbuf_size s)) iov ofs"
  shows "rx_desc_loop (length P) tot spec st (mac_reg s RDH) iov ofs (j * unat (rxbuf_size s)) (rx_after spec st tot P s j) =
    Some (False, rx_after spec st tot P s k)"
  using assms(7,8)
proof (induction "k - j" arbitrary: j iov ofs)
  case (Suc x)
  let ?n = "unat (rxbuf_size s)" and ?t = "rx_after spec st tot P s j"
  have base: "rx_cur_base ?t = rx_slot s j" by (simp add: rx_cur_base_def rx_slot_def rx_desc_base_def)
  have desc: "rx_cur_desc ?t = rx_slot_desc s j"
    using rx_mem_ahead [OF assms(1) order_refl Suc.prems(1)]
    by (simp add: rx_cur_desc_def base pci_dma_read_def rx_slot_desc_def)
  have "j * ?n \<le> (k - 1) * ?n" using Suc.prems(1) by (intro mult_right_mono) auto
  then have off: "j * ?n < tot" using assms(5) by (rule le_less_trans)
  obtain iov' ofs' where step: "rx_desc_step (length P) tot spec st iov ofs (j * ?n) ?t =
      Some (iov', ofs', j * ?n + min (tot - j * ?n) ?n, rx_after spec st tot P s (Suc j))"
    "rx_pos P (j * ?n + min (tot - j * ?n) ?n) iov' ofs'"
    using rx_desc_step_fills [where s = ?t and off = "j * ?n", OF _ Suc.prems(2) _ assms(4), of spec st] assms(2,3) Suc.prems(1)
    by (auto simp: base desc rx_part_def Let_def rx_head_Suc)
  show ?case
  proof (cases "Suc j = k")
    case True
    then have "j * ?n + min (tot - j * ?n) ?n = tot" using assms(6) off by auto
    then show ?thesis using step(1) assms(2) Suc.prems(1) True by (subst rx_desc_loop.simps) auto
  next
    case False
    then have "Suc j \<le> k - 1" using Suc.prems(1) by simp
    then have "Suc j * ?n \<le> (k - 1) * ?n" by (rule mult_right_mono) simp
    then have lt: "Suc j * ?n < tot" using assms(5) by (rule le_less_trans)
    then have eq: "j * ?n + min (tot - j * ?n) ?n = Suc j * ?n" by simp
    have "rx_desc_loop (length P) tot spec st (mac_reg s RDH) iov' ofs' (Suc j * ?n) (rx_after spec st tot P s (Suc j)) =
        Some (False, rx_after spec st tot P s k)"
      using Suc.hyps Suc.prems(1) False step(2) eq by (intro Suc.hyps(1)) auto
    then show ?thesis using step(1) eq lt assms(2) Suc.prems(1) by (subst rx_desc_loop.simps) (simp add: add.commute)
  qed
qed simp

text \<open>The parts make up the payload.\<close>

lemma concat_parts: "length P \<le> k * n \<Longrightarrow> concat (map (rx_part n P) [0..<k]) = P"
proof -
  have "concat (map (rx_part n P) [0..<k]) = take (k * n) P"
    by (induction k) (simp_all add: rx_part_def add.commute flip: take_add)
  then show "length P \<le> k * n \<Longrightarrow> ?thesis" by simp
qed

text \<open>Regions in the order of their addresses.\<close>

lemma ram_apart_ordered: "unat a + m \<le> unat b \<Longrightarrow> unat b + n \<le> 2 ^ 64 \<Longrightarrow> ram_apart a m b n"
proof -
  assume *: "unat a + m \<le> unat b" "unat b + n \<le> 2 ^ 64"
  have "unat (a + of_nat i) = unat a + i" if "i < m" for i
    using * that by (simp add: unat_word_ariths unsigned_of_nat take_bit_nat_eq_self)
  moreover have "unat (b + of_nat j) = unat b + j" if "j < n" for j
    using * that by (simp add: unat_word_ariths unsigned_of_nat take_bit_nat_eq_self)
  ultimately show ?thesis unfolding ram_apart_def using * by (metis add_less_cancel_left leD le_add1 le_trans)
qed

end
