(* ===== verification/E1000_Example.thy ===== *)
theory E1000_Example
  imports E1000_Identity E1000_Tx_Stream E1000_Scatter
begin

text \<open>
  Concrete devices on which the properties are instantiated: the device after power-on, and one that a
  driver has set up for receiving and for transmitting.
\<close>

definition dev0 :: E1000State where
  "dev0 = pci_device_reset (pci_e1000_init [0x52, 0x54, 0, 0x12, 0x34, 0x56] 3 True False (\<lambda>_. 0))"

lemma reach_dev0: "e1000_reachable dev0"
  unfolding dev0_def by (rule reach_init)

lemma reach_write:
  "e1000_reachable s \<Longrightarrow> e1000_mmio_write s a v = Some s' \<Longrightarrow> e1000_reachable s'"
  by (blast intro: reach_step step_write)

lemma dev0_fields [simp]:
  "mit_irq_level dev0 = False" "mit_timer_on dev0 = False" "mit_timer dev0 = None"
  "link_down (nc dev0) = False" "has_peer (nc dev0) = True" "rxbuf_size dev0 = 0"
  "macaddr dev0 = [0x52, 0x54, 0, 0x12, 0x34, 0x56]" "compat_flags dev0 = 3"
  "clock_ns dev0 = 0" "mit_ide dev0 = 0" "pci_irq dev0 = False"
  "peer_is_hubport (nc dev0) = False" "incoming_queue (nc dev0) = qemu_new_net_queue"
  "phy_reg dev0 = phy_reg_init" "tx dev0 = tx_zero" "sent_packets dev0 = []" "ram dev0 = (\<lambda>_. 0)"
  by (simp_all add: dev0_def pci_device_reset_def pci_set_irq_def e1000_reset_def Let_def
      reset_ra_step_def upt_conv_Cons pci_e1000_init_def qemu_format_nic_info_str_def)

lemma dev0_reg: "r \<noteq> STATUS \<Longrightarrow> r \<noteq> RA \<Longrightarrow> r \<noteq> RA + 1 \<Longrightarrow> mac_reg dev0 r = mac_reg_init r"
  by (simp add: dev0_def pci_device_reset_def pci_set_irq_def e1000_reset_regs)

lemma dev0_link: "mac_reg dev0 STATUS = mac_reg_init STATUS"
  by (simp add: dev0_def pci_device_reset_def pci_set_irq_def e1000_reset_def Let_def
      reset_ra_step_def upt_conv_Cons pci_e1000_init_def qemu_format_nic_info_str_def)

lemma dev0_regs [simp]:
  "mac_reg dev0 IMS = 0" "mac_reg dev0 ICR = 0" "mac_reg dev0 ITR = 0" "mac_reg dev0 RDH = 0"
  "mac_reg dev0 RDLEN = 0" "mac_reg dev0 RDBAL = 0" "mac_reg dev0 RDBAH = 0" "mac_reg dev0 TDH = 0"
  "mac_reg dev0 TDBAL = 0" "mac_reg dev0 TDBAH = 0" "mac_reg dev0 VET = 0" "mac_reg dev0 TADV = 0"
  "mac_reg dev0 RDTR = 0" "mac_reg dev0 RADV = 0"
  by (simp_all add: dev0_reg mac_reg_init_def)

lemma mmio_write_ims: "e1000_mmio_write s 0xd0 v = Some (set_ims s IMS (ucast v))"
  by (simp add: e1000_mmio_write_def mmio_index_def macreg_writeops_def total_op_def)

lemma mmio_write_ics: "e1000_mmio_write s 0xc8 v = Some (set_ics s ICS (ucast v))"
  by (simp add: e1000_mmio_write_def mmio_index_def macreg_writeops_def total_op_def)

lemma mmio_write_itr: "e1000_mmio_write s 0xc4 v = Some (set_16bit s ITR (ucast v))"
  by (simp add: e1000_mmio_write_def mmio_index_def macreg_writeops_def total_op_def)

lemma mmio_read_icr: "e1000_mmio_read s 0xc0 = (ucast (mac_reg s ICR), set_interrupt_cause s 0 0)"
  by (simp add: e1000_mmio_read_def mmio_index_def macreg_readops_def mac_icr_read_def)

text \<open>Mitigation: one interrupt has been raised and acknowledged, and the window it opened is running.\<close>

lemma reach_itr: "e1000_reachable (set_16bit (set_ims dev0 IMS 4) ITR 100)"
proof -
  have "e1000_reachable (set_ims dev0 IMS 4)" using reach_write [OF reach_dev0 mmio_write_ims, of 4] by simp
  from reach_write [OF this mmio_write_itr, of 100] show ?thesis by simp
qed

definition dev_mit :: E1000State where
  "dev_mit = dev0\<lparr>mac_reg := (mac_reg dev0)(ICR := 0, ICS := 0, IMS := 4, ITR := 100),
     mit_timer := Some 25600, mit_timer_on := True, mit_irq_level := False, mit_ide := 0,
     pci_irq := False\<rparr>"

lemma reach_dev_mit: "e1000_reachable dev_mit"
proof -
  let ?s = "set_16bit (set_ims dev0 IMS 4) ITR 100"
  have "e1000_reachable (set_ics ?s ICS 4)"
    using reach_write [OF reach_itr mmio_write_ics, of 4] by simp
  then have "e1000_reachable (set_interrupt_cause (set_ics ?s ICS 4) 0 0)"
    by (rule reach_step) (rule step_read, rule mmio_read_icr)
  also have "set_interrupt_cause (set_ics ?s ICS 4) 0 0 = dev_mit"
    by (simp add: set_ims_def set_ics_def set_16bit_def set_interrupt_cause_def Let_def
        pci_set_irq_def mit_rearm_def mit_delay_def mit_update_delay_def E1000_DEVID_def e1000_mask
        dev_mit_def qemu_clock_get_ns_def fun_upd_twist)
  finally show ?thesis .
qed

text \<open>
  A receiver: promiscuous, one ring of eight descriptors at address 0, the first with a buffer at
  \<^verbatim>\<open>0x1000\<close>.
\<close>

definition dev_rx :: E1000State where
  "dev_rx = dev0\<lparr>mac_reg := (mac_reg dev0)(RCTL := 0xA, RDLEN := 0x80, RDT := 4),
      rxbuf_size := 2048, ram := ram_write (\<lambda>_. 0) 0 (bytes_le 8 (0x1000 :: u64))\<rparr>"

lemma dev_rx_conf:
  "rxbuf_size dev_rx = 2048" "mac_reg dev_rx RCTL = 0xA" "mac_reg dev_rx RDH = 0"
  "mac_reg dev_rx RDLEN = 0x80" "mac_reg dev_rx RDT = 4" by (simp_all add: dev_rx_def)

lemma dev_rx_link: "tst (mac_reg dev_rx STATUS) E1000_STATUS_LU"
  by (simp add: dev_rx_def dev0_link mac_reg_init_def e1000_mask)

lemma dev_rx_base: "rx_cur_base dev_rx = 0"
  by (simp add: rx_cur_base_def rx_desc_base_def dev_rx_def Let_def)

lemma dev_rx_desc: "rx_buffer_addr (rx_cur_desc dev_rx) = 0x1000"
proof -
  have "ram_read (ram_write (\<lambda>_. 0) 0 (bytes_le 8 (0x1000 :: u64))) 0 8 = bytes_le 8 (0x1000 :: u64)"
    using guest_ram.rd_wr_same [of "bytes_le 8 (0x1000 :: u64)"] by simp
  moreover have "take 8 (ram_read m 0 16) = ram_read m 0 8" for m :: "u64 \<Rightarrow> u8"
    using guest_ram.rd_add [of m 0 8 8] by simp
  ultimately show ?thesis
    by (simp add: rx_cur_desc_def dev_rx_base rx_desc_decode_def pci_dma_read_def le_word_bytes_le)
      (simp add: dev_rx_def le_word_bytes_le)
qed

text \<open>A ring with three small buffers.\<close>

definition rx_ring3 :: "u8 list" where
  "rx_ring3 = concat (map (\<lambda>a. bytes_le 8 (a :: u64) @ replicate 8 0) [0x1000, 0x2000, 0x3000])"

definition dev_rx3 :: E1000State where
  "dev_rx3 = dev_rx\<lparr>rxbuf_size := 256, ram := ram_write (\<lambda>_. 0) 0 rx_ring3\<rparr>"

lemma dev_rx3_conf [simp]:
  "rxbuf_size dev_rx3 = 256" "mac_reg dev_rx3 = mac_reg dev_rx" "rx_desc_base dev_rx3 = 0"
  by (simp_all add: dev_rx3_def rx_desc_base_def Let_def) (simp add: dev_rx_def)

lemma dev_rx3_heads:
  "rx_head dev_rx3 0 = 0" "rx_head dev_rx3 (Suc 0) = 1" "rx_head dev_rx3 2 = 2" "rx_head dev_rx3 3 = 3"
proof -
  show 0: "rx_head dev_rx3 0 = 0" by (simp add: rx_head_def dev_rx_conf)
  show 1: "rx_head dev_rx3 (Suc 0) = 1" by (simp add: rx_head_Suc 0 dev_rx_conf ring_next_def)
  show 2: "rx_head dev_rx3 2 = 2"
    using rx_head_Suc [of dev_rx3 1, unfolded Suc_1] 1 by (simp add: dev_rx_conf ring_next_def)
  show "rx_head dev_rx3 3 = 3"
    using rx_head_Suc [of dev_rx3 2] by (simp add: 2 dev_rx_conf ring_next_def)
qed

lemma dev_rx3_slots: "rx_slot dev_rx3 0 = 0" "rx_slot dev_rx3 (Suc 0) = 16" "rx_slot dev_rx3 2 = 32"
  by (simp_all add: rx_slot_def dev_rx3_heads)

lemma dev_rx3_addr:
  "rx_slot_addr dev_rx3 0 = 0x1000" "rx_slot_addr dev_rx3 (Suc 0) = 0x2000" "rx_slot_addr dev_rx3 2 = 0x3000"
proof -
  have *: "ram_read (ram dev_rx3) (0 + of_nat k) 16 = take 16 (drop k rx_ring3)" if "k \<le> 32" for k
    unfolding dev_rx3_def using that guest_ram.rd_wr_slice [of rx_ring3 k 16 "\<lambda>_. 0" 0] by (simp add: rx_ring3_def)
  have **: "rx_slot_addr dev_rx3 j = a"
    if "k \<le> 32" "rx_slot dev_rx3 j = 0 + of_nat k" "take 8 (drop k rx_ring3) = bytes_le 8 (a :: u64)" for j k a
    unfolding rx_slot_desc_def rx_desc_decode_def that(2) * [OF that(1)]
    using that(3) by (simp add: le_word_bytes_le)
  show "rx_slot_addr dev_rx3 0 = 0x1000" by (rule ** [of 0]) (simp_all add: dev_rx3_slots rx_ring3_def)
  show "rx_slot_addr dev_rx3 (Suc 0) = 0x2000" by (rule ** [of 16]) (simp_all add: dev_rx3_slots rx_ring3_def)
  show "rx_slot_addr dev_rx3 2 = 0x3000" by (rule ** [of 32]) (simp_all add: dev_rx3_slots rx_ring3_def)
qed

lemma all_less_3: "(\<forall>j<3. Q j) \<longleftrightarrow> Q 0 \<and> Q (Suc 0) \<and> Q (2 :: nat)"
  by (auto simp: less_Suc_eq numeral_eq_Suc)

lemma dev_rx3_apart: "rx_ring_apart dev_rx3 3"
  by (simp add: rx_ring_apart_def all_less_3 dev_rx3_addr dev_rx3_slots ram_apart_ordered
      ram_apart_sym [OF ram_apart_ordered])

text \<open>A driver can reach a state with a receive ring: one write to RDLEN and one to RCTL.\<close>

lemma reach_receiver:
  "\<exists>s. e1000_reachable s \<and> ring_ok (mac_reg s RDH) (mac_reg s RDLEN) \<and> 0 < rxbuf_size s"
proof -
  define s where "s = set_dlen dev0 RDLEN 0x80"
  have "e1000_mmio_write dev0 0x2808 0x80 = Some s"
    by (simp add: e1000_mmio_write_def mmio_index_def macreg_writeops_def total_op_def s_def)
  then have s: "e1000_reachable s" by (rule reach_write [OF reach_dev0])
  have size: "rxbufsize 2 = 2048" by (simp add: rxbufsize_def e1000_mask)
  have "\<exists>t. e1000_mmio_write s 0x100 2 = Some t \<and> ring_ok (mac_reg t RDH) (mac_reg t RDLEN) \<and> 0 < rxbuf_size t"
    by (simp add: e1000_mmio_write_def mmio_index_def macreg_writeops_def set_rx_control_def
        size qemu_flush_queued_packets_def qemu_net_queue_flush_def qemu_new_net_queue_def Let_def
        s_def set_dlen_def ring_ok_def)
  with s show ?thesis by (blast intro: reach_write)
qed

text \<open>A transmitter: a ring of eight empty legacy descriptors, of which the first three are handed over.\<close>

definition dev_tx :: E1000State where
  "dev_tx = dev0\<lparr>mac_reg := (mac_reg dev0)(TCTL := 2, TDLEN := 0x80, TDT := 3)\<rparr>"

end
