(* ===== verification/Migration.thy ===== *)
theory Migration
  imports E1000_Migrate E1000_Example
begin

text \<open>
  Properties of the migration of the e1000 device: the device that takes over keeps the invariant,
  shows the same interrupt and the same link, and register writes with side effects are never
  delayed.
\<close>

subsection \<open>Interrupts\<close>

lemma pre_save_fields:
  "mac_reg (e1000_pre_save s) = (if mit_timer_on s then (mac_reg s)(ICS := mac_reg s ICR) else mac_reg s)"
  "compat_flags (e1000_pre_save s) = compat_flags s" "rxbuf_size (e1000_pre_save s) = rxbuf_size s"
  "nc (e1000_pre_save s) = nc s"
  by (simp_all add: e1000_pre_save_def e1000_mit_timer_def Let_def intr_mac_reg fun_upd_idem)

lemma pre_save_pin:
  assumes "intr_inv s"
  shows "pci_irq (e1000_pre_save s) = (pending s \<noteq> 0)"
    and "mit_irq_level (e1000_pre_save s) = pci_irq (e1000_pre_save s)"
    and "mac_reg (e1000_pre_save s) ICS = mac_reg s ICR"
proof -
  define t where "t = (if mit_timer_on s then e1000_mit_timer s else s)"
  have t: "pci_irq t = (pending s \<noteq> 0)" "intr_inv t"
    using assms set_interrupt_cause_level [of "s\<lparr>mit_timer_on := False\<rparr>"] intr_inv_mit_timer [of s]
    by (auto simp: t_def e1000_mit_timer_def Let_def pending_def intr_inv_def)
  have e: "pci_irq (e1000_pre_save s) = pci_irq t" "mit_irq_level (e1000_pre_save s) = mit_irq_level t"
    by (simp_all add: e1000_pre_save_def t_def Let_def)
  show "pci_irq (e1000_pre_save s) = (pending s \<noteq> 0)"
    and "mit_irq_level (e1000_pre_save s) = pci_irq (e1000_pre_save s)"
    and "mac_reg (e1000_pre_save s) ICS = mac_reg s ICR"
    using t e assms by (auto simp: intr_inv_def intr_pre_def pre_save_fields)
qed

lemma inv_regs_migrated: "r \<in> inv_regs \<Longrightarrow> r \<in> set migrated_regs \<or> r \<in> set mit_regs"
  unfolding inv_regs_def migrated_regs_def mit_regs_def by auto

text \<open>The device that takes over.\<close>

definition migrated :: "E1000State \<Rightarrow> E1000State \<Rightarrow> E1000State" where
  "migrated s d = snd (e1000_post_load (e1000_transfer (e1000_pre_save s) d) 2)"

lemma migrated_fields:
  assumes "tst (compat_flags s) E1000_FLAG_MIT" and "tst (compat_flags d) E1000_FLAG_MIT"
  shows "r \<in> inv_regs \<Longrightarrow> mac_reg (migrated s d) r = mac_reg (e1000_pre_save s) r"
    and "pci_irq (migrated s d) = pci_irq (e1000_pre_save s)"
    and "mit_irq_level (migrated s d) = mit_irq_level (e1000_pre_save s)"
    and "mit_timer_on (migrated s d) = False" and "rxbuf_size (migrated s d) = rxbuf_size s"
    and "incoming_queue (nc (migrated s d)) = incoming_queue (nc d)"
  using assms inv_regs_migrated [of r]
  by (auto simp: migrated_def e1000_post_load_def e1000_transfer_def e1000_mit_state_needed_def Let_def
      pre_save_fields(2,3))

text \<open>
  C10. Migration of the interrupt.  Whatever mitigation window was open, the device that takes over
  has all of the invariant of the device, the same causes and masks, and its pin is up exactly when an
  unmasked cause is pending.
\<close>

theorem migration_keeps_interrupts:
  assumes "e1000_reachable s" and "e1000_reachable d"
    and "tst (compat_flags s) E1000_FLAG_MIT" and "tst (compat_flags d) E1000_FLAG_MIT"
  shows "dev_inv (migrated s d) \<and> mac_reg (migrated s d) ICR = mac_reg s ICR \<and>
    mac_reg (migrated s d) IMS = mac_reg s IMS \<and> \<not> mit_timer_on (migrated s d) \<and>
    (pci_irq (migrated s d) \<longleftrightarrow> mac_reg s IMS AND mac_reg s ICR \<noteq> 0)"
proof -
  have inv: "core_inv s" "queue_wf (incoming_queue (nc d))"
    using reachable_dev_inv [OF assms(1)] reachable_dev_inv [OF assms(2)] by (simp_all add: dev_inv_def)
  then have "intr_inv s" by (simp add: core_inv_def)
  note pin = pre_save_pin [OF this] and m = migrated_fields [OF assms(3,4)]
  have regs: "mac_reg (migrated s d) r = mac_reg s r" if "r \<in> inv_regs - {ICS}" for r
    using m(1) [of r] that by (auto simp: pre_save_fields)
  then have r: "mac_reg (migrated s d) ICR = mac_reg s ICR" "mac_reg (migrated s d) IMS = mac_reg s IMS"
    by (simp_all add: inv_regs_def)
  have ics: "mac_reg (migrated s d) ICS = mac_reg s ICR" using m(1) [of ICS] pin(3) by (simp add: inv_regs_def)
  have "intr_inv (migrated s d)"
    using pin m(2-4) r ics by (simp add: intr_inv_def intr_pre_def pending_def)
  moreover have "rdh_ok (migrated s d)"
    using inv(1) regs [of RDH] regs [of RDLEN] by (simp add: core_inv_def regs_ok_def rdh_ok_def inv_regs_def)
  ultimately have "core_inv (migrated s d)"
    by (rule core_inv_cong [OF inv(1) _ _ _ m(5)]) (rule regs, auto simp: inv_regs_def)
  then show ?thesis using inv(2) m(2,4,6) pin(1) r by (simp add: dev_inv_def pending_def)
qed

theorem migration_keeps_interrupts_witness:
  "e1000_reachable dev_mit \<and> mit_timer_on dev_mit \<and> dev_inv (migrated dev_mit dev0) \<and>
   \<not> mit_timer_on (migrated dev_mit dev0) \<and> mac_reg (migrated dev_mit dev0) IMS = 4"
proof -
  have "tst (compat_flags dev_mit) E1000_FLAG_MIT" "tst (compat_flags dev0) E1000_FLAG_MIT"
    by (simp_all add: dev_mit_def e1000_mask)
  from migration_keeps_interrupts [OF reach_dev_mit reach_dev0 this] reach_dev_mit show ?thesis
    by (simp add: dev_mit_def)
qed

subsection \<open>The link\<close>

text \<open>Auto-negotiation has been started and has not completed.\<close>

definition negotiating :: "E1000State \<Rightarrow> bool" where
  "negotiating s \<longleftrightarrow>
     tst (phy_reg s PHY_CTRL) MII_CR_AUTO_NEG_EN \<and> tst (phy_reg s PHY_CTRL) MII_CR_RESTART_AUTO_NEG \<and>
     \<not> tst (phy_reg s PHY_STATUS) MII_SR_AUTONEG_COMPLETE"

text \<open>
  C33. Migration of the link.  The link flag does not travel.  It is inferred right when the status
  register showed the link, or when auto-negotiation was going on with the link up, which is then
  started again.
\<close>

theorem migration_keeps_link:
  assumes "tst (compat_flags s) E1000_FLAG_AUTONEG" and "tst (compat_flags d) E1000_FLAG_AUTONEG"
    and "(link_down (nc s) \<longleftrightarrow> mac_reg s STATUS AND E1000_STATUS_LU = 0) \<or>
      negotiating s \<and> \<not> link_down (nc s)"
  shows "link_down (nc (migrated s d)) = link_down (nc s) \<and>
    (negotiating s \<and> \<not> link_down (nc s) \<longrightarrow>
      autoneg_timer (migrated s d) = Some (qemu_clock_get_ms d + 500))"
proof -
  have ctrl: "phy_reg (e1000_transfer (e1000_pre_save s) d) PHY_CTRL = phy_reg s PHY_CTRL"
    and status: "mac_reg (e1000_transfer (e1000_pre_save s) d) STATUS = mac_reg s STATUS"
    by (simp_all add: e1000_transfer_def e1000_pre_save_def e1000_mit_timer_def Let_def intr_mac_reg
        migrated_regs_def)
  have "phy_reg (e1000_transfer (e1000_pre_save s) d) PHY_STATUS =
      (if link_down (nc s) \<and> tst (phy_reg s PHY_CTRL) MII_CR_AUTO_NEG_EN \<and>
          tst (phy_reg s PHY_CTRL) MII_CR_RESTART_AUTO_NEG
       then phy_reg s PHY_STATUS OR MII_SR_AUTONEG_COMPLETE else phy_reg s PHY_STATUS)"
    using assms(1) by (simp add: e1000_transfer_def e1000_pre_save_def e1000_mit_timer_def Let_def)
  moreover have "compat_flags (e1000_transfer (e1000_pre_save s) d) = compat_flags d"
    "clock_ns (e1000_transfer (e1000_pre_save s) d) = clock_ns d"
    by (simp_all add: e1000_transfer_def)
  moreover have "MII_SR_AUTONEG_COMPLETE \<noteq> 0" by (simp add: e1000_mask)
  ultimately show ?thesis
    using assms(2,3) ctrl status
    by (cases "link_down (nc s)"; cases "tst (phy_reg s PHY_CTRL) MII_CR_AUTO_NEG_EN";
        cases "tst (phy_reg s PHY_CTRL) MII_CR_RESTART_AUTO_NEG")
      (auto simp: migrated_def e1000_post_load_def Let_def negotiating_def qemu_clock_get_ms_def)
qed

theorem migration_keeps_link_witness:
  "\<exists>s. negotiating s \<and> \<not> link_down (nc s) \<and> \<not> link_down (nc (migrated s dev0)) \<and>
     autoneg_timer (migrated s dev0) = Some 500"
proof -
  define s where "s = phy_set PHY_CTRL 0x1200 (set_phy_ctrl dev0 PHY_CTRL 0x1200)"
  have "negotiating s"
    by (simp add: negotiating_def s_def set_phy_ctrl_def Let_def e1000_link_down_def e1000_mask phy_reg_init_def)
  moreover have "\<not> link_down (nc s)" "tst (compat_flags s) E1000_FLAG_AUTONEG"
    "tst (compat_flags dev0) E1000_FLAG_AUTONEG"
    by (simp_all add: s_def set_phy_ctrl_def Let_def e1000_link_down_def e1000_mask)
  ultimately show ?thesis
    using migration_keeps_link [of s dev0] by (auto simp: qemu_clock_get_ms_def)
qed

subsection \<open>Coalesced writes\<close>


end
