(* ===== verification/Disc.thy ===== *)
theory Disc
  imports Vmstate
begin

text \<open>
  The DISC device snapshots (\<^verbatim>\<open>src/snapshot/qemu-1.5.0/hw/core/qdev.c\<close>, \<^verbatim>\<open>include/disc/disc.h\<close>; the
  harness has a copy in \<^verbatim>\<open>klee_external_function_calls.c\<close>): a snapshot of a device is taken right
  after it is realized, and \<^verbatim>\<open>device_nap_reset\<close> puts the device back into that state except for
  what its migration description lists.

  The table \<^verbatim>\<open>g_dss\<close> is the list of the entries in use, so \<^verbatim>\<open>g_num_dss\<close> is its length.  Printing is
  left out.
\<close>

subsection \<open>Copying the described fields\<close>

definition field_present :: "hmem \<Rightarrow> u64 \<Rightarrow> int \<Rightarrow> VMStateField \<Rightarrow> bool" where
  "field_present m opaque version field =
     (case f_exists field of None \<Rightarrow> True | Some field_exists \<Rightarrow> field_exists m opaque version)"

function device_load_state :: "VMStateDescription \<Rightarrow> u64 \<Rightarrow> u64 \<Rightarrow> hmem \<Rightarrow> hmem option" where
  "device_load_state vmsd opaque swapspace m =
     for_list (vm_fields vmsd)
       (\<lambda>field m.
          if \<not> field_present m opaque (vm_version_id vmsd) field then Some m
          else
            let base_addr = opaque + of_nat (f_offset field)
            in case (vmstate_size m swapspace field, vmstate_n_elems m swapspace field,
                     vmstate_base_addr m swapspace field) of
                 (Some sz, Some n_elems, Some swap_base_addr) \<Rightarrow>
                   for_list [0..<nat n_elems]
                     (\<lambda>i m.
                        let addr = base_addr + word_of_int (sz * int i)
                        in case elem_addr m field (swap_base_addr + word_of_int (sz * int i)) of
                             None \<Rightarrow> None
                           | Some swap_addr \<Rightarrow>
                               if tst (f_flags field) VMS_STRUCT then
                                 (case f_vmsd field of
                                    None \<Rightarrow> None
                                  | Some sub \<Rightarrow> device_load_state sub addr swap_addr m)
                               else memcpy m addr swap_addr (c_size sz))
                     m
               | _ \<Rightarrow> None)
       m"
  by pat_completeness auto
termination
  by (relation "measure (\<lambda>(vmsd, _). size vmsd)")
    (auto dest!: size_field_vmsd size_vmsd_field)

declare device_load_state.simps [simp del]

subsection \<open>The table of snapshots\<close>

record dev_snapshots =
  devname :: "string option"
  statesize :: int
  snapshot :: u64
  swapspace :: u64
  ds_vmsd :: VMStateDescription

abbreviation (input) MAX_DEV_SNAPSHOTS :: nat where "MAX_DEV_SNAPSHOTS \<equiv> 1"

primrec device_nap_reset :: "dev_snapshots list \<Rightarrow> string \<Rightarrow> u64 \<Rightarrow> hmem \<Rightarrow> hmem option" where
  "device_nap_reset [] name opaque m = Some m"
| "device_nap_reset (ds # g_dss) name opaque m =
     (case devname ds of
        None \<Rightarrow> None
      | Some dev \<Rightarrow>
          if name = dev then
            let sz = c_size (statesize ds)
            in Option.bind (memcpy m (swapspace ds) opaque sz)
                 (\<lambda>m. Option.bind (memcpy m opaque (snapshot ds) sz)
                   (device_load_state (ds_vmsd ds) opaque (swapspace ds)))
          else device_nap_reset g_dss name opaque m)"

text \<open>The devices of the root bus; a slot is empty or holds a device with its name and address.\<close>

definition find_device_state_by_name ::
  "dev_snapshots list \<Rightarrow> (string \<times> u64) option list option \<Rightarrow> string \<Rightarrow> hmem \<Rightarrow> hmem option" where
  "find_device_state_by_name g_dss pci_bus dev_name m =
     (case pci_bus of
        None \<Rightarrow> Some m
      | Some devices \<Rightarrow>
          for_list devices
            (\<lambda>dev m. case dev of
               Some (name, addr) \<Rightarrow> if name = dev_name then device_nap_reset g_dss name addr m else Some m
             | None \<Rightarrow> Some m) m)"

text \<open>
  \<^verbatim>\<open>device_snapshot\<close>.  The allocator is an argument; it returns the address of the block and the
  memory with the block mapped.  A second allocation that fails gives the first block back.
\<close>

definition device_snapshot ::
  "(hmem \<Rightarrow> nat \<Rightarrow> (u64 \<times> hmem) option) \<Rightarrow> VMStateDescription option \<Rightarrow> nat \<Rightarrow> u64 \<Rightarrow>
   dev_snapshots list \<Rightarrow> hmem \<Rightarrow> (dev_snapshots list \<times> hmem) option" where
  "device_snapshot malloc class_vmsd instance_size dev g_dss m =
     (let dev_state_size = unat (of_nat instance_size :: u32)
      in if length g_dss \<ge> MAX_DEV_SNAPSHOTS then Some (g_dss, m)
         else
           case malloc m dev_state_size of
             None \<Rightarrow> Some (g_dss, m)
           | Some (dev_snapshot, m1) \<Rightarrow>
               (case malloc m1 dev_state_size of
                  None \<Rightarrow> Some (g_dss, m)
                | Some (swap, m2) \<Rightarrow>
                    (case (memcpy m2 dev_snapshot dev dev_state_size, class_vmsd) of
                       (Some m, Some vmsd) \<Rightarrow>
                         Some (g_dss @ [\<lparr>devname = Some (vm_name vmsd), statesize = c_int dev_state_size,
                                         snapshot = dev_snapshot, swapspace = swap, ds_vmsd = vmsd\<rparr>], m)
                     | _ \<Rightarrow> None)))"

definition free_device_snapshot :: "dev_snapshots list \<Rightarrow> dev_snapshots list" where
  "free_device_snapshot g_dss = g_dss"

definition device_in_DISC_list :: "string \<Rightarrow> u16 \<Rightarrow> u16 \<Rightarrow> bool" where
  "device_in_DISC_list parent_bus_name vendor_id device_id \<longleftrightarrow>
     take 3 parent_bus_name = ''pci'' \<and> vendor_id = 0x8086 \<and> device_id = 0x100e"

text \<open>\<^verbatim>\<open>device_realize\<close>: the error message if there is one, the table and the memory.\<close>

record DeviceState =
  ds_address :: u64
  ds_bus_name :: string
  ds_vendor_id :: u16
  ds_device_id :: u16
  ds_class_vmsd :: "VMStateDescription option"
  ds_instance_size :: nat
  ds_init :: "(hmem \<Rightarrow> int \<times> hmem) option"

definition device_realize ::
  "(hmem \<Rightarrow> nat \<Rightarrow> (u64 \<times> hmem) option) \<Rightarrow> DeviceState \<Rightarrow> dev_snapshots list \<Rightarrow> hmem \<Rightarrow>
   (string option \<times> dev_snapshots list \<times> hmem) option" where
  "device_realize malloc dev g_dss m =
     (case ds_init dev of
        None \<Rightarrow> Some (None, g_dss, m)
      | Some init \<Rightarrow>
          (case init m of (rc, m) \<Rightarrow>
             if rc < 0 then Some (Some ''Device initialization failed.'', g_dss, m)
             else if device_in_DISC_list (ds_bus_name dev) (ds_vendor_id dev) (ds_device_id dev) then
               map_option (Pair None)
                 (device_snapshot malloc (ds_class_vmsd dev) (ds_instance_size dev) (ds_address dev) g_dss m)
             else Some (None, g_dss, m)))"

end
