(* ===== verification/Savevm.thy ===== *)
theory Savevm
  imports Vmstate
begin

text \<open>
  Writing a described state to a stream and reading it back (\<^verbatim>\<open>savevm.c\<close>): \<^verbatim>\<open>vmstate_save_state\<close>,
  \<^verbatim>\<open>vmstate_load_state\<close> and the subsections.  The state of the computation is the file and the
  memory; \<open>None\<close> is a crash or a call that does not return.  Diagnostics on \<^verbatim>\<open>stderr\<close> are left out.
\<close>

type_synonym fm = "QEMUFile \<times> hmem"

abbreviation (input) QEMU_VM_EOF :: u8 where "QEMU_VM_EOF \<equiv> 0"
abbreviation (input) QEMU_VM_SECTION_START :: u8 where "QEMU_VM_SECTION_START \<equiv> 1"
abbreviation (input) QEMU_VM_SECTION_PART :: u8 where "QEMU_VM_SECTION_PART \<equiv> 2"
abbreviation (input) QEMU_VM_SECTION_END :: u8 where "QEMU_VM_SECTION_END \<equiv> 3"
abbreviation (input) QEMU_VM_SECTION_FULL :: u8 where "QEMU_VM_SECTION_FULL \<equiv> 4"
abbreviation (input) QEMU_VM_SUBSECTION :: u8 where "QEMU_VM_SUBSECTION \<equiv> 5"

text \<open>The bytes of a C string, and the string that a buffer holds.\<close>

definition str_bytes :: "string \<Rightarrow> u8 list" where
  "str_bytes s = map of_char s"

definition cstr :: "u8 list \<Rightarrow> u8 list" where
  "cstr bs = takeWhile (\<lambda>b. b \<noteq> 0) bs"

subsection \<open>Subsections\<close>

text \<open>
  The two functions call \<^verbatim>\<open>vmstate_load_state\<close> and \<^verbatim>\<open>vmstate_save_state\<close> on the description of a
  subsection; each subsection comes with that call.
\<close>

fun vmstate_get_subsection :: "(VMStateSubsection \<times> 'l) list \<Rightarrow> u8 list \<Rightarrow> 'l option" where
  "vmstate_get_subsection [] idstr = None"
| "vmstate_get_subsection ((sub, load) # subs) idstr =
     (if idstr = str_bytes (vm_name (ss_vmsd sub)) then Some load else vmstate_get_subsection subs idstr)"

partial_function (option) vmstate_subsection_load ::
  "string \<Rightarrow> (VMStateSubsection \<times> (int \<Rightarrow> fm \<Rightarrow> (int \<times> fm) option)) list \<Rightarrow> QEMUFile \<Rightarrow> hmem \<Rightarrow> (int \<times> fm) option" where
  "vmstate_subsection_load vmname subs f m = do {
     (b, f) \<leftarrow> qemu_peek_byte f 0;
     if b \<noteq> QEMU_VM_SUBSECTION then Some (0, f, m)
     else do {
       (len, f) \<leftarrow> qemu_peek_byte f 1;
       if unat len < length vmname + 1 then Some (0, f, m)
       else do {
         (bs, f) \<leftarrow> qemu_peek_buffer f (unat len) 2;
         if length bs \<noteq> unat len then Some (0, f, m)
         else if take (length vmname) (cstr bs) \<noteq> str_bytes vmname then Some (0, f, m)
         else
           case vmstate_get_subsection subs (cstr bs) of
             None \<Rightarrow> Some (- ENOENT, f, m)
           | Some load \<Rightarrow> do {
               let f = qemu_file_skip (qemu_file_skip (qemu_file_skip f 1) 1) (unat len);
               (v, f) \<leftarrow> qemu_get_be32 f;
               (ret, s) \<leftarrow> load (uint (ucast v :: u8)) (f, m);
               if ret \<noteq> 0 then Some (ret, s) else vmstate_subsection_load vmname subs (fst s) (snd s)
             }
       }
     }
   }"

text \<open>What precedes the data of a subsection.\<close>

definition put_subsection_header :: "VMStateDescription \<Rightarrow> QEMUFile \<Rightarrow> QEMUFile option" where
  "put_subsection_header vmsd f = do {
     f \<leftarrow> qemu_put_byte f QEMU_VM_SUBSECTION;
     let len = (of_nat (length (vm_name vmsd)) :: u8);
     f \<leftarrow> qemu_put_byte f len;
     f \<leftarrow> qemu_put_buffer f (take (unat len) (str_bytes (vm_name vmsd)));
     qemu_put_be32 f (word_of_int (vm_version_id vmsd))
   }"

definition vmstate_subsection_save :: "(VMStateSubsection \<times> (fm \<Rightarrow> fm option)) list \<Rightarrow> u64 \<Rightarrow> fm \<Rightarrow> fm option" where
  "vmstate_subsection_save subs opaque s =
     for_list subs
       (\<lambda>(sub, save) (f, m).
          if ss_needed sub m opaque then do { f \<leftarrow> put_subsection_header (ss_vmsd sub) f; save (f, m) }
          else Some (f, m)) s"

subsection \<open>Saving\<close>

function vmstate_save_state :: "VMStateDescription \<Rightarrow> u64 \<Rightarrow> fm \<Rightarrow> fm option" where
  "vmstate_save_state vmsd opaque s = do {
     s \<leftarrow> (case vm_pre_save vmsd of
             None \<Rightarrow> Some s
           | Some pre_save \<Rightarrow> map_option (Pair (fst s)) (pre_save opaque (snd s)));
     s \<leftarrow> for_list (vm_fields vmsd)
       (\<lambda>field s.
          if (case f_exists field of
                None \<Rightarrow> True
              | Some field_exists \<Rightarrow> field_exists (snd s) opaque (vm_version_id vmsd)) then do {
            base_addr \<leftarrow> vmstate_base_addr (snd s) opaque field;
            n_elems \<leftarrow> vmstate_n_elems (snd s) opaque field;
            sz \<leftarrow> vmstate_size (snd s) opaque field;
            for_list [0..<nat n_elems]
              (\<lambda>i s. do {
                 addr \<leftarrow> elem_addr (snd s) field (base_addr + word_of_int (sz * int i));
                 if tst (f_flags field) VMS_STRUCT then
                   (case f_vmsd field of None \<Rightarrow> None | Some sub \<Rightarrow> vmstate_save_state sub addr s)
                 else
                   (case f_info field of
                      None \<Rightarrow> None
                    | Some info \<Rightarrow>
                        map_option (\<lambda>f. (f, snd s)) (info_put info (fst s) addr (c_size sz) (snd s)))
               }) s
          }
          else if tst (f_flags field) VMS_MUST_EXIST then None else Some s) s;
     vmstate_subsection_save
       (map (\<lambda>sub. (sub, \<lambda>s. vmstate_save_state (ss_vmsd sub) opaque s)) (vm_subsections vmsd)) opaque s
   }"
  by pat_completeness auto
termination
  by (relation "measure (\<lambda>(vmsd, _). size vmsd)")
    (auto dest!: size_field_vmsd size_vmsd_field size_vmsd_subsection)

declare vmstate_save_state.simps [simp del]

subsection \<open>Loading\<close>

function vmstate_load_state :: "VMStateDescription \<Rightarrow> u64 \<Rightarrow> int \<Rightarrow> fm \<Rightarrow> (int \<times> fm) option" where
  "vmstate_load_state vmsd opaque version_id s =
     (if version_id > vm_version_id vmsd then Some (- EINVAL, s)
      else if version_id < vm_minimum_version_id vmsd then
        (case vm_load_state_old vmsd of
           Some load_state_old \<Rightarrow>
             if version_id \<ge> vm_minimum_version_id_old vmsd then load_state_old opaque version_id s
             else Some (- EINVAL, s)
         | None \<Rightarrow> Some (- EINVAL, s))
      else do {
        (ret, s) \<leftarrow> (case vm_pre_load vmsd of
                      None \<Rightarrow> Some (0, s)
                    | Some pre_load \<Rightarrow> map_option (\<lambda>(ret, m). (ret, fst s, m)) (pre_load opaque (snd s)));
        if ret \<noteq> 0 then Some (ret, s)
        else do {
          (ret, s) \<leftarrow> for_ret (vm_fields vmsd)
            (\<lambda>field s.
               if (case f_exists field of
                     Some field_exists \<Rightarrow> field_exists (snd s) opaque version_id
                   | None \<Rightarrow> f_version_id field \<le> version_id) then do {
                 base_addr \<leftarrow> vmstate_base_addr (snd s) opaque field;
                 n_elems \<leftarrow> vmstate_n_elems (snd s) opaque field;
                 sz \<leftarrow> vmstate_size (snd s) opaque field;
                 for_ret [0..<nat n_elems]
                   (\<lambda>i s. do {
                      addr \<leftarrow> elem_addr (snd s) field (base_addr + word_of_int (sz * int i));
                      if tst (f_flags field) VMS_STRUCT then
                        (case f_vmsd field of
                           None \<Rightarrow> None
                         | Some sub \<Rightarrow> vmstate_load_state sub addr (vm_version_id sub) s)
                      else
                        (case f_info field of
                           None \<Rightarrow> None
                         | Some info \<Rightarrow> info_get info (fst s) addr (c_size sz) (snd s))
                    }) s
               }
               else if tst (f_flags field) VMS_MUST_EXIST then Some (- 1, s) else Some (0, s)) s;
          if ret < 0 then Some (ret, s)
          else do {
            (ret, s) \<leftarrow> vmstate_subsection_load (vm_name vmsd)
              (map (\<lambda>sub. (sub, \<lambda>v s. vmstate_load_state (ss_vmsd sub) opaque v s)) (vm_subsections vmsd))
              (fst s) (snd s);
            if ret \<noteq> 0 then Some (ret, s)
            else
              case vm_post_load vmsd of
                None \<Rightarrow> Some (0, s)
              | Some post_load \<Rightarrow>
                  map_option (\<lambda>(ret, m). (ret, fst s, m)) (post_load opaque version_id (snd s))
          }
        }
      })"
  by pat_completeness auto
termination
  by (relation "measure (\<lambda>(vmsd, _). size vmsd)")
    (auto dest!: size_field_vmsd size_vmsd_field size_vmsd_subsection)

declare vmstate_load_state.simps [simp del]

end
