(* ===== verification/Vmstate_Static.thy ===== *)
theory Vmstate_Static
  imports Savevm
begin

text \<open>
  Descriptions whose layout does not depend on the contents of the memory: no pointers, no lengths
  stored in the state, no test that looks at the state.  The tables of the e1000 are of this kind.
\<close>

definition exists_at :: "int \<Rightarrow> VMStateField \<Rightarrow> bool" where
  "exists_at version f = (case f_exists f of None \<Rightarrow> True | Some e \<Rightarrow> e (\<lambda>_. None) 0 version)"

definition dynamic_flags :: u32 where
  "dynamic_flags =
     VMS_POINTER OR VMS_VARRAY_INT32 OR VMS_ARRAY_OF_POINTER OR VMS_VARRAY_UINT16 OR
     VMS_VBUFFER OR VMS_VARRAY_UINT8 OR VMS_VARRAY_UINT32"

definition static_field :: "VMStateField \<Rightarrow> bool" where
  "static_field f \<longleftrightarrow>
     \<not> tst (f_flags f) dynamic_flags \<and> f_size f < 2 ^ 31 \<and>
     (\<forall>e. f_exists f = Some e \<longrightarrow> (\<forall>m a v. e m a v = e (\<lambda>_. None) 0 v)) \<and>
     (tst (f_flags f) VMS_STRUCT \<longrightarrow> f_vmsd f \<noteq> None)"

definition static_elems :: "VMStateField \<Rightarrow> nat" where
  "static_elems f = (if tst (f_flags f) VMS_ARRAY then nat (f_num f) else 1)"

function static_vmsd :: "VMStateDescription \<Rightarrow> bool" where
  "static_vmsd vmsd \<longleftrightarrow>
     list_all (\<lambda>f. static_field f \<and> (case f_vmsd f of None \<Rightarrow> True | Some v \<Rightarrow> static_vmsd v)) (vm_fields vmsd)"
  by pat_completeness auto
termination
  by (relation "measure size") (auto dest!: size_field_vmsd size_vmsd_field)

declare static_vmsd.simps [simp del]

lemma tst_or: "tst w (x OR y) \<longleftrightarrow> tst w x \<or> tst w y"
  by (auto simp: bit_eq_iff bit_or_iff bit_and_iff)

lemma static_flags:
  assumes "static_field f"
  shows "\<not> tst (f_flags f) VMS_POINTER" "\<not> tst (f_flags f) VMS_VARRAY_INT32"
    "\<not> tst (f_flags f) VMS_ARRAY_OF_POINTER" "\<not> tst (f_flags f) VMS_VARRAY_UINT16"
    "\<not> tst (f_flags f) VMS_VBUFFER" "\<not> tst (f_flags f) VMS_VARRAY_UINT8"
    "\<not> tst (f_flags f) VMS_VARRAY_UINT32"
  using assms by (auto simp: static_field_def dynamic_flags_def tst_or)

lemma static_location:
  assumes "static_field f"
  shows "vmstate_size m b f = Some (int (f_size f))"
    and "map_option nat (vmstate_n_elems m b f) = Some (static_elems f)"
    and "vmstate_base_addr m b f = Some (b + of_nat (f_offset f))"
    and "elem_addr m f x = Some x"
  using static_flags [OF assms] assms
  by (simp_all add: vmstate_size_def vmstate_n_elems_def vmstate_base_addr_def elem_addr_def Let_def
      static_elems_def static_field_def c_int_small)

lemma static_exists:
  "static_field f \<Longrightarrow> (case f_exists f of None \<Rightarrow> True | Some e \<Rightarrow> e m a v) = exists_at v f"
  by (cases "f_exists f") (auto simp: static_field_def exists_at_def)

lemma static_vmsd_field:
  assumes "static_vmsd vmsd" and "f \<in> set (vm_fields vmsd)"
  shows "static_field f" and "f_vmsd f = Some v \<Longrightarrow> static_vmsd v"
  using assms by (subst (asm) static_vmsd.simps, auto simp: list_all_iff)+

lemma elem_offset:
  "x + of_nat (f_offset f) + word_of_int (int (f_size f) * int i) = x + of_nat (f_offset f + f_size f * i)"
  for x :: u64
  by (simp add: add.assoc)

end
