(* ===== verification/Disc_Reset.thy ===== *)
theory Disc_Reset
  imports Disc Vmstate_Static
begin

text \<open>
  What a nap reset does.  For a description without pointers and variable-length fields, the bytes
  of the device that the description covers keep their values and all other bytes are those of the
  snapshot.
\<close>

subsection \<open>The bytes that a description covers\<close>

function vm_cover :: "VMStateDescription \<Rightarrow> nat list" where
  "vm_cover vmsd =
     concat (map (\<lambda>f.
       if exists_at (vm_version_id vmsd) f then
         concat (map (\<lambda>i.
           if tst (f_flags f) VMS_STRUCT then
             (case f_vmsd f of None \<Rightarrow> [] | Some v \<Rightarrow> map ((+) (f_offset f + f_size f * i)) (vm_cover v))
           else [f_offset f + f_size f * i..<f_offset f + f_size f * i + f_size f]) [0..<static_elems f])
       else []) (vm_fields vmsd))"
  by pat_completeness auto
termination
  by (relation "measure size") (auto dest!: size_field_vmsd size_vmsd_field)

declare vm_cover.simps [simp del]

subsection \<open>Copying a set of bytes\<close>

text \<open>The bytes with offsets in \<open>K\<close> of one block are those of another.\<close>

definition overlay :: "u64 \<Rightarrow> u64 \<Rightarrow> nat set \<Rightarrow> hmem \<Rightarrow> hmem" where
  "overlay a b K m = (\<lambda>x. if x \<in> (\<lambda>k. a + of_nat k) ` K then m (x - a + b) else m x)"

definition disjoint_at :: "u64 \<Rightarrow> u64 \<Rightarrow> nat set \<Rightarrow> bool" where
  "disjoint_at a b K \<longleftrightarrow> (\<forall>k \<in> K. \<forall>l \<in> K. a + of_nat k \<noteq> b + of_nat l)"

definition mapped_at :: "u64 \<Rightarrow> u64 \<Rightarrow> nat set \<Rightarrow> hmem \<Rightarrow> bool" where
  "mapped_at a b K m \<longleftrightarrow> (\<forall>k \<in> K. m (a + of_nat k) \<noteq> None \<and> m (b + of_nat k) \<noteq> None)"

lemma overlay_empty [simp]: "overlay a b {} m = m"
  by (simp add: overlay_def)

lemma overlay_at: "k \<in> K \<Longrightarrow> overlay a b K m (a + of_nat k) = m (b + of_nat k)"
  by (auto simp: overlay_def algebra_simps)

lemma overlay_other: "x \<notin> (\<lambda>k. a + of_nat k) ` K \<Longrightarrow> overlay a b K m x = m x"
  by (simp add: overlay_def)

lemma overlay_source:
  "disjoint_at a b K \<Longrightarrow> A \<subseteq> K \<Longrightarrow> k \<in> K \<Longrightarrow> overlay a b A m (b + of_nat k) = m (b + of_nat k)"
  by (rule overlay_other) (fastforce simp: disjoint_at_def)

lemma overlay_overlay:
  assumes "disjoint_at a b K" and "A \<subseteq> K" and "B \<subseteq> K"
  shows "overlay a b B (overlay a b A m) = overlay a b (A \<union> B) m"
proof
  fix x
  show "overlay a b B (overlay a b A m) x = overlay a b (A \<union> B) m x"
  proof (cases "x \<in> (\<lambda>k. a + of_nat k) ` B")
    case True
    then obtain k where k: "k \<in> B" "x = a + of_nat k" by blast
    then show ?thesis
      using overlay_at [of k B a b] overlay_at [of k "A \<union> B" a b] overlay_source [OF assms(1,2), of k] assms(3)
      by auto
  next
    case False
    then show ?thesis by (auto simp: overlay_def image_Un)
  qed
qed

lemma mapped_overlay:
  assumes "mapped_at a b K m" and "disjoint_at a b K" and "A \<subseteq> K"
  shows "mapped_at a b K (overlay a b A m)"
  unfolding mapped_at_def
proof (intro ballI conjI)
  fix k assume k: "k \<in> K"
  show "overlay a b A m (b + of_nat k) \<noteq> None"
    using assms k by (simp add: overlay_source mapped_at_def)
  show "overlay a b A m (a + of_nat k) \<noteq> None"
  proof (cases "a + of_nat k \<in> (\<lambda>k. a + of_nat k) ` A")
    case True
    then obtain l where "l \<in> A" "a + of_nat k = a + of_nat l" by blast
    then show ?thesis using assms(1,3) overlay_at [of l A a b m] by (auto simp: mapped_at_def)
  next
    case False
    then show ?thesis using assms(1) k by (simp add: overlay_other mapped_at_def)
  qed
qed

lemma overlay_shift: "overlay (a + of_nat d) (b + of_nat d) K m = overlay a b ((+) d ` K) m"
  by (rule ext) (simp add: overlay_def image_image add.assoc algebra_simps)

lemma memcpy_overlay:
  assumes "mapped_at a b {..<n} m" and "n \<le> 2 ^ 64"
  shows "memcpy m a b n = Some (overlay a b {..<n} m)"
proof -
  have map: "mapped m a n" "mapped m b n" using assms(1) by (auto simp: mapped_iff mapped_at_def)
  have "mem_upd m a (bytes_at m b n) = overlay a b {..<n} m"
  proof
    fix x
    show "mem_upd m a (bytes_at m b n) x = overlay a b {..<n} m x"
    proof (cases "x \<in> (\<lambda>k. a + of_nat k) ` {..<n}")
      case True
      then obtain k where "k < n" "x = a + of_nat k" by blast
      then show ?thesis
        using assms mem_upd_in [of k "bytes_at m b n" m a] overlay_at [of k "{..<n}" a b m]
        by (auto simp: mapped_at_def)
    next
      case False
      then show ?thesis by (simp add: overlay_other) (intro mem_upd_out, auto)
    qed
  qed
  with map show ?thesis by (simp add: memcpy_eq)
qed

text \<open>A loop whose rounds copy sets of bytes copies their union.\<close>

lemma for_list_overlay:
  assumes "disjoint_at a b K" and "mapped_at a b K m"
    and "\<And>x m. x \<in> set xs \<Longrightarrow> mapped_at a b K m \<Longrightarrow> f x m = Some (overlay a b (A x) m)"
    and "\<And>x. x \<in> set xs \<Longrightarrow> A x \<subseteq> K"
  shows "for_list xs f m = Some (overlay a b (\<Union>x \<in> set xs. A x) m)"
  using assms(2-4)
proof (induction xs arbitrary: m)
  case (Cons x xs)
  have "mapped_at a b K (overlay a b (A x) m)"
    using Cons.prems assms(1) by (intro mapped_overlay) simp_all
  then have "for_list xs f (overlay a b (A x) m) =
      Some (overlay a b (\<Union>x \<in> set xs. A x) (overlay a b (A x) m))"
    using Cons.prems by (intro Cons.IH) simp_all
  moreover have "(\<Union>x \<in> set xs. A x) \<subseteq> K" using Cons.prems(3) by auto
  ultimately show ?case
    using Cons.prems assms(1) overlay_overlay [OF assms(1), of "A x" "\<Union>x \<in> set xs. A x" m] by simp
qed simp

subsection \<open>Copying what a description lists\<close>

definition elem_cover :: "VMStateField \<Rightarrow> nat \<Rightarrow> nat list" where
  "elem_cover f i =
     (if tst (f_flags f) VMS_STRUCT then
        (case f_vmsd f of None \<Rightarrow> [] | Some v \<Rightarrow> map ((+) (f_offset f + f_size f * i)) (vm_cover v))
      else [f_offset f + f_size f * i..<f_offset f + f_size f * i + f_size f])"

lemma vm_cover_fields:
  "set (vm_cover vmsd) =
     (\<Union>f \<in> set (vm_fields vmsd).
        if exists_at (vm_version_id vmsd) f then \<Union>i \<in> set [0..<static_elems f]. set (elem_cover f i) else {})"
  unfolding vm_cover.simps [of vmsd] elem_cover_def [symmetric]
  by (simp add: if_distrib [of set] cong: if_cong)

lemma elem_cover_sub:
  assumes "f \<in> set (vm_fields vmsd)" and "exists_at (vm_version_id vmsd) f" and "i < static_elems f"
  shows "set (elem_cover f i) \<subseteq> set (vm_cover vmsd)"
proof -
  have "set (elem_cover f i) \<subseteq> (\<Union>i \<in> set [0..<static_elems f]. set (elem_cover f i))" using assms(3) by auto
  then show ?thesis unfolding vm_cover_fields using assms(1,2) by (intro subsetI UN_I [of f]) auto
qed

lemma shift_set:
  assumes "disjoint_at a b K"
  shows "disjoint_at (a + of_nat d) (b + of_nat d) {k. d + k \<in> K}"
  unfolding disjoint_at_def
proof (intro ballI)
  fix k l assume "k \<in> {k. d + k \<in> K}" "l \<in> {k. d + k \<in> K}"
  then have "a + of_nat (d + k) \<noteq> b + of_nat (d + l)"
    using assms unfolding disjoint_at_def by blast
  then show "a + of_nat d + of_nat k \<noteq> b + of_nat d + of_nat l" by (simp add: add.assoc)
qed

lemma shift_mapped:
  assumes "mapped_at a b K m"
  shows "mapped_at (a + of_nat d) (b + of_nat d) {k. d + k \<in> K} m"
  unfolding mapped_at_def
proof (intro ballI)
  fix k assume "k \<in> {k. d + k \<in> K}"
  then have "m (a + of_nat (d + k)) \<noteq> None \<and> m (b + of_nat (d + k)) \<noteq> None"
    using assms unfolding mapped_at_def by blast
  then show "m (a + of_nat d + of_nat k) \<noteq> None \<and> m (b + of_nat d + of_nat k) \<noteq> None"
    by (simp add: add.assoc)
qed

text \<open>A field of bytes, at an offset from the two bases.\<close>

lemma memcpy_field:
  assumes "mapped_at a b K m" and "set [d..<d + n] \<subseteq> K" and "n < 2 ^ 31"
  shows "memcpy m (a + of_nat d) (b + of_nat d) (c_size (int n)) = Some (overlay a b (set [d..<d + n]) m)"
proof -
  have "{..<n} \<subseteq> {k. d + k \<in> K}" using assms(2) by auto
  then have "mapped_at (a + of_nat d) (b + of_nat d) {..<n} m"
    using shift_mapped [OF assms(1), of d] by (auto simp: mapped_at_def)
  moreover have "(+) d ` {..<n} = {d..<d + n}"
    using image_add_atLeastLessThan [of d 0 n] by (simp add: atLeast0LessThan add.commute)
  ultimately show ?thesis
    using assms(3) by (simp add: memcpy_overlay c_size_int overlay_shift)
qed

definition elem_step :: "VMStateField \<Rightarrow> u64 \<Rightarrow> u64 \<Rightarrow> nat \<Rightarrow> hmem \<Rightarrow> hmem option" where
  "elem_step f a b i m =
     (if tst (f_flags f) VMS_STRUCT then
        (case f_vmsd f of None \<Rightarrow> None
         | Some sub \<Rightarrow> device_load_state sub (a + of_nat (f_offset f + f_size f * i)) (b + of_nat (f_offset f + f_size f * i)) m)
      else memcpy m (a + of_nat (f_offset f + f_size f * i)) (b + of_nat (f_offset f + f_size f * i))
             (c_size (int (f_size f))))"

lemma device_load_state_static:
  assumes "static_vmsd vmsd"
  shows "device_load_state vmsd a b m =
     for_list (vm_fields vmsd)
       (\<lambda>f m. if exists_at (vm_version_id vmsd) f then for_list [0..<static_elems f] (elem_step f a b) m
              else Some m) m"
  unfolding device_load_state.simps [of vmsd]
proof (rule for_list_cong [OF refl refl], goal_cases)
  case (1 f m)
  then have f: "static_field f" using static_vmsd_field(1) [OF assms] by blast
  obtain n where n: "vmstate_n_elems m b f = Some n" "nat n = static_elems f"
    using static_location(2) [OF f, of m b] by auto
  have ex: "field_present m a v f = exists_at v f" for v
    using static_exists [OF f] by (simp add: field_present_def)
  show ?case
    unfolding ex Let_def static_location(1,3,4) [OF f] n option.case prod.case elem_offset elem_step_def [symmetric]
    by simp
qed

theorem device_load_state_overlay:
  assumes "static_vmsd vmsd" and "disjoint_at a b K" and "mapped_at a b K m"
    and "set (vm_cover vmsd) \<subseteq> K"
  shows "device_load_state vmsd a b m = Some (overlay a b (set (vm_cover vmsd)) m)"
  using assms
proof (induction "size vmsd" arbitrary: vmsd a b K m rule: less_induct)
  case less
  note st = less.prems(1) and dj = less.prems(2) and cov = less.prems(4)
  have elem: "elem_step f a b i m = Some (overlay a b (set (elem_cover f i)) m)"
    if f: "f \<in> set (vm_fields vmsd)" and mp: "mapped_at a b K m" and sub: "set (elem_cover f i) \<subseteq> K" for f i m
  proof -
    have fs: "static_field f" and vs: "\<And>v. f_vmsd f = Some v \<Longrightarrow> static_vmsd v"
      using static_vmsd_field [OF st f] by auto
    show ?thesis
    proof (cases "tst (f_flags f) VMS_STRUCT")
      case True
      then obtain v where v: "f_vmsd f = Some v" using fs by (auto simp: static_field_def)
      define d where "d = f_offset f + f_size f * i"
      have "device_load_state v (a + of_nat d) (b + of_nat d) m =
          Some (overlay (a + of_nat d) (b + of_nat d) (set (vm_cover v)) m)"
        using size_field_vmsd [OF v] size_vmsd_field [OF f] sub v True
        by (intro less.hyps [where K = "{k. d + k \<in> K}"] vs shift_set [OF dj] shift_mapped [OF mp])
          (auto simp: elem_cover_def d_def)
      then show ?thesis
        using True v by (simp add: elem_step_def elem_cover_def overlay_shift flip: d_def)
    next
      case False
      then show ?thesis
        using memcpy_field [OF mp, of "f_offset f + f_size f * i" "f_size f"] sub fs
        by (simp add: elem_step_def elem_cover_def static_field_def)
    qed
  qed
  have "for_list [0..<static_elems f] (elem_step f a b) m =
      Some (overlay a b (\<Union>i \<in> set [0..<static_elems f]. set (elem_cover f i)) m)"
    if "f \<in> set (vm_fields vmsd)" "exists_at (vm_version_id vmsd) f" "mapped_at a b K m" for f m
    using that elem_cover_sub [OF that(1,2)] cov by (intro for_list_overlay [OF dj] elem) auto
  then show ?case
    unfolding device_load_state_static [OF st] vm_cover_fields
    using elem_cover_sub [of _ vmsd] cov less.prems(3)
    by (intro for_list_overlay [OF dj]) (auto split: if_splits, blast)
qed

subsection \<open>The reset\<close>

lemma apart_disjoint: "apart a b n \<Longrightarrow> disjoint_at a b {..<n}"
  by (auto simp: apart_def disjoint_at_def)

lemma apart_sym: "apart a b n \<Longrightarrow> apart b a n"
  by (metis apart_def)

lemma mapped_blocks: "mapped m a n \<Longrightarrow> mapped m b n \<Longrightarrow> mapped_at a b {..<n} m"
  by (auto simp: mapped_iff mapped_at_def)

lemma apart_at: "apart a b n \<Longrightarrow> k < n \<Longrightarrow> a + of_nat k \<notin> (\<lambda>k. b + of_nat k) ` {..<n}"
  by (auto simp: apart_def)

lemma in_block:
  fixes a :: u64
  assumes "a + of_nat k \<in> (\<lambda>k. a + of_nat k) ` A" and "k < n" and "A \<subseteq> {..<n}" and "n \<le> 2 ^ 63"
  shows "k \<in> A"
proof -
  obtain l where l: "l \<in> A" "of_nat k = (of_nat l :: u64)" using assms(1) by auto
  have "l < n" using l(1) assms(3) by auto
  have "unat (of_nat k :: u64) = k" "unat (of_nat l :: u64) = l"
    using assms(2,4) \<open>l < n\<close> by (simp_all add: unsigned_of_nat take_bit_nat_eq_self)
  then have "k = l" using l(2) by metis
  then show ?thesis using l(1) by simp
qed

definition entry_ok :: "dev_snapshots \<Rightarrow> nat \<Rightarrow> bool" where
  "entry_ok ds n \<longleftrightarrow>
     devname ds \<noteq> None \<and> statesize ds = int n \<and> n < 2 ^ 31 \<and> static_vmsd (ds_vmsd ds) \<and>
     list_all (\<lambda>k. k < n) (vm_cover (ds_vmsd ds))"

definition blocks_ok :: "dev_snapshots \<Rightarrow> u64 \<Rightarrow> nat \<Rightarrow> hmem \<Rightarrow> bool" where
  "blocks_ok ds opaque n m \<longleftrightarrow>
     mapped m opaque n \<and> mapped m (snapshot ds) n \<and> mapped m (swapspace ds) n \<and>
     apart opaque (snapshot ds) n \<and> apart opaque (swapspace ds) n \<and> apart (snapshot ds) (swapspace ds) n"

lemma memcpy_block:
  assumes "mapped m a n" and "mapped m b n" and "n < 2 ^ 31"
  shows "memcpy m a b (c_size (int n)) = Some (overlay a b {..<n} m)"
  using assms by (simp add: c_size_int memcpy_overlay mapped_blocks)

lemma mapped_overlay_block: "mapped m c k \<Longrightarrow> mapped m b n \<Longrightarrow> mapped (overlay a b {..<n} m) c k"
  by (auto simp: mapped_iff overlay_def algebra_simps)

text \<open>The three copies of a reset, as one update of the memory.\<close>

definition reset_mem :: "dev_snapshots \<Rightarrow> u64 \<Rightarrow> nat \<Rightarrow> hmem \<Rightarrow> hmem" where
  "reset_mem ds opaque n m =
     overlay opaque (swapspace ds) (set (vm_cover (ds_vmsd ds)))
       (overlay opaque (snapshot ds) {..<n} (overlay (swapspace ds) opaque {..<n} m))"

lemma nap_reset_mem:
  assumes "entry_ok ds n" and "blocks_ok ds opaque n m"
  shows "device_nap_reset (ds # g_dss) (the (devname ds)) opaque m = Some (reset_mem ds opaque n m)"
proof -
  note ok = assms [unfolded entry_ok_def blocks_ok_def]
  have "device_load_state (ds_vmsd ds) opaque (swapspace ds)
      (overlay opaque (snapshot ds) {..<n} (overlay (swapspace ds) opaque {..<n} m)) = Some (reset_mem ds opaque n m)"
    unfolding reset_mem_def using ok
    by (intro device_load_state_overlay [where K = "{..<n}"] apart_disjoint mapped_blocks mapped_overlay_block)
      (auto simp: list_all_iff)
  with ok show ?thesis by (auto simp: memcpy_block mapped_overlay_block)
qed

lemma reset_mem_at:
  assumes "entry_ok ds n" and "blocks_ok ds opaque n m" and "k < n"
  shows "reset_mem ds opaque n m (opaque + of_nat k) =
     (if k \<in> set (vm_cover (ds_vmsd ds)) then m (opaque + of_nat k) else m (snapshot ds + of_nat k))"
proof -
  note ok = assms [unfolded entry_ok_def blocks_ok_def]
  have K: "set (vm_cover (ds_vmsd ds)) \<subseteq> {..<n}" using ok by (auto simp: list_all_iff)
  let ?m1 = "overlay (swapspace ds) opaque {..<n} m"
  have swap: "overlay opaque (snapshot ds) {..<n} ?m1 (swapspace ds + of_nat k) = m (opaque + of_nat k)"
    using ok apart_at [OF apart_sym, of opaque "swapspace ds" n k] by (simp add: overlay_other overlay_at)
  have snap: "overlay opaque (snapshot ds) {..<n} ?m1 (opaque + of_nat k) = m (snapshot ds + of_nat k)"
    using ok apart_at [of "snapshot ds" "swapspace ds" n k] by (simp add: overlay_other overlay_at)
  show ?thesis
  proof (cases "k \<in> set (vm_cover (ds_vmsd ds))")
    case True
    then show ?thesis by (simp add: reset_mem_def overlay_at swap)
  next
    case False
    then have "opaque + of_nat k \<notin> (\<lambda>k. opaque + of_nat k) ` set (vm_cover (ds_vmsd ds))"
      using in_block [OF _ assms(3) K, of opaque] ok by auto
    then show ?thesis using False by (simp add: reset_mem_def overlay_other snap)
  qed
qed

lemma reset_mem_other:
  assumes "entry_ok ds n" and "\<And>k. k < n \<Longrightarrow> x \<noteq> opaque + of_nat k"
    and "\<And>k. k < n \<Longrightarrow> x \<noteq> swapspace ds + of_nat k"
  shows "reset_mem ds opaque n m x = m x"
proof -
  have "set (vm_cover (ds_vmsd ds)) \<subseteq> {..<n}" using assms(1) by (auto simp: entry_ok_def list_all_iff)
  then have "x \<notin> (\<lambda>k. opaque + of_nat k) ` set (vm_cover (ds_vmsd ds))" using assms(2) by blast
  then show ?thesis unfolding reset_mem_def using assms(2,3) by (simp add: overlay_other image_iff)
qed

lemma nap_reset_skip:
  assumes "list_all (\<lambda>ds. devname ds \<noteq> None \<and> devname ds \<noteq> Some name) xs"
  shows "device_nap_reset (xs @ ys) name opaque m = device_nap_reset ys name opaque m"
  using assms by (induction xs) auto

subsection \<open>Taking the snapshot\<close>

text \<open>
  What is asked of \<^verbatim>\<open>malloc\<close>: a block that was not in use, mapped in the new memory, which is the old
  one elsewhere.
\<close>

definition malloc_ok :: "(hmem \<Rightarrow> nat \<Rightarrow> (u64 \<times> hmem) option) \<Rightarrow> bool" where
  "malloc_ok malloc \<longleftrightarrow>
     (\<forall>m n a m'. malloc m n = Some (a, m') \<longrightarrow>
        mapped m' a n \<and> (\<forall>k<n. m (a + of_nat k) = None) \<and> (\<forall>x. m x \<noteq> None \<longrightarrow> m' x = m x))"

lemma malloc_mapped: "malloc_ok malloc \<Longrightarrow> malloc m n = Some (a, m') \<Longrightarrow> mapped m b k \<Longrightarrow> mapped m' b k"
  by (auto simp: malloc_ok_def mapped_iff) (metis option.distinct(1))

lemma malloc_apart:
  "malloc_ok malloc \<Longrightarrow> malloc m n = Some (a, m') \<Longrightarrow> mapped m b n \<Longrightarrow> n \<le> 2 ^ 63 \<Longrightarrow> apart b a n"
  unfolding malloc_ok_def mapped_iff apart_def by metis

lemma malloc_keeps: "malloc_ok malloc \<Longrightarrow> malloc m n = Some (a, m') \<Longrightarrow> m x \<noteq> None \<Longrightarrow> m' x = m x"
  by (auto simp: malloc_ok_def)

lemma malloc_block: "malloc_ok malloc \<Longrightarrow> malloc m n = Some (a, m') \<Longrightarrow> mapped m' a n"
  by (auto simp: malloc_ok_def)

lemma snapshot_taken:
  assumes "malloc_ok malloc" and "n < 2 ^ 31" and "mapped m dev n"
    and "malloc m n = Some (a, m1)" and "malloc m1 n = Some (b, m2)"
  shows "device_snapshot malloc (Some vmsd) n dev [] m =
      Some ([\<lparr>devname = Some (vm_name vmsd), statesize = int n, snapshot = a, swapspace = b, ds_vmsd = vmsd\<rparr>],
        overlay a dev {..<n} m2)"
    and "mapped m2 dev n" "mapped m2 a n" "mapped m2 b n"
    and "apart dev a n" "apart dev b n" "apart a b n"
    and "\<And>k. k < n \<Longrightarrow> overlay a dev {..<n} m2 (a + of_nat k) = m (dev + of_nat k)"
proof -
  have n: "unat (of_nat n :: u32) = n" "n \<le> 2 ^ 63" using assms(2) by (simp_all add: unsigned_of_nat take_bit_nat_eq_self)
  show map: "mapped m2 dev n" "mapped m2 a n" "mapped m2 b n"
    using malloc_mapped [OF assms(1)] malloc_block [OF assms(1)] assms(3-5) by blast+
  show "apart dev a n" "apart dev b n" "apart a b n"
    using malloc_apart [OF assms(1) _ _ n(2)] malloc_mapped [OF assms(1)] malloc_block [OF assms(1)] assms(3-5)
    by blast+
  show "device_snapshot malloc (Some vmsd) n dev [] m =
      Some ([\<lparr>devname = Some (vm_name vmsd), statesize = int n, snapshot = a, swapspace = b, ds_vmsd = vmsd\<rparr>],
        overlay a dev {..<n} m2)"
    using map assms(2,4,5) by (simp add: device_snapshot_def n c_int_small memcpy_overlay mapped_blocks)
  show "overlay a dev {..<n} m2 (a + of_nat k) = m (dev + of_nat k)" if "k < n" for k
  proof -
    have "m (dev + of_nat k) \<noteq> None" using assms(3) that unfolding mapped_iff by blast
    then have "m2 (dev + of_nat k) = m (dev + of_nat k)"
      using malloc_keeps [OF assms(1)] assms(4,5) by metis
    then show ?thesis using that by (simp add: overlay_at)
  qed
qed

end
