(* ===== verification/E1000_Table.thy ===== *)
theory E1000_Table
  imports Disc_Reset E1000_Migrate
begin

text \<open>
  The bytes of the e1000 device state that its migration table lists, computed from the table and the
  layout of the state.
\<close>

subsection \<open>What the table of the e1000 covers\<close>

lemma array_cover: "(\<Union>i\<in>{0..<n}. {a + s * i..<a + s * i + s}) = {a..<a + s * n :: nat}"
  by (induction n) (auto simp: atLeastLessThanSuc algebra_simps)

text \<open>A field without a description of its own covers an interval.\<close>

definition field_covers :: "nat \<Rightarrow> VMStateField \<Rightarrow> bool" where
  "field_covers k f \<longleftrightarrow>
     (if tst (f_flags f) VMS_STRUCT then list_ex (\<lambda>i. k \<in> set (elem_cover f i)) [0..<static_elems f]
      else f_offset f \<le> k \<and> k < f_offset f + f_size f * static_elems f)"

lemma in_vm_cover:
  "k \<in> set (vm_cover vmsd) \<longleftrightarrow>
     list_ex (\<lambda>f. exists_at (vm_version_id vmsd) f \<and> field_covers k f) (vm_fields vmsd)"
proof -
  have "(\<exists>i\<in>{0..<static_elems f}. k \<in> set (elem_cover f i)) = field_covers k f" for f
  proof (cases "tst (f_flags f) VMS_STRUCT")
    case True
    then show ?thesis by (auto simp: field_covers_def list_ex_iff)
  next
    case False
    then have "(\<exists>i\<in>{0..<static_elems f}. k \<in> set (elem_cover f i)) \<longleftrightarrow>
        k \<in> (\<Union>i\<in>{0..<static_elems f}. {f_offset f + f_size f * i..<f_offset f + f_size f * i + f_size f})"
      by (simp add: elem_cover_def)
    then show ?thesis using False unfolding array_cover by (simp add: field_covers_def)
  qed
  then show ?thesis unfolding vm_cover_fields by (auto simp: list_ex_iff split: if_splits)
qed

text \<open>The fields that the macros of the e1000 tables make.\<close>

lemmas field_facts = field_covers_def vmstate_macros vms_flags exists_at_def static_elems_def static_field_def
  dynamic_flags_def

lemma covers_single [simp]:
  "field_covers k (VMSTATE_UINT32 nm off) \<longleftrightarrow> off \<le> k \<and> k < off + 4"
  "field_covers k (VMSTATE_UINT16 nm off) \<longleftrightarrow> off \<le> k \<and> k < off + 2"
  "field_covers k (VMSTATE_UINT8 nm off) \<longleftrightarrow> off \<le> k \<and> k < off + 1"
  "field_covers k (VMSTATE_INT8 nm off) \<longleftrightarrow> off \<le> k \<and> k < off + 1"
  "field_covers k (VMSTATE_BUFFER nm off sz) \<longleftrightarrow> off \<le> k \<and> k < off + sz"
  "field_covers k (VMSTATE_UINT16_ARRAY nm off num) \<longleftrightarrow> off \<le> k \<and> k < off + 2 * nat num"
  "field_covers k (VMSTATE_UINT32_SUB_ARRAY nm off start num) \<longleftrightarrow>
     off + 4 * start \<le> k \<and> k < off + 4 * start + 4 * nat num"
  "field_covers k (VMSTATE_UNUSED sz) \<longleftrightarrow> k < sz"
  by (simp_all add: field_facts mult.commute)

lemma covers_pci [simp]:
  "field_covers k (VMSTATE_PCI_DEVICE pci sz nm off) \<longleftrightarrow> k \<in> (+) off ` set (vm_cover pci)"
  by (simp add: field_facts elem_cover_def)

lemma exists_single [simp]:
  "exists_at v (VMSTATE_UINT32 nm off)" "exists_at v (VMSTATE_UINT16 nm off)" "exists_at v (VMSTATE_UINT8 nm off)"
  "exists_at v (VMSTATE_INT8 nm off)" "exists_at v (VMSTATE_BUFFER nm off sz)"
  "exists_at v (VMSTATE_UINT16_ARRAY nm off num)" "exists_at v (VMSTATE_UINT32_SUB_ARRAY nm off start num)"
  "exists_at v (VMSTATE_UNUSED sz)" "exists_at v (VMSTATE_PCI_DEVICE pci sz nm off)"
  "exists_at v (VMSTATE_UNUSED_TEST (Some (\<lambda>m. is_version_1)) sz) \<longleftrightarrow> v = 1"
  by (simp_all add: field_facts is_version_1_def)

lemma static_single [simp]:
  "static_field (VMSTATE_UINT32 nm off)" "static_field (VMSTATE_UINT16 nm off)" "static_field (VMSTATE_UINT8 nm off)"
  "static_field (VMSTATE_INT8 nm off)" "sz < 2 ^ 31 \<Longrightarrow> static_field (VMSTATE_BUFFER nm off sz)"
  "static_field (VMSTATE_UINT16_ARRAY nm off num)" "static_field (VMSTATE_UINT32_SUB_ARRAY nm off start num)"
  "sz < 2 ^ 31 \<Longrightarrow> static_field (VMSTATE_UNUSED sz)" "sz < 2 ^ 31 \<Longrightarrow> static_field (VMSTATE_PCI_DEVICE pci sz nm off)"
  "sz < 2 ^ 31 \<Longrightarrow> static_field (VMSTATE_UNUSED_TEST (Some (\<lambda>m. is_version_1)) sz)"
  by (simp_all add: field_facts is_version_1_def)

lemma sub_single [simp]:
  "f_vmsd (VMSTATE_UINT32 nm off) = None" "f_vmsd (VMSTATE_UINT16 nm off) = None" "f_vmsd (VMSTATE_UINT8 nm off) = None"
  "f_vmsd (VMSTATE_INT8 nm off) = None" "f_vmsd (VMSTATE_BUFFER nm off sz) = None"
  "f_vmsd (VMSTATE_UINT16_ARRAY nm off num) = None" "f_vmsd (VMSTATE_UINT32_SUB_ARRAY nm off start num) = None"
  "f_vmsd (VMSTATE_UNUSED sz) = None" "f_vmsd (VMSTATE_PCI_DEVICE pci sz nm off) = Some pci"
  "f_vmsd (VMSTATE_UNUSED_TEST t sz) = None"
  by (simp_all add: vmstate_macros)

lemma e1000_static:
  "pci_sz < 2 ^ 31 \<Longrightarrow> static_vmsd pci \<Longrightarrow> static_vmsd (vmstate_e1000 pre post needed pci pci_sz off)"
  by (subst static_vmsd.simps) (simp add: vmstate_e1000_def e1000_fields_def mac_field_def)

lemma e1000_offs:
  "e1000_off base ''parent_obj'' = 0"
  "e1000_off base ''mac_reg'' = base"
  "e1000_off base ''phy_reg'' = base + 0x20000"
  "e1000_off base ''eeprom_data'' = base + 0x20040"
  "e1000_off base ''rxbuf_size'' = base + 0x200c0"
  "e1000_off base ''rxbuf_min_shift'' = base + 0x200c4"
  "e1000_off base ''tx.header'' = base + 0x200c8"
  "e1000_off base ''tx.vlan_header'' = base + 0x201c8"
  "e1000_off base ''tx.vlan'' = base + 0x201cc"
  "e1000_off base ''tx.data'' = base + 0x201d0"
  "e1000_off base ''tx.size'' = base + 0x301d0"
  "e1000_off base ''tx.sum_needed'' = base + 0x301d2"
  "e1000_off base ''tx.vlan_needed'' = base + 0x301d3"
  "e1000_off base ''tx.ipcss'' = base + 0x301d4"
  "e1000_off base ''tx.ipcso'' = base + 0x301d5"
  "e1000_off base ''tx.ipcse'' = base + 0x301d6"
  "e1000_off base ''tx.tucss'' = base + 0x301d8"
  "e1000_off base ''tx.tucso'' = base + 0x301d9"
  "e1000_off base ''tx.tucse'' = base + 0x301da"
  "e1000_off base ''tx.hdr_len'' = base + 0x301dc"
  "e1000_off base ''tx.mss'' = base + 0x301de"
  "e1000_off base ''tx.paylen'' = base + 0x301e0"
  "e1000_off base ''tx.tso_frames'' = base + 0x301e4"
  "e1000_off base ''tx.tse'' = base + 0x301e6"
  "e1000_off base ''tx.ip'' = base + 0x301e7"
  "e1000_off base ''tx.tcp'' = base + 0x301e8"
  "e1000_off base ''tx.cptse'' = base + 0x301e9"
  "e1000_off base ''eecd_state.val_in'' = base + 0x301ec"
  "e1000_off base ''eecd_state.bitnum_in'' = base + 0x301f0"
  "e1000_off base ''eecd_state.bitnum_out'' = base + 0x301f2"
  "e1000_off base ''eecd_state.reading'' = base + 0x301f4"
  "e1000_off base ''eecd_state.old_eecd'' = base + 0x301f8"
  "e1000_off base ''autoneg_timer'' = base + 0x30200"
  "e1000_off base ''mit_timer'' = base + 0x30208"
  "e1000_off base ''mit_timer_on'' = base + 0x30210"
  "e1000_off base ''mit_irq_level'' = base + 0x30211"
  "e1000_off base ''mit_ide'' = base + 0x30214"
  "e1000_off base ''compat_flags'' = base + 0x30218"
  by (simp_all add: e1000_off_def e1000_layout_def)

text \<open>The members of the state that the table lists, apart from the registers.\<close>

definition listed_members :: "(string \<times> nat) list" where
  "listed_members =
       [(''rxbuf_size'', 4), (''rxbuf_min_shift'', 4), (''eecd_state.val_in'', 4), (''eecd_state.bitnum_in'', 2),
        (''eecd_state.bitnum_out'', 2), (''eecd_state.reading'', 2), (''eecd_state.old_eecd'', 4),
        (''tx.ipcss'', 1), (''tx.ipcso'', 1), (''tx.ipcse'', 2), (''tx.tucss'', 1), (''tx.tucso'', 1),
        (''tx.tucse'', 2), (''tx.paylen'', 4), (''tx.hdr_len'', 1), (''tx.mss'', 2), (''tx.size'', 2),
        (''tx.tso_frames'', 2), (''tx.sum_needed'', 1), (''tx.ip'', 1), (''tx.tcp'', 1), (''tx.header'', 256),
        (''tx.data'', 0x10000), (''eeprom_data'', 128), (''phy_reg'', 64)]"

definition covered_members :: "nat \<Rightarrow> nat \<Rightarrow> bool" where
  "covered_members base k \<longleftrightarrow>
     list_ex (\<lambda>(name, n). e1000_off base name \<le> k \<and> k < e1000_off base name + n) listed_members"

lemma reg_range:
  "a \<le> b \<Longrightarrow> (\<exists>r \<in> {a..<b}. base + 4 * r \<le> k \<and> k < base + 4 * r + 4) \<longleftrightarrow> base + 4 * a \<le> k \<and> k < base + 4 * b"
  for k :: nat
proof (induction b)
  case (Suc b)
  then show ?case by (cases "a = Suc b") (auto simp: atLeastLessThanSuc)
qed auto

lemma migrated_regs_cover:
  "(\<exists>r \<in> set migrated_regs. base + 4 * r \<le> k \<and> k < base + 4 * r + 4) \<longleftrightarrow>
      list_ex (\<lambda>r. base + 4 * r \<le> k \<and> k < base + 4 * r + 4) (take 37 migrated_regs) \<or>
      base + 4 * RA \<le> k \<and> k < base + 4 * (RA + 32) \<or> base + 4 * MTA \<le> k \<and> k < base + 4 * (MTA + 128) \<or>
      base + 4 * VFTA \<le> k \<and> k < base + 4 * (VFTA + 128)"
  unfolding migrated_regs_def set_append bex_Un set_upt by (simp add: reg_range del: One_nat_def)

lemma e1000_cover:
  "k \<in> set (vm_cover (vmstate_e1000 pre post needed pci pci_sz (e1000_off base))) \<longleftrightarrow>
     k \<in> set (vm_cover pci) \<or> k < 4 \<or> covered_members base k \<or>
     (\<exists>r \<in> set migrated_regs. base + 4 * r \<le> k \<and> k < base + 4 * r + 4)"
  unfolding in_vm_cover [of k "vmstate_e1000 pre post needed pci pci_sz (e1000_off base)"] migrated_regs_cover
  unfolding vmstate_e1000_def e1000_fields_def mac_field_def
  by (simp add: covered_members_def listed_members_def e1000_offs migrated_regs_def add.commute)

lemma off_members:
  "list_all (\<lambda>(name, n). base + 0x20000 \<le> e1000_off base name \<and> e1000_off base name + n \<le> base + 0x30200)
     listed_members"
  by (simp add: e1000_offs listed_members_def)

lemma covered_members_range: "covered_members base k \<Longrightarrow> base + 0x20000 \<le> k \<and> k < base + 0x30200"
  using off_members [of base] unfolding covered_members_def list_ex_iff list_all_iff by fastforce

lemma migrated_regs_range: "list_all (\<lambda>r. r < 0x8000) migrated_regs"
  by (simp add: migrated_regs_def)

lemma e1000_cover_reg:
  assumes "list_all (\<lambda>k. k < base) (vm_cover pci)" and "4 \<le> base" and "r < 0x8000" and "j < 4"
  shows "base + 4 * r + j \<in> set (vm_cover (vmstate_e1000 pre post needed pci pci_sz (e1000_off base))) \<longleftrightarrow>
     r \<in> set migrated_regs"
proof -
  have "\<not> covered_members base (base + 4 * r + j)"
    using covered_members_range [of base "base + 4 * r + j"] assms(3,4) by auto
  moreover have "base + 4 * r + j \<notin> set (vm_cover pci)" using assms(1) by (auto simp: list_all_iff)
  moreover have "base + 4 * q \<le> base + 4 * r + j \<and> base + 4 * r + j < base + 4 * q + 4 \<longleftrightarrow> q = r" for q
    using assms(4) by auto
  ultimately show ?thesis using assms(2) unfolding e1000_cover by auto
qed

lemma e1000_cover_size:
  assumes "list_all (\<lambda>k. k < base) (vm_cover pci)" and "4 \<le> base" and "base + 0x30200 \<le> n"
  shows "list_all (\<lambda>k. k < n) (vm_cover (vmstate_e1000 pre post needed pci pci_sz (e1000_off base)))"
  unfolding list_all_iff
proof
  fix k assume "k \<in> set (vm_cover (vmstate_e1000 pre post needed pci pci_sz (e1000_off base)))"
  then consider "k < base" | "covered_members base k" | r where "r \<in> set migrated_regs" "k < base + 4 * r + 4"
    unfolding e1000_cover using assms(1,2) by (auto simp: list_all_iff)
  then show "k < n"
  proof cases
    case 3
    then have "r < 0x8000" using migrated_regs_range by (auto simp: list_all_iff)
    then show ?thesis using 3 assms(3) by simp
  qed (use assms(3) covered_members_range in fastforce)+
qed

end
