(* ===== verification/Disc_Props.thy ===== *)
theory Disc_Props
  imports E1000_Table
begin

text \<open>
  Properties of the DISC snapshots: what a nap reset does to a device whose snapshot was taken, and
  which part of the e1000 device it keeps.
\<close>

subsection \<open>Snapshot and reset\<close>

text \<open>The bytes of a device: \<open>n\<close> bytes from an address.\<close>

definition in_block_at :: "u64 \<Rightarrow> nat \<Rightarrow> u64 \<Rightarrow> bool" where
  "in_block_at a n x \<longleftrightarrow> unat (x - a) < n"

lemma in_block_atI: "k < n \<Longrightarrow> n \<le> 2 ^ 63 \<Longrightarrow> in_block_at a n (a + of_nat k)"
  by (simp add: in_block_at_def unsigned_of_nat take_bit_nat_eq_self)

text \<open>
  The memory at the time of the reset: the device may have changed in any way, and so may everything
  else, as long as the two blocks of the snapshot are still there and the first still holds what was
  saved.
\<close>

definition snapshot_kept :: "dev_snapshots \<Rightarrow> u64 \<Rightarrow> nat \<Rightarrow> hmem \<Rightarrow> hmem \<Rightarrow> bool" where
  "snapshot_kept ds dev n m m' \<longleftrightarrow>
     mapped m' dev n \<and> mapped m' (swapspace ds) n \<and>
     (\<forall>k<n. m' (snapshot ds + of_nat k) = m (snapshot ds + of_nat k))"

lemma snapshot_entry:
  assumes "malloc_ok malloc" and "n < 2 ^ 31" and "mapped m dev n"
    and "device_snapshot malloc (Some vmsd) n dev [] m = Some ([ds], m1)"
  shows "ds = \<lparr>devname = Some (vm_name vmsd), statesize = int n, snapshot = snapshot ds,
               swapspace = swapspace ds, ds_vmsd = vmsd\<rparr>"
    and "apart dev (snapshot ds) n" "apart dev (swapspace ds) n" "apart (snapshot ds) (swapspace ds) n"
    and "\<And>k. k < n \<Longrightarrow> m1 (snapshot ds + of_nat k) = m (dev + of_nat k)"
proof -
  have n: "unat (of_nat n :: u32) = n" using assms(2) by (simp add: unsigned_of_nat take_bit_nat_eq_self)
  from assms(4) obtain a m' b m'' where "malloc m n = Some (a, m')" "malloc m' n = Some (b, m'')"
    by (auto simp: device_snapshot_def n Let_def split: option.splits)
  note taken = snapshot_taken [OF assms(1-3) this]
  from taken(1) [of vmsd] assms(4) have ds: "ds = \<lparr>devname = Some (vm_name vmsd), statesize = int n, snapshot = a,
               swapspace = b, ds_vmsd = vmsd\<rparr>" and m1: "m1 = overlay a dev {..<n} m''" by simp_all
  show "ds = \<lparr>devname = Some (vm_name vmsd), statesize = int n, snapshot = snapshot ds,
               swapspace = swapspace ds, ds_vmsd = vmsd\<rparr>"
    and "apart dev (snapshot ds) n" "apart dev (swapspace ds) n" "apart (snapshot ds) (swapspace ds) n"
    and "\<And>k. k < n \<Longrightarrow> m1 (snapshot ds + of_nat k) = m (dev + of_nat k)"
    using taken(5-8) by (simp_all add: ds m1)
qed

lemma snapshot_reset_mem:
  assumes "malloc_ok malloc" and "n < 2 ^ 31" and "mapped m dev n" and "static_vmsd vmsd"
    and "list_all (\<lambda>k. k < n) (vm_cover vmsd)"
    and "device_snapshot malloc (Some vmsd) n dev [] m = Some ([ds], m1)" and "snapshot_kept ds dev n m1 m2"
  shows "device_nap_reset [ds] (vm_name vmsd) dev m2 = Some (reset_mem ds dev n m2)"
    and "k < n \<Longrightarrow> reset_mem ds dev n m2 (dev + of_nat k) =
      (if k \<in> set (vm_cover vmsd) then m2 (dev + of_nat k) else m (dev + of_nat k))"
    and "\<not> in_block_at dev n x \<Longrightarrow> \<not> in_block_at (swapspace ds) n x \<Longrightarrow> reset_mem ds dev n m2 x = m2 x"
proof -
  note e = snapshot_entry [OF assms(1-3,6)] and kept = assms(7) [unfolded snapshot_kept_def]
  have f: "devname ds = Some (vm_name vmsd)" "statesize ds = int n" "ds_vmsd ds = vmsd"
    by (subst e(1), simp)+
  have ok: "entry_ok ds n" using assms(2,4,5) f by (simp add: entry_ok_def)
  have "mapped m2 (snapshot ds) n" unfolding mapped_iff
  proof (intro allI impI)
    fix i assume i: "i < n"
    then have "m (dev + of_nat i) \<noteq> None" using assms(3) unfolding mapped_iff by blast
    then show "m2 (snapshot ds + of_nat i) \<noteq> None" using kept e(5) [OF i] i by simp
  qed
  then have bl: "blocks_ok ds dev n m2" using e(2-4) kept by (simp add: blocks_ok_def)
  show "device_nap_reset [ds] (vm_name vmsd) dev m2 = Some (reset_mem ds dev n m2)"
    using nap_reset_mem [OF ok bl, of "[]"] f by simp
  show "reset_mem ds dev n m2 (dev + of_nat k) =
      (if k \<in> set (vm_cover vmsd) then m2 (dev + of_nat k) else m (dev + of_nat k))" if "k < n"
    using reset_mem_at [OF ok bl that] that f(3) kept e(5) [OF that] by simp
  show "reset_mem ds dev n m2 x = m2 x" if "\<not> in_block_at dev n x" "\<not> in_block_at (swapspace ds) n x"
    using that in_block_atI [of _ n dev] in_block_atI [of _ n "swapspace ds"] assms(2)
    by (intro reset_mem_other [OF ok]) auto
qed

subsection \<open>The properties\<close>

text \<open>
  C4. A nap reset restores the device.  Once a snapshot of a device has been taken, then whatever
  happens to the device, resetting it by name succeeds; every byte its migration table lists keeps
  the value it has at the reset, and every other byte gets the value it had when the snapshot was
  taken.
\<close>

theorem nap_reset_restores:
  assumes "malloc_ok malloc" and "n < 2 ^ 31" and "mapped m dev n" and "static_vmsd vmsd"
    and "list_all (\<lambda>k. k < n) (vm_cover vmsd)"
    and "device_snapshot malloc (Some vmsd) n dev [] m = Some ([ds], m1)" and "snapshot_kept ds dev n m1 m2"
  shows "\<exists>m3. device_nap_reset [ds] (vm_name vmsd) dev m2 = Some m3 \<and>
    (\<forall>k<n. m3 (dev + of_nat k) =
      (if k \<in> set (vm_cover vmsd) then m2 (dev + of_nat k) else m (dev + of_nat k)))"
  using snapshot_reset_mem(1,2) [OF assms] by auto

text \<open>
  C34. A nap reset touches nothing else.  No byte outside the device and the swap space of its entry
  changes.
\<close>

theorem nap_reset_frame:
  assumes "malloc_ok malloc" and "n < 2 ^ 31" and "mapped m dev n" and "static_vmsd vmsd"
    and "list_all (\<lambda>k. k < n) (vm_cover vmsd)"
    and "device_snapshot malloc (Some vmsd) n dev [] m = Some ([ds], m1)" and "snapshot_kept ds dev n m1 m2"
    and "device_nap_reset [ds] (vm_name vmsd) dev m2 = Some m3"
    and "\<not> in_block_at dev n x" and "\<not> in_block_at (swapspace ds) n x"
  shows "m3 x = m2 x"
  using snapshot_reset_mem(1,3) [OF assms(1-7)] assms(8-10) by simp

text \<open>
  C8. What a nap reset keeps of the e1000 device.  The registers of the main migration table keep
  their values.  Every other register, and every member behind the EEPROM interface (the timers, the
  mitigation flags, the property bits), goes back to the snapshot; this includes RDTR, RADV, TADV,
  ITR and the mitigation flag of the interrupt level, which migration transfers in a subsection.
\<close>

theorem e1000_nap_reset:
  assumes "malloc_ok malloc" and "n < 2 ^ 31" and "mapped m dev n"
    and "static_vmsd pci" and "list_all (\<lambda>k. k < base) (vm_cover pci)" and "4 \<le> base" and "pci_sz \<le> base"
    and "base + 0x30200 \<le> n"
    and "vmsd = vmstate_e1000 pre_save post_load mit_state_needed pci pci_sz (e1000_off base)"
    and "device_snapshot malloc (Some vmsd) n dev [] m = Some ([ds], m1)" and "snapshot_kept ds dev n m1 m2"
  shows "\<exists>m3. device_nap_reset [ds] ''e1000'' dev m2 = Some m3 \<and>
    (\<forall>r<0x8000. \<forall>j<4. m3 (dev + of_nat (base + 4 * r + j)) =
      (if r \<in> set migrated_regs then m2 (dev + of_nat (base + 4 * r + j)) else m (dev + of_nat (base + 4 * r + j)))) \<and>
    (\<forall>k. e1000_off base ''autoneg_timer'' \<le> k \<and> k < n \<longrightarrow> m3 (dev + of_nat k) = m (dev + of_nat k))"
proof -
  have "static_vmsd vmsd" "list_all (\<lambda>k. k < n) (vm_cover vmsd)"
    using e1000_static [OF _ assms(4), of pci_sz] e1000_cover_size [OF assms(5,6,8)] assms(2,7-9) by simp_all
  note r = snapshot_reset_mem(1,2) [OF assms(1-3) this assms(10,11)]
  have nm: "vm_name vmsd = ''e1000''" using assms(9) by (simp add: vmstate_e1000_def)
  have regs: "reset_mem ds dev n m2 (dev + of_nat (base + 4 * r + j)) =
      (if r \<in> set migrated_regs then m2 (dev + of_nat (base + 4 * r + j)) else m (dev + of_nat (base + 4 * r + j)))"
    if "r < 0x8000" "j < 4" for r j
    using r(2) [of "base + 4 * r + j"] e1000_cover_reg [OF assms(5,6) that, folded assms(9)] that assms(8,9) by simp
  have rest: "reset_mem ds dev n m2 (dev + of_nat k) = m (dev + of_nat k)"
    if k: "e1000_off base ''autoneg_timer'' \<le> k" "k < n" for k
  proof -
    have b: "base + 0x30200 \<le> k" using k(1) by (simp add: e1000_off_def e1000_layout_def)
    have "k \<notin> set (vm_cover vmsd)"
    proof
      assume "k \<in> set (vm_cover vmsd)"
      then have "k < base + 0x30200" using e1000_cover_size [OF assms(5,6) order.refl] assms(9) by (simp add: list_all_iff)
      then show False using b by simp
    qed
    then show ?thesis using r(2) [OF k(2)] by simp
  qed
  show ?thesis using r(1) nm regs rest by auto
qed

subsection \<open>Pointers\<close>

text \<open>
  C35. Fields reached through a pointer.  When the table describes data behind a pointer of the state,
  a reset copies that data over the pointer itself, although the data was never part of the snapshot:
  afterwards the pointer of the device holds the first bytes of the data.
\<close>

theorem pointer_field_overwritten:
  assumes "f = VMSTATE_BUFFER_POINTER_UNSAFE nm off ver sz" and "sz < 2 ^ 31"
    and "vm_fields vmsd = [f]" and "load_ptr m (swap + of_nat off) = Some p"
    and "mapped m (dev + of_nat off) sz" and "mapped m p sz"
  shows "device_load_state vmsd dev swap m = Some (mem_upd m (dev + of_nat off) (bytes_at m p sz))"
proof -
  have f: "f_flags f AND VMS_POINTER \<noteq> 0" "f_flags f AND VMS_STRUCT = 0" "f_flags f AND VMS_VBUFFER = 0"
    "f_flags f AND VMS_ARRAY = 0" "f_flags f AND VMS_VARRAY_INT32 = 0" "f_flags f AND VMS_VARRAY_UINT32 = 0"
    "f_flags f AND VMS_VARRAY_UINT16 = 0" "f_flags f AND VMS_VARRAY_UINT8 = 0" "f_flags f AND VMS_ARRAY_OF_POINTER = 0"
    "f_offset f = off" "f_size f = sz" "f_start f = 0" "f_exists f = None"
    by (simp_all add: assms(1) vmstate_macros vms_flags)
  show ?thesis
    using f assms(2-6)
    by (simp add: device_load_state.simps field_present_def vmstate_size_def vmstate_n_elems_def
        vmstate_base_addr_def elem_addr_def Let_def c_int_small c_size_int memcpy_eq)
qed

subsection \<open>A concrete machine\<close>

text \<open>
  A device at 1 MB and an allocator with two places for blocks.  The device is an e1000 whose PCI
  part has 1 KB.
\<close>

definition ex_malloc :: "hmem \<Rightarrow> nat \<Rightarrow> (u64 \<times> hmem) option" where
  "ex_malloc m n =
     (let a = (if m 0x10000000 = None then 0x10000000 else 0x20000000)
      in if n \<le> 0x100000 \<and> list_all (\<lambda>k. m (a + of_nat k) = None) [0..<n]
         then Some (a, \<lambda>x. if unat (x - a) < n then Some 0 else m x) else None)"

lemma ex_malloc_ok: "malloc_ok ex_malloc"
  unfolding malloc_ok_def
proof (intro allI impI)
  fix m n a m' assume eq: "ex_malloc m n = Some (a, m')"
  then have n: "n \<le> 0x100000" and free: "\<And>k. k < n \<Longrightarrow> m (a + of_nat k) = None"
    and m': "m' = (\<lambda>x. if unat (x - a) < n then Some 0 else m x)"
    by (auto simp: ex_malloc_def Let_def list_all_iff split: if_splits)
  have "m x = None" if "unat (x - a) < n" for x using free [OF that] by simp
  moreover have "mapped m' a n"
    using n by (auto simp: mapped_iff m' unsigned_of_nat take_bit_nat_eq_self)
  ultimately show "mapped m' a n \<and> (\<forall>k<n. m (a + of_nat k) = None) \<and> (\<forall>x. m x \<noteq> None \<longrightarrow> m' x = m x)"
    using free by (auto simp: m')
qed

definition ex_mem :: hmem where
  "ex_mem x = (if 0x100000 \<le> x \<and> x < 0x200000 then Some 7 else None)"

definition ex_pci :: VMStateDescription where
  "ex_pci = vmstate_pci_device vmstate_info_buffer vmstate_info_buffer
     (\<lambda>nm. if nm = ''version_id'' then 0x90 else if nm = ''config'' then 0x98 else 0x200)"

definition ex_vmsd :: VMStateDescription where
  "ex_vmsd = vmstate_e1000 (\<lambda>_ m. Some m) (\<lambda>_ _ m. Some (0, m)) (\<lambda>_ _. True) ex_pci 0x400 (e1000_off 0x400)"

lemma ex_pci_static: "static_vmsd ex_pci"
  by (subst static_vmsd.simps) (simp add: ex_pci_def vmstate_pci_device_def field_facts)

lemma ex_pci_cover: "list_all (\<lambda>k. k < 0x400) (vm_cover ex_pci)"
  unfolding list_all_iff Ball_def in_vm_cover by (auto simp: ex_pci_def vmstate_pci_device_def field_facts)

lemma ex_vmsd_ok:
  "static_vmsd ex_vmsd" "list_all (\<lambda>k. k < 0x31000) (vm_cover ex_vmsd)" "vm_name ex_vmsd = ''e1000''"
  using e1000_static [OF _ ex_pci_static] e1000_cover_size [OF ex_pci_cover, of "0x31000"]
  by (simp_all add: ex_vmsd_def vmstate_e1000_def)

text \<open>The entry of the table after the snapshot.\<close>

definition ex_ds :: dev_snapshots where
  "ex_ds = \<lparr>devname = Some ''e1000'', statesize = 0x31000, snapshot = 0x10000000, swapspace = 0x20000000,
            ds_vmsd = ex_vmsd\<rparr>"

definition ex_taken :: hmem where
  "ex_taken = snd (the (device_snapshot ex_malloc (Some ex_vmsd) 0x31000 0x100000 [] ex_mem))"

lemma unat_at: "k < 0x31000 \<Longrightarrow> unat (a :: u64) < 0x40000000 \<Longrightarrow> unat (a + of_nat k) = unat a + k"
  by (subst unat_add_lem [THEN iffD1]) (simp_all add: unsigned_of_nat take_bit_nat_eq_self)

lemma ex_mem_at: "k < 0x31000 \<Longrightarrow> ex_mem (0x100000 + of_nat k) = Some 7"
  "k < 0x31000 \<Longrightarrow> ex_mem (0x10000000 + of_nat k) = None" "k < 0x31000 \<Longrightarrow> ex_mem (0x20000000 + of_nat k) = None"
  by (simp_all add: ex_mem_def word_le_nat_alt word_less_nat_alt unat_at)

lemma ex_mapped: "mapped ex_mem 0x100000 0x31000"
  by (auto simp: mapped_iff ex_mem_at)

lemma ex_alloc:
  "\<exists>m1 m2. ex_malloc ex_mem 0x31000 = Some (0x10000000, m1) \<and> ex_malloc m1 0x31000 = Some (0x20000000, m2)"
proof -
  define m1 where "m1 = (\<lambda>x :: u64. if unat (x - 0x10000000) < 0x31000 then Some 0 else ex_mem x)"
  have "ex_malloc ex_mem 0x31000 = Some (0x10000000, m1)"
    using ex_mem_at(2) [of 0] by (simp add: ex_malloc_def Let_def list_all_iff ex_mem_at m1_def)
  moreover have "m1 (0x20000000 + of_nat k) = None" if "k < 0x31000" for k
  proof -
    have "0x20000000 + of_nat k - 0x10000000 = (0x10000000 + of_nat k :: u64)" by simp
    then show ?thesis using that by (simp add: m1_def ex_mem_at unat_at)
  qed
  moreover have "m1 0x10000000 \<noteq> None" by (simp add: m1_def)
  ultimately show ?thesis by (auto simp: ex_malloc_def [of m1] Let_def list_all_iff)
qed

lemma ex_snapshot:
  "device_snapshot ex_malloc (Some ex_vmsd) 0x31000 0x100000 [] ex_mem = Some ([ex_ds], ex_taken)"
  "mapped ex_taken 0x100000 0x31000" "mapped ex_taken 0x20000000 0x31000"
proof -
  obtain m1 m2 where m: "ex_malloc ex_mem 0x31000 = Some (0x10000000, m1)" "ex_malloc m1 0x31000 = Some (0x20000000, m2)"
    using ex_alloc by blast
  note t = snapshot_taken [OF ex_malloc_ok _ ex_mapped m]
  show s: "device_snapshot ex_malloc (Some ex_vmsd) 0x31000 0x100000 [] ex_mem = Some ([ex_ds], ex_taken)"
    using t(1) [of ex_vmsd] by (simp add: ex_taken_def ex_ds_def ex_vmsd_ok(3))
  show "mapped ex_taken 0x100000 0x31000" "mapped ex_taken 0x20000000 0x31000"
    using t(1) [of ex_vmsd] t(2-4) by (simp_all add: ex_taken_def mapped_overlay_block)
qed

text \<open>The device has run: ICR and ITR have changed.\<close>

definition ex_ran :: hmem where
  "ex_ran = ex_taken(0x1004c0 \<mapsto> 9, 0x1004c4 \<mapsto> 9)"

lemma ex_kept: "snapshot_kept ex_ds 0x100000 0x31000 ex_taken ex_ran"
proof -
  have "(0x10000000 + of_nat k :: u64) \<noteq> 0x1004c0 \<and> (0x10000000 + of_nat k :: u64) \<noteq> 0x1004c4" if "k < 0x31000" for k
    using unat_at [OF that, of "0x10000000"] by (intro conjI notI) (drule arg_cong [where f = unat], simp)+
  then show ?thesis using ex_snapshot(2,3) by (auto simp: snapshot_kept_def ex_ran_def ex_ds_def mapped_iff)
qed

lemma ex_cover: "0x4c0 \<in> set (vm_cover ex_vmsd)" "0x4c4 \<notin> set (vm_cover ex_vmsd)"
  using e1000_cover_reg [OF ex_pci_cover, where r = "0x30" and j = 0] e1000_cover_reg [OF ex_pci_cover, where r = "0x31" and j = 0]
  by (simp_all add: ex_vmsd_def migrated_regs_def)

subsection \<open>Witnesses\<close>

theorem nap_reset_restores_witness:
  "\<exists>m3. device_nap_reset [ex_ds] ''e1000'' 0x100000 ex_ran = Some m3 \<and> m3 0x1004c0 = Some 9 \<and> m3 0x1004c4 = Some 7"
proof -
  obtain m3 where m3: "device_nap_reset [ex_ds] ''e1000'' 0x100000 ex_ran = Some m3"
    "\<forall>k<0x31000. m3 (0x100000 + of_nat k) =
      (if k \<in> set (vm_cover ex_vmsd) then ex_ran (0x100000 + of_nat k) else ex_mem (0x100000 + of_nat k))"
    using nap_reset_restores [OF ex_malloc_ok _ ex_mapped ex_vmsd_ok(1,2) ex_snapshot(1) ex_kept] ex_vmsd_ok(3)
    by auto
  have "m3 0x1004c0 = Some 9" using m3(2) [rule_format, of "0x4c0"] ex_cover(1) by (simp add: ex_ran_def)
  moreover have "m3 0x1004c4 = Some 7"
    using m3(2) [rule_format, of "0x4c4"] ex_cover(2) ex_mem_at(1) [of "0x4c4"] by simp
  ultimately show ?thesis using m3(1) by blast
qed

theorem nap_reset_frame_witness:
  "\<exists>m3. device_nap_reset [ex_ds] ''e1000'' 0x100000 ex_ran = Some m3 \<and> m3 0x10000000 = ex_ran 0x10000000"
proof -
  have k: "device_nap_reset [ex_ds] ''e1000'' 0x100000 ex_ran = Some (reset_mem ex_ds 0x100000 0x31000 ex_ran)"
    using snapshot_reset_mem(1) [OF ex_malloc_ok _ ex_mapped ex_vmsd_ok(1,2) ex_snapshot(1) ex_kept] ex_vmsd_ok(3) by simp
  then show ?thesis
    using nap_reset_frame [OF ex_malloc_ok _ ex_mapped ex_vmsd_ok(1,2) ex_snapshot(1) ex_kept, of _ "0x10000000"] ex_vmsd_ok(3)
    by (simp add: in_block_at_def ex_ds_def)
qed

theorem e1000_nap_reset_witness:
  "\<exists>m3. device_nap_reset [ex_ds] ''e1000'' 0x100000 ex_ran = Some m3 \<and> m3 0x1004c4 = Some 7 \<and>
     m3 0x130611 = Some 7"
proof -
  obtain m3 where m3: "device_nap_reset [ex_ds] ''e1000'' 0x100000 ex_ran = Some m3"
    "\<And>r j. r < 0x8000 \<Longrightarrow> j < 4 \<Longrightarrow> m3 (0x100000 + of_nat (0x400 + 4 * r + j)) =
      (if r \<in> set migrated_regs then ex_ran (0x100000 + of_nat (0x400 + 4 * r + j))
       else ex_mem (0x100000 + of_nat (0x400 + 4 * r + j)))"
    "\<And>k. e1000_off 0x400 ''autoneg_timer'' \<le> k \<Longrightarrow> k < 0x31000 \<Longrightarrow> m3 (0x100000 + of_nat k) = ex_mem (0x100000 + of_nat k)"
    using e1000_nap_reset [OF ex_malloc_ok _ ex_mapped ex_pci_static ex_pci_cover _ _ _ ex_vmsd_def ex_snapshot(1) ex_kept]
    by auto
  have "m3 0x1004c4 = Some 7"
    using m3(2) [of ITR 0] ex_mem_at(1) [of "0x4c4"] by (simp add: migrated_regs_def)
  moreover have "m3 0x130611 = Some 7"
    using m3(3) [of "0x30611"] ex_mem_at(1) [of "0x30611"] by (simp add: e1000_off_def e1000_layout_def)
  ultimately show ?thesis using m3(1) by blast
qed

theorem pointer_field_overwritten_witness:
  "\<exists>f vmsd m. f = VMSTATE_BUFFER_POINTER_UNSAFE ''p'' 0 0 8 \<and> vm_fields vmsd = [f] \<and>
     device_load_state vmsd 0x100000 0x100010 m = Some (mem_upd m 0x100000 (bytes_at m 0x100020 8))"
proof -
  define m where "m = mem_upd ex_mem 0x100010 [0x20, 0, 0x10, 0, 0, 0, 0, 0]"
  define f where "f = VMSTATE_BUFFER_POINTER_UNSAFE ''p'' 0 0 8"
  define vmsd where "vmsd = VMStateDescription ''t'' 0 1 1 1 None None None None [f] []"
  have mp: "mapped m (0x100000 + of_nat k) 8" if "k \<le> 0x100" for k
    unfolding m_def by (rule mapped_mem_upd, rule mapped_sub [OF ex_mapped]) (use that in simp)
  have "load_ptr m 0x100010 = Some 0x100020"
    using mp [of "0x10"] unfolding load_ptr_def mem_read_def
    by (simp add: bytes_at_def upt_rec m_def mem_upd_def)
  then show ?thesis
    using pointer_field_overwritten [OF f_def, of vmsd m "0x100010" "0x100020" "0x100000"] mp [of 0] mp [of "0x20"]
    by (intro exI [of _ f] exI [of _ vmsd] exI [of _ m]) (simp add: vmsd_def f_def)
qed

end
