(* ===== verification/Qemu_Stream.thy ===== *)
theory Qemu_Stream
  imports Qemu_File
begin

text \<open>
  The stream that a \<^verbatim>\<open>QEMUFile\<close> stands for.  A back end that takes all it is given makes every put
  operation append its bytes to the stream; a back end that delivers all it has makes every get
  operation take the next bytes from it.  The standard-input/output and descriptor back ends are such
  back ends.
\<close>

subsection \<open>Output\<close>

text \<open>The bytes handed over so far: those in the host file and those still in the buffer.\<close>

definition written :: "QEMUFile \<Rightarrow> u8 list" where
  "written f = fdata (qf_opaque f) @ buf_range f 0 (buf_index f)"

definition wr_ok :: "QEMUFileOps \<Rightarrow> (iofile \<Rightarrow> bool) \<Rightarrow> QEMUFile \<Rightarrow> bool" where
  "wr_ok ops ok f \<longleftrightarrow>
     qf_ops f = ops \<and> ok (qf_opaque f) \<and> last_error f = 0 \<and> buf_index f < IO_BUF_SIZE \<and>
     qf_iov f = (if writev_buffer ops \<noteq> None \<and> buf_index f > 0 then [(0, buf_index f)] else [])"

definition appends :: "QEMUFileOps \<Rightarrow> (iofile \<Rightarrow> bool) \<Rightarrow> QEMUFile \<Rightarrow> u8 list \<Rightarrow> QEMUFile option \<Rightarrow> bool" where
  "appends ops ok f bs r \<longleftrightarrow> (\<exists>g. r = Some g \<and> wr_ok ops ok g \<and> written g = written f @ bs)"

lemma appendsE:
  assumes "appends ops ok f bs r"
  obtains g where "r = Some g" and "wr_ok ops ok g" and "written g = written f @ bs"
  using assms by (auto simp: appends_def)

lemma appends_bind:
  assumes "appends ops ok f bs r"
    and "\<And>g. wr_ok ops ok g \<Longrightarrow> appends ops ok g cs (k g)"
  shows "appends ops ok f (bs @ cs) (Option.bind r k)"
  using assms by (fastforce simp: appends_def)

lemma appends_None [simp]: "wr_ok ops ok f \<Longrightarrow> appends ops ok f [] (Some f)"
  by (simp add: appends_def)

lemma length_buf_range [simp]: "length (buf_range f i n) = n"
  by (simp add: buf_range_def)

lemma buf_range_0 [simp]: "buf_range f i 0 = []"
  by (simp add: buf_range_def)

lemma ucast_byte: "n + 8 \<le> LENGTH('b::len) \<Longrightarrow> (ucast (drop_bit n (ucast w :: 'b word)) :: u8) = ucast (drop_bit n w)"
  by (rule bit_word_eqI) (auto simp: bit_simps)

lemma bytes_le_8:
  "rev (bytes_le 8 v) = rev (bytes_le 4 (ucast (drop_bit 32 v) :: u32)) @ rev (bytes_le 4 (ucast v :: u32))"
proof -
  have "bytes_le 8 v = bytes_le 4 (ucast v :: u32) @ bytes_le 4 (ucast (drop_bit 32 v) :: u32)"
    using ucast_byte [of 0 v, where 'b = 32] ucast_byte [of 0 "drop_bit 32 v", where 'b = 32]
    by (simp add: bytes_le_def upt_rec ucast_byte)
  then show ?thesis by simp
qed

locale byte_sink =
  fixes ops :: QEMUFileOps and ok :: "iofile \<Rightarrow> bool"
  assumes sink_writable: "writev_buffer ops \<noteq> None \<or> put_buffer ops \<noteq> None"
    and sink_writev: "\<And>wv s iov pos. writev_buffer ops = Some wv \<Longrightarrow> ok s \<Longrightarrow> iov \<noteq> [] \<Longrightarrow>
      \<exists>s'. wv s iov pos = Some (int (length (concat iov)), s') \<and> fdata s' = fdata s @ concat iov \<and> ok s'"
    and sink_put: "\<And>put s bs pos. writev_buffer ops = None \<Longrightarrow> put_buffer ops = Some put \<Longrightarrow> ok s \<Longrightarrow>
      \<exists>s'. put s bs pos = (int (length bs), s') \<and> fdata s' = fdata s @ bs \<and> ok s'"
begin

lemma flush_appends:
  assumes "qf_ops f = ops" and "ok (qf_opaque f)" and "last_error f = 0"
    and "qf_iov f = (if writev_buffer ops \<noteq> None \<and> buf_index f > 0 then [(0, buf_index f)] else [])"
  shows "appends ops ok f [] (qemu_fflush f)" and "\<And>g. qemu_fflush f = Some g \<Longrightarrow> buf_index g = 0"
proof -
  have w: "qemu_file_is_writable f" using sink_writable assms(1) by (simp add: qemu_file_is_writable_def)
  have "\<exists>g. qemu_fflush f = Some g \<and> wr_ok ops ok g \<and> written g = written f \<and> buf_index g = 0"
  proof (cases "writev_buffer ops")
    case None
    then obtain put where p: "put_buffer ops = Some put" using sink_writable by auto
    show ?thesis
    proof (cases "buf_index f > 0")
      case True
      obtain s' where "put (qf_opaque f) (buf_range f 0 (buf_index f)) (qf_pos f) = (int (buf_index f), s')"
        "fdata s' = fdata (qf_opaque f) @ buf_range f 0 (buf_index f)" "ok s'"
        using sink_put [OF None p assms(2), of "buf_range f 0 (buf_index f)" "qf_pos f"] by auto
      then show ?thesis
        using None p w True assms by (simp add: qemu_fflush_def wr_ok_def written_def Let_def)
    next
      case False
      then show ?thesis
        using None p w assms by (simp add: qemu_fflush_def wr_ok_def written_def Let_def buf_range_def)
    qed
  next
    case (Some wv)
    show ?thesis
    proof (cases "buf_index f > 0")
      case True
      obtain s' where "wv (qf_opaque f) [buf_range f 0 (buf_index f)] (qf_pos f) = Some (int (buf_index f), s')"
        "fdata s' = fdata (qf_opaque f) @ buf_range f 0 (buf_index f)" "ok s'"
        using sink_writev [OF Some assms(2), of "[buf_range f 0 (buf_index f)]" "qf_pos f"] by auto
      then show ?thesis
        using Some w True assms by (simp add: qemu_fflush_def wr_ok_def written_def Let_def)
    next
      case False
      then show ?thesis
        using Some w assms by (simp add: qemu_fflush_def wr_ok_def written_def Let_def buf_range_def)
    qed
  qed
  then show "appends ops ok f [] (qemu_fflush f)" "\<And>g. qemu_fflush f = Some g \<Longrightarrow> buf_index g = 0"
    by (auto simp: appends_def)
qed

lemma flush_all:
  assumes "wr_ok ops ok f"
  shows "\<exists>g. qemu_fflush f = Some g \<and> fdata (qf_opaque g) = written f \<and> wr_ok ops ok g"
proof -
  have f: "qf_ops f = ops" "ok (qf_opaque f)" "last_error f = 0"
    "qf_iov f = (if writev_buffer ops \<noteq> None \<and> buf_index f > 0 then [(0, buf_index f)] else [])"
    using assms by (simp_all add: wr_ok_def)
  obtain g where g: "qemu_fflush f = Some g" "wr_ok ops ok g" "written g = written f"
    using appendsE [OF flush_appends(1) [OF f]] by auto
  moreover have "buf_index g = 0" by (rule flush_appends(2) [OF f g(1)])
  ultimately show ?thesis by (simp add: written_def)
qed

lemma chunk_appends:
  assumes f: "wr_ok ops ok f" and "bs \<noteq> []" and "buf_index f + length bs \<le> IO_BUF_SIZE"
  shows "appends ops ok f bs (put_chunk f bs)"
proof -
  define g where "g = (buf_store f bs)\<lparr>bytes_xfer := bytes_xfer f + int (length bs)\<rparr>"
  define h where "h = (if writev_buffer ops \<noteq> None then g\<lparr>qf_iov := [(0, buf_index f + length bs)]\<rparr> else g)
      \<lparr>buf_index := buf_index f + length bs\<rparr>"
  have step: "put_chunk f bs = (if buf_index f + length bs = IO_BUF_SIZE then qemu_fflush h else Some h)"
    using f by (cases "writev_buffer ops")
      (simp_all add: put_chunk_def add_to_iovec_def h_def g_def buf_store_def wr_ok_def Let_def split: if_splits)
  have h: "qf_ops h = ops" "ok (qf_opaque h)" "last_error h = 0"
    "qf_iov h = (if writev_buffer ops \<noteq> None \<and> buf_index h > 0 then [(0, buf_index h)] else [])"
    using f assms(2) by (simp_all add: h_def g_def buf_store_def wr_ok_def)
  have w: "written h = written f @ bs"
    by (auto simp: written_def h_def g_def buf_store_def buf_range_def nth_append intro!: nth_equalityI)
  show ?thesis
  proof (cases "buf_index f + length bs = IO_BUF_SIZE")
    case True
    then show ?thesis using step flush_appends(1) [OF h] w by (simp add: appends_def)
  next
    case False
    then have "wr_ok ops ok h" using h assms(3) f by (simp add: wr_ok_def) (simp add: h_def)
    then show ?thesis using step False w by (simp add: appends_def)
  qed
qed

lemma put_byte_appends: "wr_ok ops ok f \<Longrightarrow> appends ops ok f [v] (qemu_put_byte f v)"
  using chunk_appends [of f "[v]"] by (simp add: qemu_put_byte_def wr_ok_def)

lemma put_loop_appends: "wr_ok ops ok f \<Longrightarrow> appends ops ok f bs (put_loop f bs)"
proof (induction bs arbitrary: f rule: length_induct)
  case (1 bs)
  show ?case
  proof (cases "bs = []")
    case True
    then show ?thesis using 1(2) by (simp add: put_loop.simps)
  next
    case False
    define l where "l = min (IO_BUF_SIZE - buf_index f) (length bs)"
    have b: "buf_index f < IO_BUF_SIZE" using 1(2) by (simp add: wr_ok_def)
    then have l: "0 < l" "l \<le> length bs" "buf_index f + l \<le> IO_BUF_SIZE" using False by (auto simp: l_def)
    then have "take l bs \<noteq> []" "buf_index f + length (take l bs) \<le> IO_BUF_SIZE" using False by auto
    then obtain g where g: "put_chunk f (take l bs) = Some g" "wr_ok ops ok g" "written g = written f @ take l bs"
      by (rule appendsE [OF chunk_appends [OF 1(2)]])
    have "put_loop f bs = put_loop g (drop l bs)"
      using False g by (subst put_loop.simps) (simp add: l_def Let_def wr_ok_def qemu_file_get_error_def)
    moreover have "appends ops ok g (drop l bs) (put_loop g (drop l bs))" using 1(1) g(2) l by simp
    ultimately show ?thesis using g(3) by (simp add: appends_def)
  qed
qed

lemma put_buffer_appends: "wr_ok ops ok f \<Longrightarrow> appends ops ok f bs (qemu_put_buffer f bs)"
  by (simp add: qemu_put_buffer_def put_loop_appends) (simp add: wr_ok_def)

lemma put_be16_appends: "wr_ok ops ok f \<Longrightarrow> appends ops ok f (rev (bytes_le 2 v)) (qemu_put_be16 f v)"
  unfolding qemu_put_be16_def
  using appends_bind [OF put_byte_appends put_byte_appends, of f "ucast (drop_bit 8 v)" "ucast v"]
  by (simp add: bytes_le_def upt_rec)

lemma put_be32_appends: "wr_ok ops ok f \<Longrightarrow> appends ops ok f (rev (bytes_le 4 v)) (qemu_put_be32 f v)"
  unfolding qemu_put_be32_def
  using appends_bind [OF put_byte_appends appends_bind [OF put_byte_appends
    appends_bind [OF put_byte_appends put_byte_appends]],
    of f "ucast (drop_bit 24 v)" "ucast (drop_bit 16 v)" "ucast (drop_bit 8 v)" "ucast v"]
  by (simp add: bytes_le_def upt_rec)

lemma put_be64_appends: "wr_ok ops ok f \<Longrightarrow> appends ops ok f (rev (bytes_le 8 v)) (qemu_put_be64 f v)"
  unfolding qemu_put_be64_def bytes_le_8
  using appends_bind [OF put_be32_appends put_be32_appends] by simp

end

subsection \<open>The output back ends\<close>

definition no_events :: "iofile \<Rightarrow> bool" where
  "no_events s \<longleftrightarrow> fevents s = []"

definition short_or_interrupted :: "iofile \<Rightarrow> bool" where
  "short_or_interrupted s = list_all (\<lambda>e. case e of Short _ \<Rightarrow> True | Err n \<Rightarrow> n = EINTR) (fevents s)"

interpretation stdio_sink: byte_sink stdio_file_write_ops no_events
  by unfold_locales
    (auto simp: stdio_file_write_ops_def stdio_put_buffer_def sys_write_def no_events_def)

lemma writev_retry_ok:
  assumes "short_or_interrupted s"
  shows "\<exists>n s'. writev_retry s bs = (Inr n, s') \<and> n \<le> length bs \<and> fdata s' = fdata s @ take n bs \<and>
    short_or_interrupted s'"
  using assms
proof (induction s bs rule: writev_retry.induct)
  case (1 s bs)
  show ?case
  proof (cases "\<exists>es. fevents s = Err EINTR # es")
    case True
    then obtain es where es: "fevents s = Err EINTR # es" by blast
    then have "short_or_interrupted (s\<lparr>fevents := es\<rparr>)" using 1(2) by (simp add: short_or_interrupted_def)
    from 1(1) [OF es refl refl this] show ?thesis using es by (subst writev_retry.simps) simp
  next
    case False
    then have "writev_retry s bs = sys_write s bs"
      by (subst writev_retry.simps) (auto split: list.splits io_event.splits)
    then show ?thesis
      using 1(2) False
      by (auto simp: sys_write_def short_or_interrupted_def min_def split: list.splits io_event.splits)
  qed
qed

lemma skip_full_ok:
  "offset < length (concat iov) \<Longrightarrow>
     \<exists>iov' offset'. skip_full iov offset = Some (iov', offset') \<and>
       drop offset' (concat iov') = drop offset (concat iov) \<and> offset' < length (concat iov')"
  by (induction iov offset rule: skip_full.induct) auto

lemma writev_loop_ok:
  assumes "short_or_interrupted s" and "offset + sz = length (concat iov)"
  shows "\<exists>s'. writev_loop s iov offset sz sent = Some (sent + int sz, s') \<and>
    fdata s' = fdata s @ drop offset (concat iov) \<and> short_or_interrupted s'"
  using assms
proof (induction s iov offset sz sent rule: writev_loop.induct)
  case (1 s iov offset sz sent)
  show ?case
  proof (cases "sz = 0")
    case True
    then show ?thesis using 1(2,3) by (simp add: writev_loop.simps)
  next
    case False
    then obtain iov' offset' where sk: "skip_full iov offset = Some (iov', offset')"
      "drop offset' (concat iov') = drop offset (concat iov)" "offset' < length (concat iov')"
      using skip_full_ok [of offset iov] 1(3) by auto
    obtain n s' where w: "writev_retry s (drop offset (concat iov)) = (Inr n, s')" "n \<le> sz"
      "fdata s' = fdata s @ take n (drop offset (concat iov))" "short_or_interrupted s'"
      using writev_retry_ok [OF 1(2), of "drop offset (concat iov)"] 1(3) by auto
    have len: "offset' + sz = length (concat iov')"
      using arg_cong [OF sk(2), of length] sk(3) 1(3) by simp
    have "drop (offset' + n) (concat iov') = drop n (drop offset (concat iov))"
      using sk(2) by (simp add: add.commute flip: drop_drop)
    moreover have "\<exists>t. writev_loop s' iov' (offset' + n) (sz - n) (sent + int n) =
          Some (sent + int n + int (sz - n), t) \<and>
        fdata t = fdata s' @ drop (offset' + n) (concat iov') \<and> short_or_interrupted t"
      using w(1,2,4) len False by (intro 1(1) [OF False sk(1) refl, of _ s']) (simp_all add: sk(2))
    moreover have "writev_loop s iov offset sz sent = writev_loop s' iov' (offset' + n) (sz - n) (sent + int n)"
      using False sk(1,2) w(1) by (subst writev_loop.simps) simp
    moreover have "drop offset (concat iov) = take n (drop offset (concat iov)) @ drop n (drop offset (concat iov))"
      by (rule append_take_drop_id [symmetric])
    ultimately show ?thesis using w(2,3) by (auto simp del: drop_drop append_take_drop_id)
  qed
qed

interpretation unix_sink: byte_sink unix_write_ops short_or_interrupted
proof unfold_locales
  fix wv s pos and iov :: "u8 list list"
  assume "writev_buffer unix_write_ops = Some wv" and ok: "short_or_interrupted s" and "iov \<noteq> []"
  then show "\<exists>s'. wv s iov pos = Some (int (length (concat iov)), s') \<and> fdata s' = fdata s @ concat iov \<and>
      short_or_interrupted s'"
    using writev_loop_ok [OF ok, of 0 "length (concat iov)" iov 0]
    by (auto simp: unix_write_ops_def unix_writev_buffer_def)
qed (simp_all add: unix_write_ops_def)

subsection \<open>Input\<close>

definition buffered :: "QEMUFile \<Rightarrow> u8 list" where
  "buffered f = buf_range f (buf_index f) (buf_size f - buf_index f)"

definition to_come :: "iofile \<Rightarrow> u8 list" where
  "to_come s = drop (fpos s) (fdata s)"

text \<open>The bytes still to be read: those in the buffer and those in the host file.\<close>

definition unread :: "QEMUFile \<Rightarrow> u8 list" where
  "unread f = buffered f @ to_come (qf_opaque f)"

definition rd_ok :: "QEMUFileOps \<Rightarrow> (iofile \<Rightarrow> bool) \<Rightarrow> QEMUFile \<Rightarrow> bool" where
  "rd_ok ops ok f \<longleftrightarrow>
     qf_ops f = ops \<and> ok (qf_opaque f) \<and> buf_index f \<le> buf_size f \<and> buf_size f \<le> IO_BUF_SIZE"

text \<open>A read that returns \<open>v\<close> and takes the bytes \<open>bs\<close>.\<close>

definition takes ::
  "QEMUFileOps \<Rightarrow> (iofile \<Rightarrow> bool) \<Rightarrow> QEMUFile \<Rightarrow> u8 list \<Rightarrow> 'v \<Rightarrow> ('v \<times> QEMUFile) option \<Rightarrow> bool" where
  "takes ops ok f bs v r \<longleftrightarrow> (\<exists>g. r = Some (v, g) \<and> rd_ok ops ok g \<and> unread f = bs @ unread g)"

lemma takesE:
  assumes "takes ops ok f bs v r"
  obtains g where "r = Some (v, g)" and "rd_ok ops ok g" and "unread f = bs @ unread g"
  using assms by (auto simp: takes_def)

lemma takes_bind:
  assumes "takes ops ok f bs v r" and "unread f = bs @ cs @ rest"
    and "\<And>g. rd_ok ops ok g \<Longrightarrow> unread g = cs @ rest \<Longrightarrow> takes ops ok g cs w (k v g)"
  shows "takes ops ok f (bs @ cs) w (Option.bind r (\<lambda>(v, g). k v g))"
  using assms by (fastforce simp: takes_def)

lemma takes_Some: "rd_ok ops ok f \<Longrightarrow> takes ops ok f [] v (Some (v, f))"
  by (simp add: takes_def)

lemma length_buffered [simp]: "length (buffered f) = buf_size f - buf_index f"
  by (simp add: buffered_def)

lemma unread_buffered: "i < buf_size f - buf_index f \<Longrightarrow> qf_buf f (buf_index f + i) = unread f ! i"
  by (simp add: unread_def nth_append) (simp add: buffered_def buf_range_def)

lemma buf_range_unread:
  assumes "i + n \<le> buf_size f - buf_index f"
  shows "buf_range f (buf_index f + i) n = take n (drop i (unread f))"
proof -
  have "length (unread f) \<ge> i + n" using assms by (simp add: unread_def)
  then show ?thesis
    using assms unread_buffered [of "i + _" f] by (intro nth_equalityI) (auto simp: buf_range_def add.assoc)
qed

lemma skip_ok:
  assumes "rd_ok ops ok f" and "n \<le> buf_size f - buf_index f"
  shows "rd_ok ops ok (qemu_file_skip f n)" and "unread f = take n (unread f) @ unread (qemu_file_skip f n)"
    and "unread (qemu_file_skip f n) = drop n (unread f)"
proof -
  show "rd_ok ops ok (qemu_file_skip f n)" using assms by (auto simp: rd_ok_def qemu_file_skip_def)
  have "unread (qemu_file_skip f n) = drop n (unread f)"
  proof -
    have "buffered (qemu_file_skip f n) = drop n (buffered f)"
      using assms by (intro nth_equalityI)
        (auto simp: buffered_def buf_range_def qemu_file_skip_def rd_ok_def add.assoc)
    moreover have "qf_opaque (qemu_file_skip f n) = qf_opaque f" by (simp add: qemu_file_skip_def)
    ultimately show ?thesis using assms by (simp add: unread_def)
  qed
  then show "unread (qemu_file_skip f n) = drop n (unread f)"
    "unread f = take n (unread f) @ unread (qemu_file_skip f n)" by simp_all
qed

locale byte_source =
  fixes ops :: QEMUFileOps and ok :: "iofile \<Rightarrow> bool" and get
  assumes source_ops: "ops = \<lparr>put_buffer = None, get_buffer = Some get, writev_buffer = None\<rparr>"
    and source_get: "\<And>s pos n. ok s \<Longrightarrow>
      \<exists>s'. get s pos n = (Inr (take n (to_come s)), s') \<and> to_come s' = drop n (to_come s) \<and> ok s'"
begin

lemma source_readable: "rd_ok ops ok f \<Longrightarrow> \<not> qemu_file_is_writable f \<and> get_buffer (qf_ops f) = Some get"
  by (simp add: rd_ok_def qemu_file_is_writable_def source_ops)

lemma fill_ok:
  assumes f: "rd_ok ops ok f"
  shows "\<exists>g. qemu_fill_buffer f = Some g \<and> rd_ok ops ok g \<and> unread g = unread f \<and> buf_index g = 0 \<and>
    buf_size g = min IO_BUF_SIZE (length (unread f))"
proof -
  define pending where "pending = buf_size f - buf_index f"
  have p: "pending \<le> IO_BUF_SIZE" using f by (auto simp: pending_def rd_ok_def)
  obtain s' where s': "get (qf_opaque f) (qf_pos f) (IO_BUF_SIZE - pending) =
      (Inr (take (IO_BUF_SIZE - pending) (to_come (qf_opaque f))), s')"
    "to_come s' = drop (IO_BUF_SIZE - pending) (to_come (qf_opaque f))" "ok s'"
    using source_get [of "qf_opaque f" "qf_pos f" "IO_BUF_SIZE - pending"] f unfolding rd_ok_def by blast
  define bs where "bs = take (IO_BUF_SIZE - pending) (to_come (qf_opaque f))"
  define g where "g = f\<lparr>qf_opaque := s', buf_index := 0, buf_size := pending + length bs,
      qf_buf := (\<lambda>i. if pending \<le> i \<and> i < pending + length bs then bs ! (i - pending)
                     else if i < pending then qf_buf f (buf_index f + i) else qf_buf f i),
      qf_pos := qf_pos f + int (length bs)\<rparr>"
  have fill: "qemu_fill_buffer f = Some (if bs = [] then qemu_file_set_error g (- EIO) else g)"
    using source_readable [OF f] s'(1) [folded bs_def]
    by (simp add: qemu_fill_buffer_def Let_def g_def flip: pending_def)
  have "buffered g = buffered f @ bs"
    by (intro nth_equalityI) (auto simp: buffered_def buf_range_def g_def pending_def nth_append)
  moreover have "bs @ to_come s' = to_come (qf_opaque f)" by (simp add: bs_def s'(2))
  ultimately have un: "unread g = unread f" by (simp add: unread_def g_def)
  have "pending + length bs = min IO_BUF_SIZE (length (unread f))"
    using p by (simp add: unread_def bs_def pending_def)
  then have g: "rd_ok ops ok g" "buf_index g = 0" "buf_size g = min IO_BUF_SIZE (length (unread f))"
    using f s'(3) by (auto simp: rd_ok_def g_def)
  have e: "rd_ok ops ok (qemu_file_set_error g e) = rd_ok ops ok g" "unread (qemu_file_set_error g e) = unread g"
    "buf_index (qemu_file_set_error g e) = buf_index g" "buf_size (qemu_file_set_error g e) = buf_size g" for e
    by (auto simp: qemu_file_set_error_def rd_ok_def unread_def buffered_def buf_range_def)
  show ?thesis using fill un g e by auto
qed

lemma peek_byte_ok:
  assumes f: "rd_ok ops ok f" and "k < length (unread f)" and "k < IO_BUF_SIZE"
  shows "\<exists>g. qemu_peek_byte f k = Some (unread f ! k, g) \<and> rd_ok ops ok g \<and> unread g = unread f \<and>
    k < buf_size g - buf_index g"
proof (cases "buf_index f + k \<ge> buf_size f")
  case True
  obtain g where g: "qemu_fill_buffer f = Some g" "rd_ok ops ok g" "unread g = unread f" "buf_index g = 0"
    "buf_size g = min IO_BUF_SIZE (length (unread f))" using fill_ok [OF f] by blast
  then have "k < buf_size g" using assms(2,3) by simp
  then show ?thesis
    using True g(1-4) unread_buffered [of k g] source_readable [OF f] by (simp add: qemu_peek_byte_def)
next
  case False
  then show ?thesis
    using f unread_buffered [of k f] source_readable [OF f] by (simp add: qemu_peek_byte_def)
qed

lemma peek_byte_end:
  assumes f: "rd_ok ops ok f" and "length (unread f) \<le> k"
  shows "\<exists>g. qemu_peek_byte f k = Some (0, g) \<and> rd_ok ops ok g \<and> unread g = unread f"
proof -
  have "buf_index f + k \<ge> buf_size f" using assms(2) by (simp add: unread_def)
  moreover obtain g where "qemu_fill_buffer f = Some g" "rd_ok ops ok g" "unread g = unread f" "buf_index g = 0"
    "buf_size g = min IO_BUF_SIZE (length (unread f))" using fill_ok [OF f] by blast
  ultimately show ?thesis
    using assms(2) source_readable [OF f] by (simp add: qemu_peek_byte_def min.coboundedI2)
qed

lemma get_byte_takes:
  assumes f: "rd_ok ops ok f" and "unread f = b # bs"
  shows "takes ops ok f [b] b (qemu_get_byte f)"
proof -
  obtain g where g: "qemu_peek_byte f 0 = Some (b, g)" "rd_ok ops ok g" "unread g = unread f"
    "0 < buf_size g - buf_index g" using peek_byte_ok [OF f, of 0] assms(2) by auto
  then show ?thesis using skip_ok [OF g(2), of 1] assms(2) by (simp add: qemu_get_byte_def takes_def)
qed

lemma peek_buffer_ok:
  assumes f: "rd_ok ops ok f" and "k + n \<le> length (unread f)"
  shows "\<exists>g. qemu_peek_buffer f n k = Some (take (min n (buf_size g - buf_index g - k)) (drop k (unread f)), g) \<and>
    rd_ok ops ok g \<and> unread g = unread f \<and> min IO_BUF_SIZE (k + n) \<le> buf_size g - buf_index g"
proof (cases "int (buf_size f) - int (buf_index f + k) < int n")
  case True
  obtain g where g: "qemu_fill_buffer f = Some g" "rd_ok ops ok g" "unread g = unread f" "buf_index g = 0"
    "buf_size g = min IO_BUF_SIZE (length (unread f))" using fill_ok [OF f] by blast
  have "buf_range g k (min n (buf_size g - k)) = take (min n (buf_size g - k)) (drop k (unread g))"
    using buf_range_unread [of k "min n (buf_size g - k)" g] g(4) by (cases "k \<le> buf_size g") simp_all
  with g True source_readable [OF f] assms(2) show ?thesis by (simp add: qemu_peek_buffer_def Let_def)
next
  case False
  then have "k + n \<le> buf_size f - buf_index f" using f by (auto simp: rd_ok_def)
  then show ?thesis
    using False f source_readable [OF f] buf_range_unread [of k n f]
    by (simp add: qemu_peek_buffer_def Let_def min_absorb1)
qed

lemma get_buffer_takes:
  assumes "rd_ok ops ok f" and "unread f = bs @ rest"
  shows "takes ops ok f bs bs (qemu_get_buffer f (length bs))"
  using assms
proof (induction bs arbitrary: f rule: length_induct)
  case (1 bs)
  show ?case
  proof (cases "bs = []")
    case True
    then show ?thesis using 1(2) by (simp add: qemu_get_buffer.simps takes_def)
  next
    case False
    obtain g where g: "qemu_peek_buffer f (length bs) 0 =
        Some (take (min (length bs) (buf_size g - buf_index g)) (unread f), g)"
      "rd_ok ops ok g" "unread g = unread f" "min IO_BUF_SIZE (length bs) \<le> buf_size g - buf_index g"
      using peek_buffer_ok [OF 1(2), of 0 "length bs"] 1(3) by auto
    define l where "l = min (length bs) (buf_size g - buf_index g)"
    have l: "0 < l" "l \<le> length bs" "l \<le> buf_size g - buf_index g" using g(4) False by (auto simp: l_def min_def split: if_splits)
    note sk = skip_ok [OF g(2) l(3)]
    have un: "unread (qemu_file_skip g l) = drop l bs @ rest" using sk(3) g(3) 1(3) l(2) by simp
    have "takes ops ok (qemu_file_skip g l) (drop l bs) (drop l bs)
        (qemu_get_buffer (qemu_file_skip g l) (length (drop l bs)))"
      using l(1,2) False by (intro 1(1) [rule_format, OF _ sk(1) un]) simp
    then obtain h where h: "qemu_get_buffer (qemu_file_skip g l) (length bs - l) = Some (drop l bs, h)"
      "rd_ok ops ok h" "unread (qemu_file_skip g l) = drop l bs @ unread h"
      by (auto elim: takesE)
    have "qemu_get_buffer f (length bs) = Some (bs, h)"
      using False g(1) [folded l_def] 1(3) l(1,2) h(1) by (subst qemu_get_buffer.simps) simp
    then show ?thesis using h(2,3) un 1(3) by (simp add: takes_def)
  qed
qed

lemma get_be16_takes:
  assumes "rd_ok ops ok f" and "unread f = [a, b] @ rest"
  shows "takes ops ok f [a, b] (push_bit 8 (ucast a) OR ucast b) (qemu_get_be16 f)"
proof -
  obtain g where g: "qemu_get_byte f = Some (a, g)" "rd_ok ops ok g" "unread g = b # rest"
    using takesE [OF get_byte_takes [OF assms(1)]] assms(2) by (metis append_Cons append_Nil list.sel(3))
  obtain h where "qemu_get_byte g = Some (b, h)" "rd_ok ops ok h" "unread h = rest"
    using takesE [OF get_byte_takes [OF g(2,3)]] g(3) by (metis append_Cons append_Nil list.sel(3))
  with g assms(2) show ?thesis by (simp add: qemu_get_be16_def takes_def)
qed

lemma get_be32_takes:
  assumes "rd_ok ops ok f" and "unread f = [a, b, c, d] @ rest"
  shows "takes ops ok f [a, b, c, d]
    (push_bit 24 (ucast a) OR push_bit 16 (ucast b) OR push_bit 8 (ucast c) OR ucast d) (qemu_get_be32 f)"
proof -
  obtain g where g: "qemu_get_byte f = Some (a, g)" "rd_ok ops ok g" "unread g = b # c # d # rest"
    using takesE [OF get_byte_takes [OF assms(1)]] assms(2) by (metis append_Cons append_Nil list.sel(3))
  obtain h where h: "qemu_get_byte g = Some (b, h)" "rd_ok ops ok h" "unread h = c # d # rest"
    using takesE [OF get_byte_takes [OF g(2,3)]] g(3) by (metis append_Cons append_Nil list.sel(3))
  obtain i where i: "qemu_get_byte h = Some (c, i)" "rd_ok ops ok i" "unread i = d # rest"
    using takesE [OF get_byte_takes [OF h(2,3)]] h(3) by (metis append_Cons append_Nil list.sel(3))
  obtain j where "qemu_get_byte i = Some (d, j)" "rd_ok ops ok j" "unread j = rest"
    using takesE [OF get_byte_takes [OF i(2,3)]] i(3) by (metis append_Cons append_Nil list.sel(3))
  with g h i assms(2) show ?thesis by (simp add: qemu_get_be32_def takes_def)
qed

end

subsection \<open>The input back ends\<close>

definition interrupted_reads :: "iofile \<Rightarrow> bool" where
  "interrupted_reads s = list_all (\<lambda>e. e = Err EAGAIN \<or> e = Err EINTR) (fevents s)"

lemma sys_read_all:
  "fevents s = [] \<Longrightarrow>
     \<exists>s'. sys_read s n = (Inr (take n (to_come s)), s') \<and> to_come s' = drop n (to_come s) \<and> fevents s' = []"
  by (auto simp: sys_read_def to_come_def min_def add.commute)

lemma stdio_get_ok:
  "interrupted_reads s \<Longrightarrow>
     \<exists>s'. stdio_get_buffer s pos n = (Inr (take n (to_come s)), s') \<and> to_come s' = drop n (to_come s) \<and>
       interrupted_reads s'"
proof (induction "fevents s" arbitrary: s)
  case Nil
  then show ?case
    using sys_read_all [of s n] by (subst stdio_get_buffer.simps) (auto simp: interrupted_reads_def)
next
  case (Cons e es)
  have "stdio_get_buffer s pos n = stdio_get_buffer (s\<lparr>fevents := es\<rparr>) pos n"
    using Cons(2,3) by (subst stdio_get_buffer.simps) (auto simp: interrupted_reads_def simp flip: Cons(2))
  moreover have "list_all (\<lambda>e. e = Err EAGAIN \<or> e = Err EINTR) es"
    using Cons(3) unfolding interrupted_reads_def Cons(2) [symmetric] by simp
  ultimately show ?case using Cons(1) [of "s\<lparr>fevents := es\<rparr>"] by (auto simp: interrupted_reads_def to_come_def)
qed

lemma unix_get_ok:
  "interrupted_reads s \<Longrightarrow>
     \<exists>s'. unix_get_buffer s pos n = (Inr (take n (to_come s)), s') \<and> to_come s' = drop n (to_come s) \<and>
       interrupted_reads s'"
proof (induction "fevents s" arbitrary: s)
  case Nil
  then show ?case
    using sys_read_all [of s n] by (subst unix_get_buffer.simps) (auto simp: interrupted_reads_def)
next
  case (Cons e es)
  have "unix_get_buffer s pos n = unix_get_buffer (s\<lparr>fevents := es\<rparr>) pos n"
    using Cons(2,3) by (subst unix_get_buffer.simps) (auto simp: interrupted_reads_def simp flip: Cons(2))
  moreover have "list_all (\<lambda>e. e = Err EAGAIN \<or> e = Err EINTR) es"
    using Cons(3) unfolding interrupted_reads_def Cons(2) [symmetric] by simp
  ultimately show ?case using Cons(1) [of "s\<lparr>fevents := es\<rparr>"] by (auto simp: interrupted_reads_def to_come_def)
qed

interpretation stdio_source: byte_source stdio_file_read_ops interrupted_reads stdio_get_buffer
  by unfold_locales (simp_all add: stdio_file_read_ops_def stdio_get_ok)

interpretation unix_source: byte_source unix_read_ops interrupted_reads unix_get_buffer
  by unfold_locales (simp_all add: unix_read_ops_def unix_get_ok)

end
