(* ===== verification/Vmstate_Codec.thy ===== *)
theory Vmstate_Codec
  imports Savevm Qemu_Stream
begin

text \<open>
  The contract between a kind of value (\<^verbatim>\<open>VMStateInfo\<close>) and the code that walks a description: what
  \<^verbatim>\<open>put\<close> writes for the bytes of a field, \<^verbatim>\<open>get\<close> turns back into those bytes and takes nothing else
  from the stream.
\<close>

subsection \<open>The contract\<close>

definition store_if :: "bool \<Rightarrow> hmem \<Rightarrow> u64 \<Rightarrow> u8 list \<Rightarrow> hmem" where
  "store_if keep m a bs = (if keep then mem_upd m a bs else m)"

locale vmstate_codec =
  fixes info :: VMStateInfo and n :: nat and enc :: "u8 list \<Rightarrow> u8 list" and good :: "u8 list \<Rightarrow> bool"
    and keep :: bool
  assumes codec_put: "\<And>ops ok f m a. byte_sink ops ok \<Longrightarrow> wr_ok ops ok f \<Longrightarrow> mapped m a n \<Longrightarrow> n < 2 ^ 31 \<Longrightarrow>
      appends ops ok f (enc (bytes_at m a n)) (info_put info f a n m)"
    and codec_get: "\<And>ops ok get f m a bs rest. byte_source ops ok get \<Longrightarrow> rd_ok ops ok f \<Longrightarrow>
      unread f = enc bs @ rest \<Longrightarrow> length bs = n \<Longrightarrow> good bs \<Longrightarrow> mapped m a n \<Longrightarrow> n < 2 ^ 31 \<Longrightarrow>
      \<exists>g. info_get info f a n m = Some (0, g, store_if keep m a bs) \<and> rd_ok ops ok g \<and> unread g = rest"
begin

text \<open>A value written to one file and read from another that begins with what was written.\<close>

lemma codec_roundtrip:
  assumes "byte_sink ops ok" and "wr_ok ops ok f" and "mapped m a n" and "n < 2 ^ 31"
    and "byte_source ops' ok' get" and "good (bytes_at m a n)" and "mapped m' b n"
  shows "\<exists>g bs. info_put info f a n m = Some g \<and> wr_ok ops ok g \<and> written g = written f @ bs \<and>
    (\<forall>h rest. rd_ok ops' ok' h \<and> unread h = bs @ rest \<longrightarrow>
      (\<exists>h'. info_get info h b n m' = Some (0, h', store_if keep m' b (bytes_at m a n)) \<and>
        rd_ok ops' ok' h' \<and> unread h' = rest))"
proof -
  obtain g where "info_put info f a n m = Some g" "wr_ok ops ok g"
    "written g = written f @ enc (bytes_at m a n)"
    by (rule appendsE [OF codec_put [OF assms(1-4)]])
  moreover have "\<exists>h'. info_get info h b n m' = Some (0, h', store_if keep m' b (bytes_at m a n)) \<and>
      rd_ok ops' ok' h' \<and> unread h' = rest"
    if "rd_ok ops' ok' h" "unread h = enc (bytes_at m a n) @ rest" for h rest
    using codec_get [OF assms(5) that _ assms(6,7,4)] by simp
  ultimately show ?thesis by blast
qed

end

subsection \<open>Integers\<close>

lemma load_word_at: "mapped m a n \<Longrightarrow> load_word m a n = Some (le_word (bytes_at m a n))"
  by (simp add: load_word_def mem_read_def)

lemma store_word_at:
  "mapped m a n \<Longrightarrow> length bs = n \<Longrightarrow> bytes_le n w = bs \<Longrightarrow> store_word m a n w = Some (mem_upd m a bs)"
  by (simp add: store_word_def mem_write_def)

lemma bytes_le_le_word:
  assumes "8 * length bs \<le> LENGTH('a::len)"
  shows "bytes_le (length bs) (le_word bs :: 'a word) = bs"
proof (rule nth_equalityI)
  fix i assume i: "i < length (bytes_le (length bs) (le_word bs :: 'a word))"
  show "bytes_le (length bs) (le_word bs :: 'a word) ! i = bs ! i"
  proof (rule bit_word_eqI)
    fix k assume "k < LENGTH(8)"
    then have k: "k < 8" "(8 * i + k) div 8 = i" "(8 * i + k) mod 8 = k" by simp_all
    moreover have "8 * i + k < 8 * length bs" using i k(1) by simp
    ultimately show "bit (bytes_le (length bs) (le_word bs :: 'a word) ! i) k = bit (bs ! i) k"
      using i assms by (auto simp: bit_simps bit_le_word)
  qed
qed simp

lemma len_2E: "length bs = 2 \<Longrightarrow> \<exists>a b. bs = [a, b]"
  by (auto simp: length_Suc_conv numeral_2_eq_2)

lemma len_4E: "length bs = 4 \<Longrightarrow> \<exists>a b c d. bs = [a, b, c, d]"
  by (auto simp: length_Suc_conv numeral_eq_Suc)

lemma le_word_2: "le_word [a, b] = (push_bit 8 (ucast b) OR ucast a :: u32)"
  by (simp add: or.commute)

lemma le_word_4:
  "le_word [a, b, c, d] =
     (push_bit 24 (ucast d) OR push_bit 16 (ucast c) OR push_bit 8 (ucast b) OR ucast a :: u32)"
  by (simp add: ac_simps) 

lemma le_word_8:
  assumes "length xs = 4"
  shows "le_word (xs @ ys) = (push_bit 32 (ucast (le_word ys :: u32)) OR ucast (le_word xs :: u32) :: u64)"
proof (rule bit_word_eqI)
  fix n assume n: "n < LENGTH(64)"
  show "bit (le_word (xs @ ys) :: u64) n =
      bit (push_bit 32 (ucast (le_word ys :: u32)) OR ucast (le_word xs :: u32) :: u64) n"
  proof (cases "n < 32")
    case True
    then show ?thesis using assms by (auto simp: bit_le_word bit_simps nth_append)
  next
    case False
    then obtain j where "n = 32 + j" by (metis le_add_diff_inverse not_less)
    moreover have "(32 + j) div 8 = 4 + j div 8" "(32 + j) mod 8 = j mod 8" by presburger+
    ultimately show ?thesis using n assms by (auto simp: bit_le_word bit_simps nth_append)
  qed
qed

context byte_source
begin

lemma get_byte_value:
  assumes "rd_ok ops ok f" and "unread f = b # rest"
  shows "\<exists>g. qemu_get_byte f = Some (b, g) \<and> rd_ok ops ok g \<and> unread g = rest"
  using takesE [OF get_byte_takes [OF assms]] assms(2) by fastforce

lemma get_be16_value:
  assumes "rd_ok ops ok f" and "unread f = rev bs @ rest" and "length bs = 2"
  shows "\<exists>g. qemu_get_be16 f = Some (le_word bs, g) \<and> rd_ok ops ok g \<and> unread g = rest"
proof -
  obtain a b where bs: "bs = [a, b]" using len_2E [OF assms(3)] by blast
  then have "unread f = [b, a] @ rest" using assms(2) by simp
  from takesE [OF get_be16_takes [OF assms(1) this]] this
  show ?thesis unfolding bs le_word_2 by (metis same_append_eq)
qed

lemma get_be32_value:
  assumes "rd_ok ops ok f" and "unread f = rev bs @ rest" and "length bs = 4"
  shows "\<exists>g. qemu_get_be32 f = Some (le_word bs, g) \<and> rd_ok ops ok g \<and> unread g = rest"
proof -
  obtain a b c d where bs: "bs = [a, b, c, d]" using len_4E [OF assms(3)] by blast
  then have "unread f = [d, c, b, a] @ rest" using assms(2) by simp
  from takesE [OF get_be32_takes [OF assms(1) this]] this
  show ?thesis unfolding bs le_word_4 by (metis same_append_eq)
qed

lemma get_be64_value:
  assumes "rd_ok ops ok f" and "unread f = rev bs @ rest" and "length bs = 8"
  shows "\<exists>g. qemu_get_be64 f = Some (le_word bs, g) \<and> rd_ok ops ok g \<and> unread g = rest"
proof -
  have l: "length (take 4 bs) = 4" "length (drop 4 bs) = 4" "take 4 bs @ drop 4 bs = bs" using assms(3) by simp_all
  have "unread f = rev (drop 4 bs) @ rev (take 4 bs) @ rest"
    using assms(2) l(3) by (metis append_assoc rev_append)
  from get_be32_value [OF assms(1) this l(2)] obtain g where
    g: "qemu_get_be32 f = Some (le_word (drop 4 bs), g)" "rd_ok ops ok g" "unread g = rev (take 4 bs) @ rest" by blast
  from get_be32_value [OF g(2,3) l(1)] obtain h where
    "qemu_get_be32 g = Some (le_word (take 4 bs), h)" "rd_ok ops ok h" "unread h = rest" by blast
  with g(1) show ?thesis using le_word_8 [OF l(1), of "drop 4 bs"] l(3) by (simp add: qemu_get_be64_def)
qed

end

subsection \<open>The kinds of values\<close>

text \<open>A fixed-width integer travels with its most significant byte first.\<close>

lemma word_put:
  assumes "mapped m a n" and "8 * n \<le> LENGTH('a::len)"
  shows "load_word m a n = Some (le_word (bytes_at m a n) :: 'a word)"
    and "rev (bytes_le n (le_word (bytes_at m a n) :: 'a word)) = rev (bytes_at m a n)"
  using assms bytes_le_le_word [of "bytes_at m a n", where 'a = 'a] by (simp_all add: load_word_at)

lemma word_store:
  assumes "mapped m a n" and "length bs = n" and "8 * n \<le> LENGTH('a::len)"
  shows "store_word m a n (le_word bs :: 'a word) = Some (mem_upd m a bs)"
  using assms bytes_le_le_word [of bs, where 'a = 'a] by (intro store_word_at) auto

lemma bytes_le_2_ucast: "bytes_le 2 (ucast (w :: u16) :: u32) = bytes_le 2 w"
  using ucast_byte [of 0 w, where 'b = 32] by (simp add: bytes_le_def upt_rec ucast_byte)

lemma le_word_1: "length bs = 1 \<Longrightarrow> [le_word bs] = bs"
  by (cases bs) (auto intro!: bit_word_eqI simp: bit_simps)

lemma codec_8:
  assumes put: "\<And>f a sz m. info_put info f a sz m = qemu_put_8s f a m"
    and get: "\<And>f a sz m. info_get info f a sz m = map_option (Pair 0) (qemu_get_8s f a m)"
  shows "vmstate_codec info 1 rev (\<lambda>_. True) True"
proof (rule vmstate_codec.intro)
  fix ops ok f m a assume s: "byte_sink ops ok" "wr_ok ops ok f" "mapped m a 1"
  have b: "[le_word (bytes_at m a 1)] = bytes_at m a 1" by (simp add: le_word_1)
  then have "rev (bytes_at m a 1) = bytes_at m a 1" by (metis rev_singleton_conv)
  then show "appends ops ok f (rev (bytes_at m a 1)) (info_put info f a 1 m)"
    using byte_sink.put_byte_appends [OF s(1,2), of "le_word (bytes_at m a 1)"] word_put(1) [OF s(3), where 'a = 8] b
    by (simp add: put qemu_put_8s_def)
next
  fix ops ok get f m a rest and bs :: "u8 list"
  assume s: "byte_source ops ok get" "rd_ok ops ok f" "unread f = rev bs @ rest" "length bs = 1" "mapped m a 1"
  obtain b where b: "bs = [b]" using s(4) by (cases bs) auto
  then show "\<exists>g. info_get info f a 1 m = Some (0, g, store_if True m a bs) \<and> rd_ok ops ok g \<and> unread g = rest"
    using byte_source.get_byte_value [OF s(1,2), of b rest] s(3) word_store [OF s(5,4), where 'a = 8] le_word_1 [OF s(4)]
    by (auto simp: get qemu_get_8s_def store_if_def)
qed

lemma codec_16:
  assumes put: "\<And>f a sz m. info_put info f a sz m = qemu_put_be16s f a m"
    and get: "\<And>f a sz m. info_get info f a sz m = map_option (Pair 0) (qemu_get_be16s f a m)"
  shows "vmstate_codec info 2 rev (\<lambda>_. True) True"
proof (rule vmstate_codec.intro)
  fix ops ok f m a assume s: "byte_sink ops ok" "wr_ok ops ok f" "mapped m a 2"
  show "appends ops ok f (rev (bytes_at m a 2)) (info_put info f a 2 m)"
    using byte_sink.put_be16_appends [OF s(1,2), of "ucast (le_word (bytes_at m a 2) :: u16)"] word_put [OF s(3), where 'a = 16]
    by (simp add: put qemu_put_be16s_def bytes_le_2_ucast)
next
  fix ops ok get f m a rest and bs :: "u8 list"
  assume s: "byte_source ops ok get" "rd_ok ops ok f" "unread f = rev bs @ rest" "length bs = 2" "mapped m a 2"
  show "\<exists>g. info_get info f a 2 m = Some (0, g, store_if True m a bs) \<and> rd_ok ops ok g \<and> unread g = rest"
    using byte_source.get_be16_value [OF s(1-4)] word_store [OF s(5,4), where 'a = 32] word_store [OF s(5,4), where 'a = 64]
    by (auto simp: get qemu_get_be16s_def store_if_def)
qed

lemma codec_32:
  assumes put: "\<And>f a sz m. info_put info f a sz m = qemu_put_be32s f a m"
    and get: "\<And>f a sz m. info_get info f a sz m = map_option (Pair 0) (qemu_get_be32s f a m)"
  shows "vmstate_codec info 4 rev (\<lambda>_. True) True"
proof (rule vmstate_codec.intro)
  fix ops ok f m a assume s: "byte_sink ops ok" "wr_ok ops ok f" "mapped m a 4"
  show "appends ops ok f (rev (bytes_at m a 4)) (info_put info f a 4 m)"
    using byte_sink.put_be32_appends [OF s(1,2), of "le_word (bytes_at m a 4)"] word_put [OF s(3), where 'a = 32]
    by (simp add: put qemu_put_be32s_def)
next
  fix ops ok get f m a rest and bs :: "u8 list"
  assume s: "byte_source ops ok get" "rd_ok ops ok f" "unread f = rev bs @ rest" "length bs = 4" "mapped m a 4"
  show "\<exists>g. info_get info f a 4 m = Some (0, g, store_if True m a bs) \<and> rd_ok ops ok g \<and> unread g = rest"
    using byte_source.get_be32_value [OF s(1-4)] word_store [OF s(5,4), where 'a = 32] word_store [OF s(5,4), where 'a = 64]
    by (auto simp: get qemu_get_be32s_def store_if_def)
qed

lemma codec_64:
  assumes put: "\<And>f a sz m. info_put info f a sz m = qemu_put_be64s f a m"
    and get: "\<And>f a sz m. info_get info f a sz m = map_option (Pair 0) (qemu_get_be64s f a m)"
  shows "vmstate_codec info 8 rev (\<lambda>_. True) True"
proof (rule vmstate_codec.intro)
  fix ops ok f m a assume s: "byte_sink ops ok" "wr_ok ops ok f" "mapped m a 8"
  show "appends ops ok f (rev (bytes_at m a 8)) (info_put info f a 8 m)"
    using byte_sink.put_be64_appends [OF s(1,2), of "le_word (bytes_at m a 8)"] word_put [OF s(3), where 'a = 64]
    by (simp add: put qemu_put_be64s_def)
next
  fix ops ok get f m a rest and bs :: "u8 list"
  assume s: "byte_source ops ok get" "rd_ok ops ok f" "unread f = rev bs @ rest" "length bs = 8" "mapped m a 8"
  show "\<exists>g. info_get info f a 8 m = Some (0, g, store_if True m a bs) \<and> rd_ok ops ok g \<and> unread g = rest"
    using byte_source.get_be64_value [OF s(1-4)] word_store [OF s(5,4), where 'a = 32] word_store [OF s(5,4), where 'a = 64]
    by (auto simp: get qemu_get_be64s_def store_if_def)
qed

interpretation c_int8: vmstate_codec vmstate_info_int8 1 rev "\<lambda>_. True" True
  by (rule codec_8) (simp_all add: vmstate_info_int8_def put_int8_def get_int8_def qemu_put_s8s_def qemu_get_s8s_def)

interpretation c_uint8: vmstate_codec vmstate_info_uint8 1 rev "\<lambda>_. True" True
  by (rule codec_8) (simp_all add: vmstate_info_uint8_def put_uint8_def get_uint8_def)

interpretation c_int16: vmstate_codec vmstate_info_int16 2 rev "\<lambda>_. True" True
  by (rule codec_16) (simp_all add: vmstate_info_int16_def put_int16_def get_int16_def qemu_put_sbe16s_def qemu_get_sbe16s_def)

interpretation c_uint16: vmstate_codec vmstate_info_uint16 2 rev "\<lambda>_. True" True
  by (rule codec_16) (simp_all add: vmstate_info_uint16_def put_uint16_def get_uint16_def)

interpretation c_int32: vmstate_codec vmstate_info_int32 4 rev "\<lambda>_. True" True
  by (rule codec_32) (simp_all add: vmstate_info_int32_def put_int32_def get_int32_def qemu_put_sbe32s_def qemu_get_sbe32s_def)

interpretation c_uint32: vmstate_codec vmstate_info_uint32 4 rev "\<lambda>_. True" True
  by (rule codec_32) (simp_all add: vmstate_info_uint32_def put_uint32_def get_uint32_def)

interpretation c_int64: vmstate_codec vmstate_info_int64 8 rev "\<lambda>_. True" True
  by (rule codec_64) (simp_all add: vmstate_info_int64_def put_int64_def get_int64_def qemu_put_sbe64s_def qemu_get_sbe64s_def)

interpretation c_uint64: vmstate_codec vmstate_info_uint64 8 rev "\<lambda>_. True" True
  by (rule codec_64) (simp_all add: vmstate_info_uint64_def put_uint64_def get_uint64_def)

interpretation c_float64: vmstate_codec vmstate_info_float64 8 rev "\<lambda>_. True" True
  by (rule codec_64)
    (auto simp: vmstate_info_float64_def put_float64_def get_float64_def qemu_put_be64s_def qemu_get_be64s_def
      intro!: Option.bind_cong split: Option.bind_splits)

text \<open>A truth value is one byte, 0 or 1.\<close>

interpretation c_bool: vmstate_codec vmstate_info_bool 1 rev "\<lambda>bs. bs = [0] \<or> bs = [1]" True
proof
  fix ops ok f m a assume s: "byte_sink ops ok" "wr_ok ops ok f" "mapped m a 1" "(1 :: nat) < 2 ^ 31"
  show "appends ops ok f (rev (bytes_at m a 1)) (info_put vmstate_info_bool f a 1 m)"
    using c_uint8.codec_put [OF s]
    by (simp add: vmstate_info_bool_def vmstate_info_uint8_def put_bool_def put_uint8_def qemu_put_8s_def)
next
  fix ops ok get f m a rest and bs :: "u8 list"
  assume s: "byte_source ops ok get" "rd_ok ops ok f" "unread f = rev bs @ rest" "length bs = 1"
    and good: "bs = [0] \<or> bs = [1]" and mp: "mapped m a 1"
  obtain b where b: "bs = [b]" "b = 0 \<or> b = 1" using good by blast
  then show "\<exists>g. info_get vmstate_info_bool f a 1 m = Some (0, g, store_if True m a bs) \<and> rd_ok ops ok g \<and> unread g = rest"
    using byte_source.get_byte_value [OF s(1,2), of b rest] s(3) word_store [OF mp s(4), where 'a = 8] le_word_1 [OF s(4)]
    by (auto simp: vmstate_info_bool_def get_bool_def store_if_def)
qed

interpretation c_buffer: vmstate_codec vmstate_info_buffer n "\<lambda>bs. bs" "\<lambda>_. True" True for n
proof
  fix ops ok f m a assume s: "byte_sink ops ok" "wr_ok ops ok f" "mapped m a n" "n < 2 ^ 31"
  then show "appends ops ok f (bytes_at m a n) (info_put vmstate_info_buffer f a n m)"
    by (simp add: vmstate_info_buffer_def put_buffer_fn_def c_int_small mem_read_def byte_sink.put_buffer_appends)
next
  fix ops ok get f m a rest and bs :: "u8 list"
  assume s: "byte_source ops ok get" "rd_ok ops ok f" "unread f = bs @ rest" "length bs = n" "mapped m a n" "n < 2 ^ 31"
  obtain g where g: "qemu_get_buffer f (length bs) = Some (bs, g)" "rd_ok ops ok g" "unread f = bs @ unread g"
    by (rule takesE [OF byte_source.get_buffer_takes [OF s(1-3)]])
  then show "\<exists>g. info_get vmstate_info_buffer f a n m = Some (0, g, store_if True m a bs) \<and> rd_ok ops ok g \<and> unread g = rest"
    using s(3-6) by (auto simp: vmstate_info_buffer_def get_buffer_fn_def c_int_small mem_write_def store_if_def)
qed

text \<open>Space that is not used any more: zeros, which are skipped.\<close>

lemma put_unused_appends:
  "byte_sink ops ok \<Longrightarrow> wr_ok ops ok f \<Longrightarrow> appends ops ok f (replicate n 0) (put_unused_buffer f a n m)"
proof (induction f a n m rule: put_unused_buffer.induct)
  case (1 f a n m)
  show ?case
  proof (cases "n = 0")
    case True
    then show ?thesis using 1(3) by (simp add: put_unused_buffer.simps)
  next
    case False
    obtain g where g: "qemu_put_buffer f (replicate (min 1024 n) 0) = Some g" "wr_ok ops ok g"
      "written g = written f @ replicate (min 1024 n) 0"
      by (rule appendsE [OF byte_sink.put_buffer_appends [OF 1(2,3)]])
    have "appends ops ok g (replicate (n - min 1024 n) 0) (put_unused_buffer g a (n - min 1024 n) m)"
      using 1(1) [OF False g(1) 1(2) g(2)] .
    then show ?thesis
      using False g by (simp add: put_unused_buffer.simps [of f a n m] appends_def flip: replicate_add)
  qed
qed

lemma get_unused_takes:
  "byte_source ops ok get \<Longrightarrow> rd_ok ops ok f \<Longrightarrow> unread f = bs @ rest \<Longrightarrow> length bs = n \<Longrightarrow>
   \<exists>g. get_unused_buffer f a n m = Some (0, g, m) \<and> rd_ok ops ok g \<and> unread g = rest"
proof (induction f a n m arbitrary: bs rule: get_unused_buffer.induct)
  case (1 f a n m)
  show ?case
  proof (cases "n = 0")
    case True
    then show ?thesis using 1 by (simp add: get_unused_buffer.simps)
  next
    case False
    define k where "k = min 1024 n"
    have k: "length (take k bs) = k" "unread f = take k bs @ drop k bs @ rest" "length (drop k bs) = n - k"
      using 1(4,5) by (simp_all add: k_def)
    obtain g where g: "qemu_get_buffer f k = Some (take k bs, g)" "rd_ok ops ok g" "unread g = drop k bs @ rest"
      using takesE [OF byte_source.get_buffer_takes [OF 1(2,3) k(2)]] k(1,2) by (metis same_append_eq)
    have "\<exists>h. get_unused_buffer g a (n - k) m = Some (0, h, m) \<and> rd_ok ops ok h \<and> unread h = rest"
      using 1(1) [OF False, of "(take k bs, g)" "take k bs" g "drop k bs"] 1(2) g k(3) by (simp add: k_def)
    then show ?thesis using False g(1) by (subst get_unused_buffer.simps) (simp add: k_def)
  qed
qed

interpretation c_unused: vmstate_codec vmstate_info_unused_buffer n "\<lambda>bs. replicate (length bs) 0" "\<lambda>_. True" False for n
  by unfold_locales
    (auto simp: vmstate_info_unused_buffer_def put_unused_appends get_unused_takes store_if_def)

end
