(* ===== verification/Vmstate_Flat.thy ===== *)
theory Vmstate_Flat
  imports Vmstate_Static
begin

text \<open>
  Walking a description.  A description with a static layout is a list of leaves (a kind of value at an
  offset) and of the places where the loader looks for subsections.  Saving and loading go through that
  list in order, whatever the nesting of the structures and arrays.
\<close>

subsection \<open>The leaves of a description\<close>

datatype item = Leaf nat nat VMStateInfo | Check string

primrec shift_item :: "nat \<Rightarrow> item \<Rightarrow> item" where
  "shift_item d (Leaf off n info) = Leaf (d + off) n info"
| "shift_item d (Check nm) = Check nm"

function flat :: "VMStateDescription \<Rightarrow> item list" where
  "flat vmsd =
     concat (map (\<lambda>f.
       if exists_at (vm_version_id vmsd) f then
         concat (map (\<lambda>i.
           if tst (f_flags f) VMS_STRUCT then
             (case f_vmsd f of None \<Rightarrow> [] | Some v \<Rightarrow> map (shift_item (f_offset f + f_size f * i)) (flat v))
           else
             (case f_info f of None \<Rightarrow> [] | Some info \<Rightarrow> [Leaf (f_offset f + f_size f * i) (f_size f) info]))
           [0..<static_elems f])
       else []) (vm_fields vmsd)) @ [Check (vm_name vmsd)]"
  by pat_completeness auto
termination
  by (relation "measure size") (auto dest!: size_field_vmsd size_vmsd_field)

declare flat.simps [simp del]

text \<open>
  A plain description: static, with a kind for every value, without subsections and without functions
  to call.
\<close>

definition plain_field :: "int \<Rightarrow> VMStateField \<Rightarrow> bool" where
  "plain_field version f \<longleftrightarrow>
     static_field f \<and> (tst (f_flags f) VMS_STRUCT \<or> f_info f \<noteq> None) \<and>
     (f_exists f = None \<longrightarrow> f_version_id f \<le> version) \<and> \<not> tst (f_flags f) VMS_MUST_EXIST"

function plain_vmsd :: "VMStateDescription \<Rightarrow> bool" where
  "plain_vmsd vmsd \<longleftrightarrow>
     list_all (\<lambda>f. plain_field (vm_version_id vmsd) f \<and> (case f_vmsd f of None \<Rightarrow> True | Some v \<Rightarrow> plain_vmsd v))
       (vm_fields vmsd) \<and>
     vm_subsections vmsd = [] \<and> vm_pre_load vmsd = None \<and> vm_post_load vmsd = None \<and>
     vm_pre_save vmsd = None \<and> vm_minimum_version_id vmsd \<le> vm_version_id vmsd"
  by pat_completeness auto
termination
  by (relation "measure size") (auto dest!: size_field_vmsd size_vmsd_field)

declare plain_vmsd.simps [simp del]

lemma plain_vmsd_fields:
  assumes "plain_vmsd vmsd"
  shows "f \<in> set (vm_fields vmsd) \<Longrightarrow> plain_field (vm_version_id vmsd) f"
    and "f \<in> set (vm_fields vmsd) \<Longrightarrow> f_vmsd f = Some v \<Longrightarrow> plain_vmsd v"
    and "vm_subsections vmsd = []" "vm_pre_load vmsd = None" "vm_post_load vmsd = None" "vm_pre_save vmsd = None"
    and "vm_minimum_version_id vmsd \<le> vm_version_id vmsd"
  using assms by (subst (asm) plain_vmsd.simps, auto simp: list_all_iff)+

subsection \<open>Loops over concatenated lists\<close>

lemma for_ret_zero: "for_ret xs f s = Some (r, t) \<Longrightarrow> r \<le> 0"
  by (induction xs arbitrary: s) (auto split: Option.bind_splits if_splits)

lemma for_ret_append:
  "for_ret (xs @ ys) f s =
     Option.bind (for_ret xs f s) (\<lambda>(r, t). if r < 0 then Some (r, t) else for_ret ys f t)"
  by (induction xs arbitrary: s) (auto split: Option.bind_splits)

lemma for_ret_concat: "for_ret (concat xss) f s = for_ret xss (\<lambda>xs. for_ret xs f) s"
  by (induction xss arbitrary: s) (auto simp: for_ret_append intro!: Option.bind_cong)

lemma for_ret_map: "for_ret (map g xs) f s = for_ret xs (\<lambda>x. f (g x)) s"
  by (induction xs arbitrary: s) (auto intro!: Option.bind_cong)

lemma bind_for_list_Nil [simp]: "Option.bind x (for_list [] f) = x"
  by (cases x) simp_all

subsection \<open>Walking the description is walking its leaves\<close>

fun save_item :: "u64 \<Rightarrow> item \<Rightarrow> fm \<Rightarrow> fm option" where
  "save_item a (Leaf off n info) s = map_option (\<lambda>f. (f, snd s)) (info_put info (fst s) (a + of_nat off) n (snd s))"
| "save_item a (Check nm) s = Some s"

fun load_item :: "u64 \<Rightarrow> item \<Rightarrow> fm \<Rightarrow> (int \<times> fm) option" where
  "load_item a (Leaf off n info) s = info_get info (fst s) (a + of_nat off) n (snd s)"
| "load_item a (Check nm) s = vmstate_subsection_load nm [] (fst s) (snd s)"

lemma save_shift: "save_item a (shift_item d it) = save_item (a + of_nat d) it"
  by (cases it) (auto simp: fun_eq_iff add.assoc)

lemma load_shift: "load_item a (shift_item d it) = load_item (a + of_nat d) it"
  by (cases it) (auto simp: fun_eq_iff add.assoc)

lemma c_size_field: "static_field f \<Longrightarrow> c_size (int (f_size f)) = f_size f"
  by (simp add: static_field_def c_size_int)

text \<open>One element of a field, as the two walks treat it.\<close>

definition elem_items :: "VMStateField \<Rightarrow> nat \<Rightarrow> item list" where
  "elem_items f i =
     (if tst (f_flags f) VMS_STRUCT then
        (case f_vmsd f of None \<Rightarrow> [] | Some v \<Rightarrow> map (shift_item (f_offset f + f_size f * i)) (flat v))
      else (case f_info f of None \<Rightarrow> [] | Some info \<Rightarrow> [Leaf (f_offset f + f_size f * i) (f_size f) info]))"

definition field_items :: "VMStateDescription \<Rightarrow> item list" where
  "field_items vmsd =
     concat (map (\<lambda>f. if exists_at (vm_version_id vmsd) f
                      then concat (map (elem_items f) [0..<static_elems f]) else []) (vm_fields vmsd))"

lemma flat_fields: "flat vmsd = field_items vmsd @ [Check (vm_name vmsd)]"
proof -
  have "elem_items f = (\<lambda>i.
      if tst (f_flags f) VMS_STRUCT then
        (case f_vmsd f of None \<Rightarrow> [] | Some v \<Rightarrow> map (shift_item (f_offset f + f_size f * i)) (flat v))
      else (case f_info f of None \<Rightarrow> [] | Some info \<Rightarrow> [Leaf (f_offset f + f_size f * i) (f_size f) info]))" for f
    by (rule ext) (rule elem_items_def)
  then show ?thesis unfolding field_items_def by (subst flat.simps) presburger
qed

lemma last_check [simp]:
  "for_list [Check nm] (save_item a) = Some" "vmstate_subsection_save [] a = Some"
  by (simp_all add: fun_eq_iff vmstate_subsection_save_def)

lemma save_elem:
  assumes f: "plain_field v f" and IH: "\<And>v a s. f_vmsd f = Some v \<Longrightarrow>
      vmstate_save_state v a s = for_list (flat v) (save_item a) s"
  shows "(if tst (f_flags f) VMS_STRUCT then
            (case f_vmsd f of None \<Rightarrow> None | Some sub \<Rightarrow> vmstate_save_state sub (a + of_nat (f_offset f + f_size f * i)) s)
          else
            (case f_info f of
               None \<Rightarrow> None
             | Some info \<Rightarrow> map_option (\<lambda>g. (g, snd s))
                 (info_put info (fst s) (a + of_nat (f_offset f + f_size f * i)) (c_size (int (f_size f))) (snd s)))) =
         for_list (elem_items f i) (save_item a) s"
  using f c_size_field [of f] IH
  by (cases s) (auto simp del: of_nat_add simp: plain_field_def elem_items_def static_field_def for_list_map save_shift)

text \<open>The two walks over the fields of a description, with its hooks and subsections still in place.\<close>

lemma save_state_eq:
  assumes p: "\<And>f. f \<in> set (vm_fields vmsd) \<Longrightarrow> plain_field (vm_version_id vmsd) f"
    and IH: "\<And>f v a s. f \<in> set (vm_fields vmsd) \<Longrightarrow> f_vmsd f = Some v \<Longrightarrow>
      vmstate_save_state v a s = for_list (flat v) (save_item a) s"
  shows "vmstate_save_state vmsd a s = do {
     s \<leftarrow> (case vm_pre_save vmsd of
             None \<Rightarrow> Some s
           | Some pre_save \<Rightarrow> map_option (Pair (fst s)) (pre_save a (snd s)));
     s \<leftarrow> for_list (field_items vmsd) (save_item a) s;
     vmstate_subsection_save
       (map (\<lambda>sub. (sub, \<lambda>s. vmstate_save_state (ss_vmsd sub) a s)) (vm_subsections vmsd)) a s }"
proof -
  have field: "(if (case f_exists f of None \<Rightarrow> True | Some e \<Rightarrow> e (snd s) a (vm_version_id vmsd)) then do {
            base_addr \<leftarrow> vmstate_base_addr (snd s) a f;
            n_elems \<leftarrow> vmstate_n_elems (snd s) a f;
            sz \<leftarrow> vmstate_size (snd s) a f;
            for_list [0..<nat n_elems]
              (\<lambda>i s. do {
                 addr \<leftarrow> elem_addr (snd s) f (base_addr + word_of_int (sz * int i));
                 if tst (f_flags f) VMS_STRUCT then
                   (case f_vmsd f of None \<Rightarrow> None | Some sub \<Rightarrow> vmstate_save_state sub addr s)
                 else
                   (case f_info f of
                      None \<Rightarrow> None
                    | Some info \<Rightarrow> map_option (\<lambda>f. (f, snd s)) (info_put info (fst s) addr (c_size sz) (snd s)))
               }) s
          }
          else if tst (f_flags f) VMS_MUST_EXIST then None else Some s) =
        for_list (if exists_at (vm_version_id vmsd) f then concat (map (elem_items f) [0..<static_elems f]) else [])
          (save_item a) s" if f: "f \<in> set (vm_fields vmsd)" for f s
  proof -
    have pf: "plain_field (vm_version_id vmsd) f" by (rule p [OF f])
    then have sf: "static_field f" and me: "\<not> tst (f_flags f) VMS_MUST_EXIST" by (simp_all add: plain_field_def)
    obtain n where n: "vmstate_n_elems (snd s) a f = Some n" "nat n = static_elems f"
      using static_location(2) [OF sf, of "snd s" a] by auto
    show ?thesis
      unfolding static_exists [OF sf] static_location(1,3,4) [OF sf] n Option.bind.simps elem_offset
      using me save_elem [OF pf IH [OF f]] by (simp add: for_list_concat for_list_map del: of_nat_add)
  qed
  have body: "for_list (vm_fields vmsd) body s = for_list (field_items vmsd) (save_item a) s"
    if "\<And>f s. f \<in> set (vm_fields vmsd) \<Longrightarrow> body f s = for_list (if exists_at (vm_version_id vmsd) f
      then concat (map (elem_items f) [0..<static_elems f]) else []) (save_item a) s" for body s
    unfolding field_items_def for_list_concat [of "map _ _"] for_list_map by (rule for_list_cong [OF refl refl that])
  show ?thesis
    unfolding vmstate_save_state.simps [of vmsd a s] by (subst body [OF field]) simp_all
qed

lemma save_flat:
  assumes "plain_vmsd vmsd"
  shows "vmstate_save_state vmsd a s = for_list (flat vmsd) (save_item a) s"
  using assms
proof (induction "size vmsd" arbitrary: vmsd a s rule: less_induct)
  case less
  note p = plain_vmsd_fields [OF less.prems]
  have IH: "vmstate_save_state v a s = for_list (flat v) (save_item a) s"
    if f: "f \<in> set (vm_fields vmsd)" "f_vmsd f = Some v" for f v a s
    using size_field_vmsd [OF f(2)] size_vmsd_field [OF f(1)] p(2) [OF f] by (intro less.hyps) simp_all
  show ?case
    by (subst save_state_eq) (erule p(1), erule (1) IH, simp add: flat_fields p(3,6) for_list_append)
qed

lemma bind_for_ret_Nil [simp]:
  "Option.bind x (\<lambda>(r, t). if r < 0 then Some (r, t) else for_ret [] f t) =
     map_option (\<lambda>(r, t). (if r < 0 then r else 0, t)) x"
  by (cases x) auto

lemma load_elem:
  assumes f: "plain_field v f" and IH: "\<And>v a s. f_vmsd f = Some v \<Longrightarrow>
      vmstate_load_state v a (vm_version_id v) s = for_ret (flat v) (load_item a) s"
  shows "do { (ret, s) \<leftarrow>
           (if tst (f_flags f) VMS_STRUCT then
            (case f_vmsd f of None \<Rightarrow> None
             | Some sub \<Rightarrow> vmstate_load_state sub (a + of_nat (f_offset f + f_size f * i)) (vm_version_id sub) s)
            else
             (case f_info f of
                None \<Rightarrow> None
              | Some info \<Rightarrow> info_get info (fst s) (a + of_nat (f_offset f + f_size f * i)) (c_size (int (f_size f))) (snd s)));
           if ret < 0 then Some (ret, s) else k s } =
         do { (ret, s) \<leftarrow> for_ret (elem_items f i) (load_item a) s; if ret < 0 then Some (ret, s) else k s }"
proof (cases "tst (f_flags f) VMS_STRUCT")
  case True
  then obtain v where "f_vmsd f = Some v" using f by (auto simp: plain_field_def static_field_def)
  then show ?thesis using True by (simp add: elem_items_def for_ret_map load_shift IH del: of_nat_add)
next
  case False
  then obtain info where "f_info f = Some info" using f by (auto simp: plain_field_def)
  moreover have "c_size (int (f_size f)) = f_size f" using f by (simp add: plain_field_def c_size_field)
  ultimately show ?thesis
    using False
    by (cases "info_get info (fst s) (a + of_nat (f_offset f + f_size f * i)) (f_size f) (snd s)")
      (auto simp add: elem_items_def simp del: of_nat_add)
qed

lemma for_ret_body:
  assumes "\<And>x s k. x \<in> set xs \<Longrightarrow> do { (r, s) \<leftarrow> body x s; if r < 0 then Some (r, s) else k s } =
      do { (r, s) \<leftarrow> for_ret (g x) h s; if r < 0 then Some (r, s) else k s }"
  shows "for_ret xs body s = for_ret (concat (map g xs)) h s"
  using assms
proof (induction xs arbitrary: s)
  case (Cons x xs)
  then have eq: "for_ret xs body = for_ret (concat (map g xs)) h" by (intro ext) simp
  show ?case
    unfolding for_ret.simps list.map concat.simps for_ret_append eq [symmetric] by (rule Cons.prems) simp
qed simp

lemma load_check:
  "vmstate_subsection_load nm [] f m =
     map_option (\<lambda>(r, s). (if r < 0 then r else 0, s)) (vmstate_subsection_load nm [] f m)"
  by (subst (1 2) vmstate_subsection_load.simps) (auto split: Option.bind_splits prod.splits)

lemma load_state_eq:
  assumes p: "\<And>f. f \<in> set (vm_fields vmsd) \<Longrightarrow> plain_field (vm_version_id vmsd) f"
    and IH: "\<And>f v a s. f \<in> set (vm_fields vmsd) \<Longrightarrow> f_vmsd f = Some v \<Longrightarrow>
      vmstate_load_state v a (vm_version_id v) s = for_ret (flat v) (load_item a) s"
    and "vm_minimum_version_id vmsd \<le> vm_version_id vmsd" and "vm_pre_load vmsd = None"
  shows "vmstate_load_state vmsd a (vm_version_id vmsd) s = do {
     (ret, s) \<leftarrow> for_ret (field_items vmsd) (load_item a) s;
     if ret < 0 then Some (ret, s)
     else do {
       (ret, s) \<leftarrow> vmstate_subsection_load (vm_name vmsd)
          (map (\<lambda>sub. (sub, \<lambda>v s. vmstate_load_state (ss_vmsd sub) a v s)) (vm_subsections vmsd))
          (fst s) (snd s);
       if ret \<noteq> 0 then Some (ret, s)
       else
         case vm_post_load vmsd of
           None \<Rightarrow> Some (0, s)
         | Some post_load \<Rightarrow> map_option (\<lambda>(ret, m). (ret, fst s, m)) (post_load a (vm_version_id vmsd) (snd s))
     } }"
proof -
  let ?v = "vm_version_id vmsd"
  let ?items = "\<lambda>f. if exists_at ?v f then concat (map (elem_items f) [0..<static_elems f]) else []"
  have field: "(if (case f_exists f of Some e \<Rightarrow> e (snd s) a ?v | None \<Rightarrow> f_version_id f \<le> ?v) then do {
                 base_addr \<leftarrow> vmstate_base_addr (snd s) a f;
                 n_elems \<leftarrow> vmstate_n_elems (snd s) a f;
                 sz \<leftarrow> vmstate_size (snd s) a f;
                 for_ret [0..<nat n_elems]
                   (\<lambda>i s. do {
                      addr \<leftarrow> elem_addr (snd s) f (base_addr + word_of_int (sz * int i));
                      if tst (f_flags f) VMS_STRUCT then
                        (case f_vmsd f of None \<Rightarrow> None | Some sub \<Rightarrow> vmstate_load_state sub addr (vm_version_id sub) s)
                      else
                        (case f_info f of
                           None \<Rightarrow> None
                         | Some info \<Rightarrow> info_get info (fst s) addr (c_size sz) (snd s))
                    }) s
               }
               else if tst (f_flags f) VMS_MUST_EXIST then Some (- 1, s) else Some (0, s)) =
      for_ret (?items f) (load_item a) s" if f: "f \<in> set (vm_fields vmsd)" for f s
  proof -
    have pf: "plain_field ?v f" by (rule p [OF f])
    then have sf: "static_field f" and me: "\<not> tst (f_flags f) VMS_MUST_EXIST" by (simp_all add: plain_field_def)
    have ex: "(case f_exists f of Some e \<Rightarrow> e (snd s) a ?v | None \<Rightarrow> f_version_id f \<le> ?v) = exists_at ?v f"
      using pf static_exists [OF sf, of "snd s" a ?v] by (cases "f_exists f") (auto simp: plain_field_def)
    obtain n where n: "vmstate_n_elems (snd s) a f = Some n" "nat n = static_elems f"
      using static_location(2) [OF sf, of "snd s" a] by auto
    show ?thesis
      unfolding ex static_location(1,3,4) [OF sf] n Option.bind.simps elem_offset
      using me for_ret_body [of "[0..<static_elems f]", OF load_elem [OF pf IH [OF f]]] by (simp del: of_nat_add)
  qed
  have body: "for_ret (vm_fields vmsd) body s = for_ret (field_items vmsd) (load_item a) s"
    if "\<And>f s. f \<in> set (vm_fields vmsd) \<Longrightarrow> body f s = for_ret (?items f) (load_item a) s" for body s
    unfolding field_items_def for_ret_concat [of "map _ _"] for_ret_map by (rule for_ret_cong [OF refl refl that])
  show ?thesis
    unfolding vmstate_load_state.simps [of vmsd a ?v s] assms(4) option.case
    using assms(3) by (subst body [OF field]) (assumption, simp)
qed

lemma load_flat:
  assumes "plain_vmsd vmsd"
  shows "vmstate_load_state vmsd a (vm_version_id vmsd) s = for_ret (flat vmsd) (load_item a) s"
  using assms
proof (induction "size vmsd" arbitrary: vmsd a s rule: less_induct)
  case less
  note p = plain_vmsd_fields [OF less.prems]
  have IH: "vmstate_load_state v a (vm_version_id v) s = for_ret (flat v) (load_item a) s"
    if f: "f \<in> set (vm_fields vmsd)" "f_vmsd f = Some v" for f v a s
    using size_field_vmsd [OF f(2)] size_vmsd_field [OF f(1)] p(2) [OF f] by (intro less.hyps) simp_all
  have check: "Option.bind (vmstate_subsection_load nm [] (fst s) (snd s))
      (\<lambda>(r, s). if r \<noteq> 0 then Some (r, s) else Some (0, s)) = for_ret [Check nm] (load_item a) s" for nm s
    by (subst (1) load_check) (cases "vmstate_subsection_load nm [] (fst s) (snd s)", auto)
  show ?case
    unfolding flat_fields for_ret_append
    by (subst load_state_eq, erule p(1), erule (1) IH, rule p(7), rule p(4))
      (simp only: p(3,5) option.case list.map check)
qed

end
