(* ===== verification/Vmstate_Round.thy ===== *)
theory Vmstate_Round
  imports Vmstate_Codec Vmstate_Flat
begin

text \<open>
  Saving and loading are inverse: what a description writes to a stream, the same description reads
  back into another memory, taking from the stream just what was written.
\<close>

subsection \<open>Looking for a subsection\<close>

definition subsection_follows :: "string \<Rightarrow> u8 list \<Rightarrow> bool" where
  "subsection_follows nm bs \<longleftrightarrow>
     2 \<le> length bs \<and> bs ! 0 = QEMU_VM_SUBSECTION \<and> length nm + 1 \<le> unat (bs ! 1) \<and>
     unat (bs ! 1) + 2 \<le> length bs \<and>
     take (length nm) (cstr (take (unat (bs ! 1)) (drop 2 bs))) = str_bytes nm"

context byte_source
begin

lemma peek_any:
  assumes "rd_ok ops ok f" and "k < IO_BUF_SIZE"
  shows "\<exists>g. qemu_peek_byte f k = Some (if k < length (unread f) then unread f ! k else 0, g) \<and>
    rd_ok ops ok g \<and> unread g = unread f"
  using peek_byte_ok [OF assms(1) _ assms(2)] peek_byte_end [OF assms(1)] by (cases "k < length (unread f)") auto

lemma peek_buffer_any:
  assumes f: "rd_ok ops ok f" and "k + n \<le> IO_BUF_SIZE" and "k \<le> length (unread f)"
  shows "\<exists>g. qemu_peek_buffer f n k = Some (take n (drop k (unread f)), g) \<and> rd_ok ops ok g \<and>
    unread g = unread f \<and> min (k + n) (length (unread f)) \<le> buf_size g - buf_index g"
proof (cases "int (buf_size f) - int (buf_index f + k) < int n")
  case True
  obtain g where g: "qemu_fill_buffer f = Some g" "rd_ok ops ok g" "unread g = unread f" "buf_index g = 0"
    "buf_size g = min IO_BUF_SIZE (length (unread f))" using fill_ok [OF f] by blast
  define l where "l = min n (buf_size g - k)"
  have l: "l = min n (length (unread f) - k)" "k + l \<le> buf_size g"
    using assms(2,3) g(5) unfolding l_def by auto
  have "buf_range g k l = take l (drop k (unread g))"
    using buf_range_unread [of k l g] g(4) l(2) by simp
  also have "\<dots> = take n (drop k (unread f))" using g(3) l(1) by (simp add: min_def)
  finally have r: "buf_range g k (min n (min IO_BUF_SIZE (length (unread f)) - k)) = take n (drop k (unread f))"
    using g(5) by (simp add: l_def)
  show ?thesis
    using g True source_readable [OF f] assms(2) by (simp add: qemu_peek_buffer_def Let_def r)
next
  case False
  then have "k + n \<le> buf_size f - buf_index f" using f by (auto simp: rd_ok_def)
  then show ?thesis
    using False f source_readable [OF f] buf_range_unread [of k n f]
    by (simp add: qemu_peek_buffer_def Let_def min_absorb1)
qed

lemma no_subsection:
  assumes f: "rd_ok ops ok f" and no: "\<not> subsection_follows nm (unread f)"
  shows "\<exists>g. vmstate_subsection_load nm subs f m = Some (0, g, m) \<and> rd_ok ops ok g \<and> unread g = unread f"
proof -
  obtain g where g: "qemu_peek_byte f 0 = Some (if 0 < length (unread f) then unread f ! 0 else 0, g)"
    "rd_ok ops ok g" "unread g = unread f" using peek_any [OF f, of 0] by auto
  obtain h where h: "qemu_peek_byte g 1 = Some (if 1 < length (unread f) then unread f ! 1 else 0, h)"
    "rd_ok ops ok h" "unread h = unread f" using peek_any [OF g(2), of 1] g(3) by auto
  show ?thesis
  proof (cases "2 \<le> length (unread f) \<and> unread f ! 0 = 5 \<and> length nm + 1 \<le> unat (unread f ! 1)")
    case False
    then show ?thesis using g h by (subst vmstate_subsection_load.simps) auto
  next
    case True
    define n where "n = unat (unread f ! 1)"
    have "n < 256" using unsigned_less [of "unread f ! 1"] by (simp add: n_def)
    then obtain i where i: "qemu_peek_buffer h n 2 = Some (take n (drop 2 (unread f)), i)"
      "rd_ok ops ok i" "unread i = unread f" using peek_buffer_any [OF h(2), of 2 n] h(3) True by auto
    have "length (take n (drop 2 (unread f))) \<noteq> n \<or>
        take (length nm) (cstr (take n (drop 2 (unread f)))) \<noteq> str_bytes nm"
      using no True by (auto simp: subsection_follows_def n_def)
    then show ?thesis
      using g(1) h(1) i True by (subst vmstate_subsection_load.simps) (auto simp: n_def)
  qed
qed

end

subsection \<open>The kinds of values by name\<close>

definition enc_of :: "VMStateInfo \<Rightarrow> u8 list \<Rightarrow> u8 list" where
  "enc_of info bs =
     (if info_name info = ''buffer'' then bs
      else if info_name info = ''unused_buffer'' then replicate (length bs) 0 else rev bs)"

definition good_of :: "VMStateInfo \<Rightarrow> u8 list \<Rightarrow> bool" where
  "good_of info bs \<longleftrightarrow> (info_name info = ''bool'' \<longrightarrow> bs = [0] \<or> bs = [1])"

definition keep_of :: "VMStateInfo \<Rightarrow> bool" where
  "keep_of info \<longleftrightarrow> info_name info \<noteq> ''unused_buffer''"

definition std_leaf :: "nat \<Rightarrow> VMStateInfo \<Rightarrow> bool" where
  "std_leaf n info \<longleftrightarrow> vmstate_codec info n (enc_of info) (good_of info) (keep_of info) \<and> n < 2 ^ 31"

lemma std_leaves [simp]:
  "std_leaf 1 vmstate_info_int8" "std_leaf 1 vmstate_info_uint8" "std_leaf 1 vmstate_info_bool"
  "std_leaf 2 vmstate_info_int16" "std_leaf 2 vmstate_info_uint16"
  "std_leaf 4 vmstate_info_int32" "std_leaf 4 vmstate_info_uint32"
  "std_leaf 8 vmstate_info_int64" "std_leaf 8 vmstate_info_uint64" "std_leaf 8 vmstate_info_float64"
  using c_int8.vmstate_codec_axioms c_uint8.vmstate_codec_axioms c_bool.vmstate_codec_axioms
    c_int16.vmstate_codec_axioms c_uint16.vmstate_codec_axioms c_int32.vmstate_codec_axioms
    c_uint32.vmstate_codec_axioms c_int64.vmstate_codec_axioms c_uint64.vmstate_codec_axioms c_float64.vmstate_codec_axioms
  by (simp_all add: std_leaf_def enc_of_def [abs_def] good_of_def [abs_def] keep_of_def vmstate_info_int8_def
      vmstate_info_uint8_def vmstate_info_bool_def vmstate_info_int16_def vmstate_info_uint16_def
      vmstate_info_int32_def vmstate_info_uint32_def vmstate_info_int64_def vmstate_info_uint64_def
      vmstate_info_float64_def)

lemma std_buffers [simp]:
  "n < 2 ^ 31 \<Longrightarrow> std_leaf n vmstate_info_buffer" "n < 2 ^ 31 \<Longrightarrow> std_leaf n vmstate_info_unused_buffer"
  using c_buffer.vmstate_codec_axioms [of n] c_unused.vmstate_codec_axioms [of n]
  by (simp_all add: std_leaf_def enc_of_def [abs_def] good_of_def [abs_def] keep_of_def vmstate_info_buffer_def
      vmstate_info_unused_buffer_def)

subsection \<open>Bytes copied from one memory to another\<close>

definition copied :: "hmem \<Rightarrow> u64 \<Rightarrow> u64 \<Rightarrow> nat set \<Rightarrow> hmem \<Rightarrow> hmem" where
  "copied m a b K m' = (\<lambda>x. if x \<in> (\<lambda>k. b + of_nat k) ` K then m (x - b + a) else m' x)"

lemma copied_empty [simp]: "copied m a b {} m' = m'"
  by (simp add: copied_def)

lemma copied_at: "k \<in> K \<Longrightarrow> copied m a b K m' (b + of_nat k) = m (a + of_nat k)"
  by (auto simp: copied_def algebra_simps)

lemma copied_other: "x \<notin> (\<lambda>k. b + of_nat k) ` K \<Longrightarrow> copied m a b K m' x = m' x"
  by (simp add: copied_def)

lemma copied_copied: "copied m a b K (copied m a b L m') = copied m a b (L \<union> K) m'"
  by (rule ext) (auto simp: copied_def)

lemma store_copied:
  assumes "mapped m (a + of_nat d) n" and "n < 2 ^ 31"
  shows "mem_upd m' (b + of_nat d) (bytes_at m (a + of_nat d) n) = copied m a b {d..<d + n} m'"
proof
  fix x
  show "mem_upd m' (b + of_nat d) (bytes_at m (a + of_nat d) n) x = copied m a b {d..<d + n} m' x"
  proof (cases "x \<in> (\<lambda>k. b + of_nat k) ` {d..<d + n}")
    case True
    then obtain k where k: "d \<le> k" "k < d + n" "x = b + of_nat k" by auto
    define i where "i = k - d"
    have i: "i < n" "k = d + i" "x = b + of_nat d + of_nat i" using k by (auto simp: i_def add.assoc)
    have "m (a + of_nat d + of_nat i) \<noteq> None" using assms(1) i(1) unfolding mapped_iff by blast
    then show ?thesis
      using mem_upd_in [of i "bytes_at m (a + of_nat d) n" m' "b + of_nat d"] i assms(2)
        copied_at [of k "{d..<d + n}" m a b m'] k(1,2)
      by (simp add: add.assoc k(3))
  next
    case False
    have "x \<noteq> b + of_nat d + of_nat i" if "i < n" for i
      using False that by (auto simp: add.assoc image_iff simp flip: of_nat_add)
    then have "mem_upd m' (b + of_nat d) (bytes_at m (a + of_nat d) n) x = m' x" by (intro mem_upd_out) simp
    then show ?thesis using False by (simp add: copied_other)
  qed
qed

subsection \<open>The leaves on the stream\<close>

primrec enc_item :: "hmem \<Rightarrow> u64 \<Rightarrow> item \<Rightarrow> u8 list" where
  "enc_item m a (Leaf off n info) = enc_of info (bytes_at m (a + of_nat off) n)"
| "enc_item m a (Check nm) = []"

definition enc_items :: "hmem \<Rightarrow> u64 \<Rightarrow> item list \<Rightarrow> u8 list" where
  "enc_items m a items = concat (map (enc_item m a) items)"

lemma enc_items_simps [simp]:
  "enc_items m a [] = []" "enc_items m a (it # items) = enc_item m a it @ enc_items m a items"
  "enc_items m a (items @ items') = enc_items m a items @ enc_items m a items'"
  by (simp_all add: enc_items_def)

text \<open>Every leaf is of a known kind, its bytes are mapped and form a value of the kind.\<close>

primrec item_ok :: "hmem \<Rightarrow> u64 \<Rightarrow> item \<Rightarrow> bool" where
  "item_ok m a (Leaf off n info) \<longleftrightarrow>
     std_leaf n info \<and> mapped m (a + of_nat off) n \<and> good_of info (bytes_at m (a + of_nat off) n)"
| "item_ok m a (Check nm) \<longleftrightarrow> True"

primrec item_mapped :: "hmem \<Rightarrow> u64 \<Rightarrow> item \<Rightarrow> bool" where
  "item_mapped m a (Leaf off n info) \<longleftrightarrow> mapped m (a + of_nat off) n"
| "item_mapped m a (Check nm) \<longleftrightarrow> True"

primrec item_kept :: "item \<Rightarrow> nat set" where
  "item_kept (Leaf off n info) = (if keep_of info then {off..<off + n} else {})"
| "item_kept (Check nm) = {}"

definition items_kept :: "item list \<Rightarrow> nat set" where
  "items_kept items = (\<Union>it \<in> set items. item_kept it)"

text \<open>Where the loader looks for a subsection of a description, the stream does not have one.\<close>

primrec quiet :: "hmem \<Rightarrow> u64 \<Rightarrow> item list \<Rightarrow> u8 list \<Rightarrow> bool" where
  "quiet m a [] rest \<longleftrightarrow> True"
| "quiet m a (it # items) rest \<longleftrightarrow>
     (case it of Check nm \<Rightarrow> \<not> subsection_follows nm (enc_items m a items @ rest) | _ \<Rightarrow> True) \<and> quiet m a items rest"

lemma save_items:
  assumes "byte_sink ops ok" and "wr_ok ops ok f" and "list_all (item_ok m a) items"
  shows "\<exists>g. for_list items (save_item a) (f, m) = Some (g, m) \<and> wr_ok ops ok g \<and>
    written g = written f @ enc_items m a items"
  using assms(2,3)
proof (induction items arbitrary: f)
  case (Cons it items)
  have "\<exists>g. save_item a it (f, m) = Some (g, m) \<and> wr_ok ops ok g \<and> written g = written f @ enc_item m a it"
  proof (cases it)
    case (Leaf off n info)
    then have c: "vmstate_codec info n (enc_of info) (good_of info) (keep_of info)" "n < 2 ^ 31"
      "mapped m (a + of_nat off) n" using Cons.prems(2) by (simp_all add: std_leaf_def)
    show ?thesis
      using appendsE [OF vmstate_codec.codec_put [OF c(1) assms(1) Cons.prems(1) c(3,2)]] Leaf by fastforce
  qed (use Cons.prems(1) in simp)
  then obtain g where g: "save_item a it (f, m) = Some (g, m)" "wr_ok ops ok g"
    "written g = written f @ enc_item m a it" by blast
  then show ?case using Cons.IH [OF g(2)] Cons.prems(2) by auto
qed simp

lemma load_items:
  assumes "byte_source ops ok get" and "rd_ok ops ok f" and "unread f = enc_items m a items @ rest"
    and "list_all (item_ok m a) items" and "list_all (item_mapped m' b) items" and "quiet m a items rest"
  shows "\<exists>g. for_ret items (load_item b) (f, m') = Some (0, g, copied m a b (items_kept items) m') \<and>
    rd_ok ops ok g \<and> unread g = rest"
  using assms(2-6)
proof (induction items arbitrary: f m')
  case (Cons it items)
  let ?un = "enc_items m a items @ rest"
  have "\<exists>g. load_item b it (f, m') = Some (0, g, copied m a b (item_kept it) m') \<and> rd_ok ops ok g \<and> unread g = ?un \<and>
      list_all (item_mapped (copied m a b (item_kept it) m') b) items"
  proof (cases it)
    case (Leaf off n info)
    then have c: "vmstate_codec info n (enc_of info) (good_of info) (keep_of info)" "n < 2 ^ 31"
      "mapped m (a + of_nat off) n" "good_of info (bytes_at m (a + of_nat off) n)" "mapped m' (b + of_nat off) n"
      using Cons.prems(3,4) by (simp_all add: std_leaf_def)
    obtain g where g: "info_get info f (b + of_nat off) n m' =
        Some (0, g, store_if (keep_of info) m' (b + of_nat off) (bytes_at m (a + of_nat off) n))"
      "rd_ok ops ok g" "unread g = ?un"
      using vmstate_codec.codec_get [OF c(1) assms(1) Cons.prems(1) _ _ c(4,5,2)] Cons.prems(2) Leaf
      by (metis append_assoc enc_item.simps(1) enc_items_simps(2) length_bytes_at)
    have st: "store_if (keep_of info) m' (b + of_nat off) (bytes_at m (a + of_nat off) n) =
        copied m a b (item_kept it) m'"
      using store_copied [OF c(3,2)] Leaf by (simp add: store_if_def)
    have "item_mapped (store_if k m' x bs) b y" if "item_mapped m' b y" for k x bs y
      using that by (cases y) (auto simp: store_if_def mapped_mem_upd)
    then have "list_all (item_mapped (copied m a b (item_kept it) m') b) items"
      using Cons.prems(4) unfolding st [symmetric] by (auto simp: list_all_iff)
    then show ?thesis using g Leaf st by simp
  next
    case (Check nm)
    then show ?thesis
      using byte_source.no_subsection [OF assms(1) Cons.prems(1), of nm "[]" m'] Cons.prems(2,4,5) by auto
  qed
  then obtain g where g: "load_item b it (f, m') = Some (0, g, copied m a b (item_kept it) m')" "rd_ok ops ok g"
    "unread g = ?un" "list_all (item_mapped (copied m a b (item_kept it) m') b) items" by blast
  have "\<exists>h. for_ret items (load_item b) (g, copied m a b (item_kept it) m') =
      Some (0, h, copied m a b (items_kept items) (copied m a b (item_kept it) m')) \<and> rd_ok ops ok h \<and> unread h = rest"
    using Cons.prems(3,5) by (intro Cons.IH [OF g(2,3) _ g(4)]) simp_all
  then show ?case using g(1) by (auto simp: copied_copied items_kept_def)
qed (simp add: items_kept_def)

end
