(* ===== verification/Vmstate_Sections.thy ===== *)
theory Vmstate_Sections
  imports Vmstate_Round
begin

text \<open>
  Descriptions with subsections: what follows the fields on the stream, and how the loader finds its
  way through it.
\<close>

subsection \<open>Names\<close>

lemma str_bytes_eq [simp]: "str_bytes s = str_bytes t \<longleftrightarrow> s = t"
proof -
  have "inj (of_char :: char \<Rightarrow> u8)"
  proof (rule injI)
    fix c d assume "of_char c = (of_char d :: u8)"
    then have "unat (of_nat (of_char c) :: u8) = unat (of_nat (of_char d) :: u8)"
      by (simp only: of_nat_of_char)
    moreover have "of_char e < (256 :: nat)" for e
      using of_char_mod_256 [of e, where 'a = nat] by (metis mod_less_divisor zero_less_numeral)
    ultimately have "of_char c = (of_char d :: nat)" by (simp add: unsigned_of_nat take_bit_nat_eq_self)
    then show "c = d" by simp
  qed
  then show ?thesis unfolding str_bytes_def by (auto dest: map_injective)
qed

lemma length_str_bytes [simp]: "length (str_bytes s) = length s"
  by (simp add: str_bytes_def)

lemma take_str_bytes: "take n (str_bytes s) = str_bytes (take n s)"
  by (simp add: str_bytes_def take_map)

definition c_name :: "string \<Rightarrow> bool" where
  "c_name nm \<longleftrightarrow> length nm < 256 \<and> list_all (\<lambda>b. b \<noteq> 0) (str_bytes nm)"

lemma cstr_name: "c_name nm \<Longrightarrow> cstr (str_bytes nm) = str_bytes nm"
  by (auto simp: c_name_def cstr_def list_all_iff takeWhile_eq_all_conv)

subsection \<open>A section\<close>

definition section_head :: "VMStateDescription \<Rightarrow> u8 list" where
  "section_head vmsd =
     QEMU_VM_SUBSECTION # of_nat (length (vm_name vmsd)) # str_bytes (vm_name vmsd) @
     rev (bytes_le 4 (word_of_int (vm_version_id vmsd) :: u32))"

text \<open>A subsection of the description with the given name.\<close>

definition sub_ok :: "string \<Rightarrow> VMStateSubsection \<Rightarrow> bool" where
  "sub_ok nm sub \<longleftrightarrow>
     plain_vmsd (ss_vmsd sub) \<and> c_name (vm_name (ss_vmsd sub)) \<and> length nm < length (vm_name (ss_vmsd sub)) \<and>
     take (length nm) (vm_name (ss_vmsd sub)) = nm \<and>
     0 \<le> vm_version_id (ss_vmsd sub) \<and> vm_version_id (ss_vmsd sub) < 256"

lemma unat_len: "n < 256 \<Longrightarrow> unat (of_nat n :: u8) = n"
  by (simp add: unsigned_of_nat take_bit_nat_eq_self)

lemma put_header_appends:
  assumes "byte_sink ops ok" and "wr_ok ops ok f" and "c_name (vm_name vmsd)"
  shows "appends ops ok f (section_head vmsd) (put_subsection_header vmsd f)"
proof -
  let ?bs = "str_bytes (vm_name vmsd)" and ?v = "word_of_int (vm_version_id vmsd) :: u32"
  have "appends ops ok f ([QEMU_VM_SUBSECTION] @ [of_nat (length (vm_name vmsd))] @ ?bs @ rev (bytes_le 4 ?v))
      (do { f \<leftarrow> qemu_put_byte f QEMU_VM_SUBSECTION; f \<leftarrow> qemu_put_byte f (of_nat (length (vm_name vmsd)));
            f \<leftarrow> qemu_put_buffer f ?bs; qemu_put_be32 f ?v })"
    by (intro appends_bind byte_sink.put_byte_appends [OF assms(1)] byte_sink.put_buffer_appends [OF assms(1)]
        byte_sink.put_be32_appends [OF assms(1)] assms(2))
  then show ?thesis
    using assms(3) unat_len [of "length (vm_name vmsd)"]
    by (simp add: section_head_def put_subsection_header_def Let_def c_name_def)
qed

lemma get_subsection_found:
  assumes "(sub, load) \<in> set subs" and "distinct (map (\<lambda>(sub, _). vm_name (ss_vmsd sub)) subs)"
  shows "vmstate_get_subsection subs (str_bytes (vm_name (ss_vmsd sub))) = Some load"
  using assms by (induction subs) (auto simp: rev_image_eqI)

context byte_source
begin

text \<open>The head of a section is recognised and skipped, up to the version.\<close>

lemma section_peek:
  assumes f: "rd_ok ops ok f" and un: "unread f = section_head (ss_vmsd sub) @ rest" and sub: "sub_ok nm sub"
  shows "\<exists>f1 f2 f3. qemu_peek_byte f 0 = Some (5, f1) \<and>
     qemu_peek_byte f1 1 = Some (of_nat (length (vm_name (ss_vmsd sub))), f2) \<and>
     qemu_peek_buffer f2 (length (vm_name (ss_vmsd sub))) 2 = Some (str_bytes (vm_name (ss_vmsd sub)), f3) \<and>
     rd_ok ops ok f3 \<and> unread f3 = unread f \<and> 2 + length (vm_name (ss_vmsd sub)) \<le> buf_size f3 - buf_index f3"
proof -
  define name where "name = vm_name (ss_vmsd sub)"
  have nm: "length name < 256" using sub by (auto simp: sub_ok_def name_def c_name_def)
  obtain tl where un': "unread f = 5 # of_nat (length name) # str_bytes name @ tl"
    using un by (simp add: section_head_def name_def)
  obtain f1 where f1: "qemu_peek_byte f 0 = Some (5, f1)" "rd_ok ops ok f1" "unread f1 = unread f"
    using peek_any [OF f, of 0] un' by auto
  obtain f2 where f2: "qemu_peek_byte f1 1 = Some (of_nat (length name), f2)" "rd_ok ops ok f2" "unread f2 = unread f"
    using peek_any [OF f1(2), of 1] f1(3) un' by auto
  obtain f3 where "qemu_peek_buffer f2 (length name) 2 = Some (str_bytes name, f3)" "rd_ok ops ok f3"
    "unread f3 = unread f" "2 + length name \<le> buf_size f3 - buf_index f3"
    using peek_buffer_any [OF f2(2), of 2 "length name"] f2(3) un' nm by auto
  then show ?thesis using f1(1) f2(1) unfolding name_def by blast
qed

lemma sub_okD:
  assumes "sub_ok nm sub"
  shows "c_name (vm_name (ss_vmsd sub))" "length nm < length (vm_name (ss_vmsd sub))"
    "take (length nm) (vm_name (ss_vmsd sub)) = nm" "length (vm_name (ss_vmsd sub)) < 256"
    "uint (ucast (le_word (bytes_le 4 (word_of_int (vm_version_id (ss_vmsd sub)) :: u32)) :: u32) :: u8) =
       vm_version_id (ss_vmsd sub)"
  using assms
  by (simp_all add: sub_ok_def c_name_def le_word_bytes_le unsigned_ucast_eq uint_word_of_int take_bit_int_eq_self)

lemma section_found:
  assumes f: "rd_ok ops ok f" and un: "unread f = section_head (ss_vmsd sub) @ rest"
    and sub: "sub_ok nm sub" and ent: "(sub, load) \<in> set subs"
    and dist: "distinct (map (\<lambda>(sub, _). vm_name (ss_vmsd sub)) subs)"
  shows "\<exists>g. rd_ok ops ok g \<and> unread g = rest \<and> vmstate_subsection_load nm subs f m =
     do { (ret, s) \<leftarrow> load (vm_version_id (ss_vmsd sub)) (g, m);
          if ret \<noteq> 0 then Some (ret, s) else vmstate_subsection_load nm subs (fst s) (snd s) }"
proof -
  define n where "n = length (vm_name (ss_vmsd sub))"
  define v where "v = (word_of_int (vm_version_id (ss_vmsd sub)) :: u32)"
  note nm = sub_okD [OF sub, folded n_def v_def]
  obtain f1 f2 f3 where p: "qemu_peek_byte f 0 = Some (5, f1)" "qemu_peek_byte f1 1 = Some (of_nat n, f2)"
    "qemu_peek_buffer f2 n 2 = Some (str_bytes (vm_name (ss_vmsd sub)), f3)"
    and f3: "rd_ok ops ok f3" "unread f3 = unread f" "2 + n \<le> buf_size f3 - buf_index f3"
    using section_peek [OF f un sub] unfolding n_def by blast
  note s1 = skip_ok [OF f3(1), of 1]
  note s2 = skip_ok [OF s1(1), of 1]
  define f4 where "f4 = qemu_file_skip (qemu_file_skip f3 1) 1"
  have b: "1 \<le> buf_size f3 - buf_index f3" "n \<le> buf_size f4 - buf_index f4"
    "1 \<le> buf_size (qemu_file_skip f3 1) - buf_index (qemu_file_skip f3 1)"
    using f3(3) by (auto simp: qemu_file_skip_def f4_def)
  have f4: "rd_ok ops ok f4" "unread f4 = drop 2 (unread f)"
    using s2 b s1 f3(2) by (auto simp: f4_def numeral_2_eq_2 drop_drop)
  note s3 = skip_ok [OF f4(1) b(2)]
  have "unread (qemu_file_skip f4 n) = rev (bytes_le 4 v) @ rest"
    using s3(3) f4(2) un by (simp add: section_head_def n_def v_def)
  from get_be32_value [OF s3(1) this] obtain g where
    g: "qemu_get_be32 (qemu_file_skip f4 n) = Some (le_word (bytes_le 4 v), g)" "rd_ok ops ok g" "unread g = rest" by auto
  have "vmstate_subsection_load nm subs f m =
     do { (ret, s) \<leftarrow> load (vm_version_id (ss_vmsd sub)) (g, m);
          if ret \<noteq> 0 then Some (ret, s) else vmstate_subsection_load nm subs (fst s) (snd s) }"
    using p g(1) nm unat_len [OF nm(4)] get_subsection_found [OF ent dist]
    by (subst vmstate_subsection_load.simps) (simp add: cstr_name take_str_bytes Let_def f4_def n_def)
  then show ?thesis using g by blast
qed

lemma section_unknown:
  assumes f: "rd_ok ops ok f" and un: "unread f = section_head (ss_vmsd sub) @ rest" and sub: "sub_ok nm sub"
    and "vmstate_get_subsection subs (str_bytes (vm_name (ss_vmsd sub))) = None"
  shows "\<exists>g. vmstate_subsection_load nm subs f m = Some (- ENOENT, g, m)"
  using section_peek [OF f un sub] sub_okD [OF sub] assms(4) unat_len [OF sub_okD(4) [OF sub]]
  by (subst vmstate_subsection_load.simps) (auto simp: cstr_name take_str_bytes)

end

subsection \<open>All sections\<close>

definition section_bytes :: "hmem \<Rightarrow> u64 \<Rightarrow> VMStateSubsection \<Rightarrow> u8 list" where
  "section_bytes m a sub = section_head (ss_vmsd sub) @ enc_items m a (flat (ss_vmsd sub))"

definition sections_bytes :: "hmem \<Rightarrow> u64 \<Rightarrow> VMStateSubsection list \<Rightarrow> u8 list" where
  "sections_bytes m a subs = concat (map (section_bytes m a) subs)"

primrec quiet_sections :: "hmem \<Rightarrow> u64 \<Rightarrow> VMStateSubsection list \<Rightarrow> u8 list \<Rightarrow> bool" where
  "quiet_sections m a [] rest \<longleftrightarrow> True"
| "quiet_sections m a (sub # subs) rest \<longleftrightarrow>
     quiet m a (flat (ss_vmsd sub)) (sections_bytes m a subs @ rest) \<and> quiet_sections m a subs rest"

definition sections_items :: "VMStateSubsection list \<Rightarrow> item list" where
  "sections_items subs = concat (map (\<lambda>sub. flat (ss_vmsd sub)) subs)"

lemma save_sections:
  assumes "byte_sink ops ok" and "wr_ok ops ok f" and "list_all (sub_ok nm) subs"
    and "list_all (item_ok m a) (sections_items (filter (\<lambda>sub. ss_needed sub m a) subs))"
  shows "\<exists>g. vmstate_subsection_save (map (\<lambda>sub. (sub, \<lambda>s. vmstate_save_state (ss_vmsd sub) a s)) subs) a (f, m) =
      Some (g, m) \<and> wr_ok ops ok g \<and>
      written g = written f @ sections_bytes m a (filter (\<lambda>sub. ss_needed sub m a) subs)"
  using assms(2-4)
proof (induction subs arbitrary: f)
  case Nil
  then show ?case by (simp add: vmstate_subsection_save_def sections_bytes_def)
next
  case (Cons sub subs)
  let ?rest = "\<lambda>s. vmstate_subsection_save (map (\<lambda>sub. (sub, \<lambda>s. vmstate_save_state (ss_vmsd sub) a s)) subs) a s"
  have step: "vmstate_subsection_save (map (\<lambda>sub. (sub, \<lambda>s. vmstate_save_state (ss_vmsd sub) a s)) (sub # subs)) a (f, m) =
      Option.bind (if ss_needed sub m a
        then do { f \<leftarrow> put_subsection_header (ss_vmsd sub) f; vmstate_save_state (ss_vmsd sub) a (f, m) }
        else Some (f, m)) ?rest"
    by (simp add: vmstate_subsection_save_def)
  show ?case
  proof (cases "ss_needed sub m a")
    case False
    then show ?thesis using Cons step by simp
  next
    case True
    have ok: "plain_vmsd (ss_vmsd sub)" "c_name (vm_name (ss_vmsd sub))" using Cons.prems(2) by (simp_all add: sub_ok_def)
    obtain g where g: "put_subsection_header (ss_vmsd sub) f = Some g" "wr_ok ops ok g"
      "written g = written f @ section_head (ss_vmsd sub)"
      by (rule appendsE [OF put_header_appends [OF assms(1) Cons.prems(1) ok(2)]])
    have "list_all (item_ok m a) (flat (ss_vmsd sub))" using Cons.prems(3) True by (simp add: sections_items_def)
    from save_items [OF assms(1) g(2) this] obtain h where
      h: "vmstate_save_state (ss_vmsd sub) a (g, m) = Some (h, m)" "wr_ok ops ok h"
      "written h = written g @ enc_items m a (flat (ss_vmsd sub))"
      unfolding save_flat [OF ok(1)] by blast
    have "\<exists>i. ?rest (h, m) = Some (i, m) \<and> wr_ok ops ok i \<and>
        written i = written h @ sections_bytes m a (filter (\<lambda>sub. ss_needed sub m a) subs)"
      using Cons.prems True by (intro Cons.IH [OF h(2)]) (simp_all add: sections_items_def)
    then show ?thesis
      using True step g(1,3) h(1,3) by (auto simp: sections_bytes_def section_bytes_def)
  qed
qed

lemma kept_mapped:
  assumes "list_all (item_ok m a) items" and "k \<in> items_kept items"
  shows "m (a + of_nat k) \<noteq> None"
proof -
  obtain off n info where it: "Leaf off n info \<in> set items" "off \<le> k" "k < off + n"
  proof -
    from assms(2) obtain it where it: "it \<in> set items" "k \<in> item_kept it" by (auto simp: items_kept_def)
    show ?thesis
    proof (cases it)
      case (Leaf off n info)
      then show ?thesis using it that [of off n info] by (auto split: if_splits)
    qed (use it in simp)
  qed
  then have "mapped m (a + of_nat off) n" using assms(1) by (auto simp: list_all_iff)
  moreover have "k - off < n" "a + of_nat k = a + of_nat off + of_nat (k - off)" using it by (auto simp: of_nat_diff)
  ultimately show ?thesis unfolding mapped_iff by metis
qed

lemma item_mapped_copied:
  assumes "\<And>k. k \<in> K \<Longrightarrow> m (a + of_nat k) \<noteq> None" and "list_all (item_mapped m' b) items"
  shows "list_all (item_mapped (copied m a b K m') b) items"
proof -
  have "copied m a b K m' x \<noteq> None" if "m' x \<noteq> None" for x
    using that assms(1) by (auto simp: copied_def algebra_simps)
  then have "item_mapped (copied m a b K m') b it" if "item_mapped m' b it" for it
    using that by (cases it) (auto simp: mapped_iff)
  then show ?thesis using assms(2) by (auto simp: list_all_iff)
qed

lemma load_sections:
  assumes "byte_source ops ok get" and "rd_ok ops ok f" and "unread f = sections_bytes m a ns @ rest"
    and "list_all (sub_ok nm) ns" and "set ns \<subseteq> set subs" and "distinct (map (\<lambda>sub. vm_name (ss_vmsd sub)) subs)"
    and "list_all (item_ok m a) (sections_items ns)" and "list_all (item_mapped m' b) (sections_items ns)"
    and "quiet_sections m a ns rest" and "\<not> subsection_follows nm rest"
  shows "\<exists>g. vmstate_subsection_load nm (map (\<lambda>sub. (sub, \<lambda>v s. vmstate_load_state (ss_vmsd sub) b v s)) subs) f m' =
      Some (0, g, copied m a b (items_kept (sections_items ns)) m') \<and> rd_ok ops ok g \<and> unread g = rest"
  using assms(2-5,7-9)
proof (induction ns arbitrary: f m')
  case Nil
  then show ?case
    using byte_source.no_subsection [OF assms(1) Nil(1)] assms(10) by (simp add: sections_bytes_def sections_items_def items_kept_def)
next
  case (Cons sub ns)
  let ?subs = "map (\<lambda>sub. (sub, \<lambda>v s. vmstate_load_state (ss_vmsd sub) b v s)) subs"
  have un: "unread f = section_head (ss_vmsd sub) @ enc_items m a (flat (ss_vmsd sub)) @ sections_bytes m a ns @ rest"
    using Cons.prems(2) by (simp add: sections_bytes_def section_bytes_def)
  have sub: "sub_ok nm sub" "plain_vmsd (ss_vmsd sub)" using Cons.prems(3) by (simp_all add: sub_ok_def)
  have ent: "(sub, \<lambda>v s. vmstate_load_state (ss_vmsd sub) b v s) \<in> set ?subs"
    "distinct (map (\<lambda>(sub, _). vm_name (ss_vmsd sub)) ?subs)"
    using Cons.prems(4) assms(6) by (auto simp: comp_def)
  obtain g where g: "rd_ok ops ok g" "unread g = enc_items m a (flat (ss_vmsd sub)) @ sections_bytes m a ns @ rest"
    "vmstate_subsection_load nm ?subs f m' =
       do { (ret, s) \<leftarrow> vmstate_load_state (ss_vmsd sub) b (vm_version_id (ss_vmsd sub)) (g, m');
            if ret \<noteq> 0 then Some (ret, s) else vmstate_subsection_load nm ?subs (fst s) (snd s) }"
    using byte_source.section_found [OF assms(1) Cons.prems(1) un sub(1) ent] by blast
  let ?m1 = "copied m a b (items_kept (flat (ss_vmsd sub))) m'"
  obtain h where h: "vmstate_load_state (ss_vmsd sub) b (vm_version_id (ss_vmsd sub)) (g, m') = Some (0, h, ?m1)"
    "rd_ok ops ok h" "unread h = sections_bytes m a ns @ rest"
    using load_items [OF assms(1) g(1,2)] Cons.prems(5-7)
    unfolding load_flat [OF sub(2)] by (auto simp: sections_items_def)
  have mp: "list_all (item_mapped ?m1 b) (sections_items ns)"
    using kept_mapped [of m a "flat (ss_vmsd sub)"] Cons.prems(5,6)
    by (intro item_mapped_copied) (simp_all add: sections_items_def)
  have "\<exists>i. vmstate_subsection_load nm ?subs h ?m1 = Some (0, i, copied m a b (items_kept (sections_items ns)) ?m1) \<and>
      rd_ok ops ok i \<and> unread i = rest"
    using Cons.prems mp by (intro Cons.IH [OF h(2,3)]) (simp_all add: sections_items_def)
  moreover have "items_kept (flat (ss_vmsd sub)) \<union> items_kept (sections_items ns) = items_kept (sections_items (sub # ns))"
    by (simp add: items_kept_def sections_items_def Un_commute)
  ultimately show ?case using g(3) h(1) by (auto simp: copied_copied)
qed

subsection \<open>Saving and loading\<close>

definition table_ok :: "VMStateDescription \<Rightarrow> bool" where
  "table_ok vmsd \<longleftrightarrow>
     list_all (\<lambda>f. plain_field (vm_version_id vmsd) f \<and> (case f_vmsd f of None \<Rightarrow> True | Some v \<Rightarrow> plain_vmsd v))
       (vm_fields vmsd) \<and>
     vm_minimum_version_id vmsd \<le> vm_version_id vmsd \<and> vm_pre_load vmsd = None \<and>
     list_all (sub_ok (vm_name vmsd)) (vm_subsections vmsd) \<and>
     distinct (map (\<lambda>sub. vm_name (ss_vmsd sub)) (vm_subsections vmsd))"

definition pre_saved :: "VMStateDescription \<Rightarrow> u64 \<Rightarrow> hmem \<Rightarrow> hmem option" where
  "pre_saved vmsd a m = (case vm_pre_save vmsd of None \<Rightarrow> Some m | Some pre_save \<Rightarrow> pre_save a m)"

definition post_loaded :: "VMStateDescription \<Rightarrow> u64 \<Rightarrow> hmem \<Rightarrow> (int \<times> hmem) option" where
  "post_loaded vmsd b m =
     (case vm_post_load vmsd of None \<Rightarrow> Some (0, m) | Some post_load \<Rightarrow> post_load b (vm_version_id vmsd) m)"

text \<open>The sections that are written, everything that travels, and what it looks like on the stream.\<close>

definition needed_subs :: "VMStateDescription \<Rightarrow> hmem \<Rightarrow> u64 \<Rightarrow> VMStateSubsection list" where
  "needed_subs vmsd m a = filter (\<lambda>sub. ss_needed sub m a) (vm_subsections vmsd)"

definition all_items :: "VMStateDescription \<Rightarrow> hmem \<Rightarrow> u64 \<Rightarrow> item list" where
  "all_items vmsd m a = field_items vmsd @ sections_items (needed_subs vmsd m a)"

definition state_bytes :: "VMStateDescription \<Rightarrow> hmem \<Rightarrow> u64 \<Rightarrow> u8 list" where
  "state_bytes vmsd m a = enc_items m a (field_items vmsd) @ sections_bytes m a (needed_subs vmsd m a)"

definition all_quiet :: "VMStateDescription \<Rightarrow> hmem \<Rightarrow> u64 \<Rightarrow> u8 list \<Rightarrow> bool" where
  "all_quiet vmsd m a rest \<longleftrightarrow>
     quiet m a (field_items vmsd) (sections_bytes m a (needed_subs vmsd m a) @ rest) \<and>
     quiet_sections m a (needed_subs vmsd m a) rest \<and> \<not> subsection_follows (vm_name vmsd) rest"

lemma table_okD:
  assumes "table_ok vmsd"
  shows "f \<in> set (vm_fields vmsd) \<Longrightarrow> plain_field (vm_version_id vmsd) f"
    and "f \<in> set (vm_fields vmsd) \<Longrightarrow> f_vmsd f = Some v \<Longrightarrow> plain_vmsd v"
    and "vm_minimum_version_id vmsd \<le> vm_version_id vmsd" and "vm_pre_load vmsd = None"
    and "list_all (sub_ok (vm_name vmsd)) (vm_subsections vmsd)"
    and "distinct (map (\<lambda>sub. vm_name (ss_vmsd sub)) (vm_subsections vmsd))"
  using assms by (auto simp: table_ok_def list_all_iff)

lemma save_state_written:
  assumes "byte_sink ops ok" and "wr_ok ops ok f" and "table_ok vmsd" and "pre_saved vmsd a m = Some m1"
    and "list_all (item_ok m1 a) (all_items vmsd m1 a)"
  shows "\<exists>g. vmstate_save_state vmsd a (f, m) = Some (g, m1) \<and> wr_ok ops ok g \<and>
    written g = written f @ state_bytes vmsd m1 a"
proof -
  note t = table_okD [OF assms(3)]
  have eq: "vmstate_save_state vmsd a (f, m) = do {
     s \<leftarrow> for_list (field_items vmsd) (save_item a) (f, m1);
     vmstate_subsection_save
       (map (\<lambda>sub. (sub, \<lambda>s. vmstate_save_state (ss_vmsd sub) a s)) (vm_subsections vmsd)) a s }"
    by (subst save_state_eq, erule t(1), erule (1) save_flat [OF t(2)])
      (use assms(4) in \<open>auto simp: pre_saved_def split: option.splits\<close>)
  obtain g where g: "for_list (field_items vmsd) (save_item a) (f, m1) = Some (g, m1)" "wr_ok ops ok g"
    "written g = written f @ enc_items m1 a (field_items vmsd)"
    using save_items [OF assms(1,2), of m1 a "field_items vmsd"] assms(5) by (auto simp: all_items_def)
  show ?thesis
    using save_sections [OF assms(1) g(2) t(5), of m1 a] assms(5) g(1,3) eq
    by (auto simp: all_items_def state_bytes_def needed_subs_def)
qed

lemma load_state_read:
  assumes "byte_source ops ok get" and "rd_ok ops ok f" and "table_ok vmsd"
    and "unread f = state_bytes vmsd m1 a @ rest" and "list_all (item_ok m1 a) (all_items vmsd m1 a)"
    and "list_all (item_mapped m' b) (all_items vmsd m1 a)" and "all_quiet vmsd m1 a rest"
  shows "\<exists>g. vmstate_load_state vmsd b (vm_version_id vmsd) (f, m') =
      map_option (\<lambda>(ret, m). (ret, g, m)) (post_loaded vmsd b (copied m1 a b (items_kept (all_items vmsd m1 a)) m')) \<and>
    rd_ok ops ok g \<and> unread g = rest"
proof -
  note t = table_okD [OF assms(3)]
  let ?ns = "needed_subs vmsd m1 a"
  let ?m1 = "copied m1 a b (items_kept (field_items vmsd)) m'"
  obtain g where g: "for_ret (field_items vmsd) (load_item b) (f, m') = Some (0, g, ?m1)" "rd_ok ops ok g"
    "unread g = sections_bytes m1 a ?ns @ rest"
    using load_items [OF assms(1,2), of m1 a "field_items vmsd" "sections_bytes m1 a ?ns @ rest" m' b] assms(4-7)
    by (auto simp: all_items_def state_bytes_def all_quiet_def)
  have mp: "list_all (item_mapped ?m1 b) (sections_items ?ns)"
    using kept_mapped [of m1 a "field_items vmsd"] assms(5,6) by (intro item_mapped_copied) (simp_all add: all_items_def)
  obtain h where h: "vmstate_subsection_load (vm_name vmsd)
        (map (\<lambda>sub. (sub, \<lambda>v s. vmstate_load_state (ss_vmsd sub) b v s)) (vm_subsections vmsd)) g ?m1 =
      Some (0, h, copied m1 a b (items_kept (sections_items ?ns)) ?m1)" "rd_ok ops ok h" "unread h = rest"
    using load_sections [OF assms(1) g(2,3) _ _ t(6) _ mp, of "vm_name vmsd"] t(5) assms(5,7)
    by (auto simp: all_items_def all_quiet_def needed_subs_def list_all_iff)
  have un: "items_kept (field_items vmsd) \<union> items_kept (sections_items ?ns) = items_kept (all_items vmsd m1 a)"
    by (simp add: items_kept_def all_items_def)
  have "vmstate_load_state vmsd b (vm_version_id vmsd) (f, m') =
      map_option (\<lambda>(ret, m). (ret, h, m)) (post_loaded vmsd b (copied m1 a b (items_kept (all_items vmsd m1 a)) m'))"
    by (subst load_state_eq, erule t(1), erule (1) load_flat [OF t(2)], rule t(3), rule t(4))
      (use g(1) h(1) in \<open>auto simp: post_loaded_def copied_copied un split: option.splits\<close>)
  then show ?thesis using h by blast
qed

end
