(* ===== verification/Savevm_Props.thy ===== *)
theory Savevm_Props
  imports Vmstate_Sections Vmstate_Fields
begin

text \<open>
  Properties of the saved state of a device: a file that was written by one process and is read by
  another.
\<close>

subsection \<open>Writing a device to a file and reading it back\<close>

definition host_file :: "u8 list \<Rightarrow> io_event list \<Rightarrow> iofile" where
  "host_file bs es = \<lparr>fdata = bs, fpos = 0, fevents = es\<rparr>"

text \<open>The state and the mark that ends the sections, in a file that is flushed.\<close>

definition save_device ::
  "QEMUFileOps \<Rightarrow> io_event list \<Rightarrow> VMStateDescription \<Rightarrow> u64 \<Rightarrow> hmem \<Rightarrow> (u8 list \<times> int \<times> hmem) option" where
  "save_device ops es vmsd a m = do {
     (f, m) \<leftarrow> vmstate_save_state vmsd a (qemu_fopen_ops (host_file [] es) ops, m);
     f \<leftarrow> qemu_put_byte f QEMU_VM_EOF;
     f \<leftarrow> qemu_fflush f;
     Some (fdata (qf_opaque f), qemu_file_get_error f, m)
   }"

definition load_device ::
  "QEMUFileOps \<Rightarrow> io_event list \<Rightarrow> u8 list \<Rightarrow> VMStateDescription \<Rightarrow> u64 \<Rightarrow> hmem \<Rightarrow> (int \<times> fm) option" where
  "load_device ops es bs vmsd b m =
     vmstate_load_state vmsd b (vm_version_id vmsd) (qemu_fopen_ops (host_file bs es) ops, m)"

lemma not_follows_0 [simp]: "\<not> subsection_follows nm (0 # rest)"
  by (simp add: subsection_follows_def)

lemma save_device_bytes:
  assumes "byte_sink ops ok" and "ok (host_file [] es)" and "table_ok vmsd" and "pre_saved vmsd a m = Some m1"
    and "list_all (item_ok m1 a) (all_items vmsd m1 a)"
  shows "save_device ops es vmsd a m = Some (state_bytes vmsd m1 a @ [0], 0, m1)"
proof -
  have f: "wr_ok ops ok (qemu_fopen_ops (host_file [] es) ops)" "written (qemu_fopen_ops (host_file [] es) ops) = []"
    using assms(2) by (simp_all add: wr_ok_def qemu_fopen_ops_def written_def host_file_def)
  obtain g where g: "vmstate_save_state vmsd a (qemu_fopen_ops (host_file [] es) ops, m) = Some (g, m1)"
    "wr_ok ops ok g" "written g = state_bytes vmsd m1 a"
    using save_state_written [OF assms(1) f(1) assms(3-5)] f(2) by auto
  obtain h where h: "qemu_put_byte g 0 = Some h" "wr_ok ops ok h" "written h = written g @ [0]"
    by (rule appendsE [OF byte_sink.put_byte_appends [OF assms(1) g(2)]])
  obtain i where i: "qemu_fflush h = Some i" "fdata (qf_opaque i) = written h" "wr_ok ops ok i"
    using byte_sink.flush_all [OF assms(1) h(2)] by blast
  then have "fdata (qf_opaque i) = state_bytes vmsd m1 a @ [0]" using h(3) g(3) by simp
  then show ?thesis using g(1) h(1) i by (simp add: save_device_def qemu_file_get_error_def wr_ok_def)
qed

lemma load_device_state:
  assumes "byte_source ops ok get" and "ok (host_file (state_bytes vmsd m1 a @ [0]) es)" and "table_ok vmsd"
    and "list_all (item_ok m1 a) (all_items vmsd m1 a)"
    and "list_all (item_mapped m' b) (all_items vmsd m1 a)" and "all_quiet vmsd m1 a [0]"
  shows "\<exists>g. load_device ops es (state_bytes vmsd m1 a @ [0]) vmsd b m' =
      map_option (\<lambda>(ret, m). (ret, g, m)) (post_loaded vmsd b (copied m1 a b (items_kept (all_items vmsd m1 a)) m')) \<and>
    unread g = [0]"
proof -
  let ?f = "qemu_fopen_ops (host_file (state_bytes vmsd m1 a @ [0]) es) ops"
  have "rd_ok ops ok ?f" "unread ?f = state_bytes vmsd m1 a @ [0]"
    using assms(2) by (simp_all add: rd_ok_def qemu_fopen_ops_def unread_def buffered_def buf_range_def to_come_def host_file_def)
  from load_state_read [OF assms(1) this(1) assms(3) this(2) assms(4-6)] show ?thesis
    unfolding load_device_def by blast
qed

text \<open>
  C6. Saved state loads.  On descriptors whose writes may be short or interrupted and whose reads may
  be interrupted, the state that a description (with nested structures, arrays and subsections) writes
  is read back by the same description in another process: exactly the bytes the description keeps are
  those of the saved device, everything else is left as it was, and the reader stops in front of the
  mark that follows the state.
\<close>

theorem saved_state_loads:
  assumes "table_ok vmsd" and "pre_saved vmsd a m = Some m1" and "list_all (item_ok m1 a) (all_items vmsd m1 a)"
    and "list_all (item_mapped m' b) (all_items vmsd m1 a)" and "all_quiet vmsd m1 a [0]"
    and "list_all (\<lambda>e. case e of Short _ \<Rightarrow> True | Err n \<Rightarrow> n = EINTR) es"
    and "list_all (\<lambda>e. e = Err EAGAIN \<or> e = Err EINTR) es'"
  shows "\<exists>bs g. save_device unix_write_ops es vmsd a m = Some (bs, 0, m1) \<and>
    load_device unix_read_ops es' bs vmsd b m' =
      map_option (\<lambda>(ret, m). (ret, g, m)) (post_loaded vmsd b (copied m1 a b (items_kept (all_items vmsd m1 a)) m')) \<and>
    unread g = [0]"
proof -
  have "short_or_interrupted (host_file [] es)" and rd: "interrupted_reads (host_file bs es')" for bs
    using assms(6,7) by (simp_all add: short_or_interrupted_def interrupted_reads_def host_file_def)
  from save_device_bytes [OF unix_sink.byte_sink_axioms this(1) assms(1-3)]
    load_device_state [OF unix_source.byte_source_axioms rd assms(1,3-5)]
  show ?thesis by blast
qed

text \<open>A device with an inner structure and a subsection.\<close>

definition ex_inner :: VMStateDescription where
  "ex_inner = VMStateDescription ''inner'' 0 1 1 1 None None None None [VMSTATE_UINT16 ''y'' 0] []"

definition ex_ext :: VMStateDescription where
  "ex_ext = VMStateDescription ''dev/ext'' 0 1 1 1 None None None None [VMSTATE_UINT8 ''z'' 7] []"

definition ex_dev :: VMStateDescription where
  "ex_dev = VMStateDescription ''dev'' 0 1 1 1 None None None None
     [VMSTATE_UINT32 ''x'' 0, VMSTATE_STRUCT ''inner'' 4 0 ex_inner 2] [VMStateSubsection ex_ext (\<lambda>_ _. True)]"

definition ex_src :: hmem where
  "ex_src x = (if 0x100 \<le> x \<and> x < 0x108 then Some (ucast x + 1) else None)"

definition ex_dst :: hmem where
  "ex_dst x = (if 0x200 \<le> x \<and> x < 0x208 then Some 0 else None)"

lemmas ex_fields = vmstate_macros vms_flags static_field_def static_elems_def exists_at_def dynamic_flags_def plain_field_def

lemma ex_plain: "plain_vmsd ex_inner" "plain_vmsd ex_ext"
  by (subst plain_vmsd.simps, simp add: ex_inner_def ex_ext_def ex_fields)+

lemma ex_table: "table_ok ex_dev"
  using ex_plain
  by (simp add: table_ok_def ex_dev_def ex_fields sub_ok_def ex_ext_def c_name_def str_bytes_def)

lemma ex_items:
  "field_items ex_dev = [Leaf 0 4 vmstate_info_uint32, Leaf 4 2 vmstate_info_uint16, Check ''inner'']"
  "flat ex_ext = [Leaf 7 1 vmstate_info_uint8, Check ''dev/ext'']"
  "needed_subs ex_dev m a = [VMStateSubsection ex_ext (\<lambda>_ _. True)]"
proof -
  have "flat ex_inner = [Leaf 0 2 vmstate_info_uint16, Check ''inner'']"
    unfolding flat_fields field_items_def by (simp add: ex_inner_def ex_fields elem_items_def)
  then show "field_items ex_dev = [Leaf 0 4 vmstate_info_uint32, Leaf 4 2 vmstate_info_uint16, Check ''inner'']"
    unfolding field_items_def by (simp add: ex_dev_def ex_fields elem_items_def)
  show "flat ex_ext = [Leaf 7 1 vmstate_info_uint8, Check ''dev/ext'']"
    unfolding flat_fields field_items_def by (simp add: ex_ext_def ex_fields elem_items_def)
  show "needed_subs ex_dev m a = [VMStateSubsection ex_ext (\<lambda>_ _. True)]"
    by (simp add: needed_subs_def ex_dev_def)
qed

lemma ex_items_ok:
  "list_all (item_ok ex_src 0x100) (all_items ex_dev ex_src 0x100)"
  "list_all (item_mapped ex_dst 0x200) (all_items ex_dev ex_src 0x100)"
  using std_leaves
  by (simp_all add: all_items_def ex_items sections_items_def good_of_def vmstate_info_uint32_def
      vmstate_info_uint16_def vmstate_info_uint8_def mapped_def upt_rec ex_src_def ex_dst_def)

lemma ex_quiet: "all_quiet ex_dev ex_src 0x100 [0]"
proof -
  have "vm_name ex_ext = ''dev/ext''" "vm_name ex_dev = ''dev''" by (simp_all add: ex_ext_def ex_dev_def)
  then show ?thesis
    by (simp add: all_quiet_def ex_items sections_bytes_def section_bytes_def section_head_def subsection_follows_def
        str_bytes_def cstr_def)
qed

theorem saved_state_loads_witness:
  "\<exists>bs g m2. save_device unix_write_ops [Err EINTR, Short 3] ex_dev 0x100 ex_src = Some (bs, 0, ex_src) \<and>
     load_device unix_read_ops [Err EINTR] bs ex_dev 0x200 ex_dst = Some (0, g, m2) \<and>
     m2 0x205 = Some 6 \<and> m2 0x206 = Some 0 \<and> m2 0x207 = Some 8"
proof -
  have pre: "pre_saved ex_dev 0x100 ex_src = Some ex_src" by (simp add: pre_saved_def ex_dev_def)
  have k: "items_kept (all_items ex_dev ex_src 0x100) = {0..<4} \<union> {4..<6} \<union> {7..<8}"
    by (simp add: all_items_def ex_items sections_items_def items_kept_def keep_of_def vmstate_info_uint32_def
        vmstate_info_uint16_def vmstate_info_uint8_def Un_assoc)
  define m2 where "m2 = copied ex_src 0x100 0x200 ({0..<4} \<union> {4..<6} \<union> {7..<8}) ex_dst"
  have "m2 0x205 = Some 6" "m2 0x207 = Some 8"
    using copied_at [of 5 "{0..<4} \<union> {4..<6} \<union> {7..<8}" ex_src "0x100" "0x200" ex_dst]
      copied_at [of 7 "{0..<4} \<union> {4..<6} \<union> {7..<8}" ex_src "0x100" "0x200" ex_dst]
    by (simp_all add: m2_def ex_src_def)
  moreover have "m2 0x206 = Some 0"
  proof -
    have "{0..<4} \<union> {4..<6} \<union> {7..<8} = {0, 1, 2, 3, 4, 5, 7 :: nat}" by auto
    then show ?thesis by (simp add: m2_def copied_def ex_dst_def)
  qed
  moreover have "post_loaded ex_dev 0x200 m2 = Some (0, m2)" by (simp add: post_loaded_def ex_dev_def)
  ultimately show ?thesis
    using saved_state_loads [OF ex_table pre ex_items_ok ex_quiet, of "[Err EINTR, Short 3]" "[Err EINTR]"]
    unfolding k m2_def [symmetric] by auto
qed

subsection \<open>Sections the reader does not know\<close>

lemma get_subsection_unknown:
  "str_bytes nm \<notin> (\<lambda>(sub, _). str_bytes (vm_name (ss_vmsd sub))) ` set subs \<Longrightarrow>
     vmstate_get_subsection subs (str_bytes nm) = None"
  by (induction subs) auto

text \<open>
  C36. Unknown sections are refused.  When the fields are followed by a subsection of the description
  that the reader's table does not have, loading fails with \<open>-ENOENT\<close>; the fields have been stored by
  then and the function that runs after loading is not called.
\<close>

theorem unknown_subsection_refused:
  assumes "table_ok vmsd" and "list_all (item_ok m a) (field_items vmsd)" and "list_all (item_mapped m' b) (field_items vmsd)"
    and "sub_ok (vm_name vmsd) sub"
    and "vm_name (ss_vmsd sub) \<notin> (\<lambda>sub. vm_name (ss_vmsd sub)) ` set (vm_subsections vmsd)"
    and "bs = enc_items m a (field_items vmsd) @ section_head (ss_vmsd sub) @ rest"
    and "quiet m a (field_items vmsd) (section_head (ss_vmsd sub) @ rest)"
  shows "\<exists>g. load_device stdio_file_read_ops [] bs vmsd b m' =
    Some (- ENOENT, g, copied m a b (items_kept (field_items vmsd)) m')"
proof -
  note t = table_okD [OF assms(1)]
  let ?f = "qemu_fopen_ops (host_file bs []) stdio_file_read_ops"
  let ?ok = "interrupted_reads"
  have f: "rd_ok stdio_file_read_ops ?ok ?f" "unread ?f = enc_items m a (field_items vmsd) @ section_head (ss_vmsd sub) @ rest"
    using assms(6) by (simp_all add: rd_ok_def qemu_fopen_ops_def unread_def buffered_def buf_range_def to_come_def
        host_file_def interrupted_reads_def)
  let ?m2 = "copied m a b (items_kept (field_items vmsd)) m'"
  obtain g where g: "for_ret (field_items vmsd) (load_item b) (?f, m') = Some (0, g, ?m2)"
    "rd_ok stdio_file_read_ops ?ok g" "unread g = section_head (ss_vmsd sub) @ rest"
    using load_items [OF stdio_source.byte_source_axioms f assms(2,3,7)] by blast
  define subs where "subs = map (\<lambda>sub. (sub, \<lambda>v s. vmstate_load_state (ss_vmsd sub) b v s)) (vm_subsections vmsd)"
  have "vmstate_get_subsection subs (str_bytes (vm_name (ss_vmsd sub))) = None"
    using assms(5) by (intro get_subsection_unknown) (auto simp: subs_def)
  then obtain h where h: "vmstate_subsection_load (vm_name vmsd) subs g ?m2 = Some (- ENOENT, h, ?m2)"
    using stdio_source.section_unknown [OF g(2,3) assms(4)] by blast
  have "vmstate_load_state vmsd b (vm_version_id vmsd) (?f, m') = Some (- ENOENT, h, ?m2)"
    by (subst load_state_eq, erule t(1), erule (1) load_flat [OF t(2)], rule t(3), rule t(4))
      (use g(1) h in \<open>simp add: subs_def\<close>)
  then show ?thesis unfolding load_device_def by blast
qed

theorem unknown_subsection_refused_witness:
  "\<exists>vmsd bs g m2. vm_subsections vmsd = [] \<and> load_device stdio_file_read_ops [] bs vmsd 0x200 ex_dst = Some (- ENOENT, g, m2) \<and>
     m2 0x202 = Some 3"
proof -
  define vmsd where "vmsd = VMStateDescription ''dev'' 0 1 1 1 None None None None [VMSTATE_UINT32 ''x'' 0] []"
  define sub where "sub = VMStateSubsection ex_ext (\<lambda>_ _. True)"
  have v: "table_ok vmsd" "field_items vmsd = [Leaf 0 4 vmstate_info_uint32]" "vm_subsections vmsd = []"
    unfolding field_items_def by (simp_all add: table_ok_def vmsd_def ex_fields elem_items_def)
  have s: "sub_ok (vm_name vmsd) sub"
    using ex_plain(2) by (simp add: sub_ok_def sub_def vmsd_def c_name_def str_bytes_def) (simp add: ex_ext_def)
  have i: "list_all (item_ok ex_src 0x100) (field_items vmsd)" "list_all (item_mapped ex_dst 0x200) (field_items vmsd)"
    using ex_items_ok by (simp_all add: v all_items_def ex_items)
  have "copied ex_src 0x100 0x200 (items_kept (field_items vmsd)) ex_dst 0x202 = Some 3"
    using copied_at [of 2 "items_kept (field_items vmsd)" ex_src "0x100" "0x200" ex_dst]
    by (simp add: v items_kept_def keep_of_def vmstate_info_uint32_def ex_src_def)
  then show ?thesis
    using unknown_subsection_refused [OF v(1) i s _ refl, of "[]"] v(2,3) by auto
qed

subsection \<open>A full disk\<close>

text \<open>
  C37. A short write to a standard-input/output file is not noticed.  When the host file takes only
  the first \<open>k\<close> bytes of the buffer, flushing drops the rest of the buffer, and the file shows no error.
\<close>

theorem stdio_short_write_lost:
  assumes "wr_ok stdio_file_write_ops ok f" and "fevents (qf_opaque f) = Short k # es" and "k < buf_index f"
  shows "\<exists>g. qemu_fflush f = Some g \<and> qemu_file_get_error g = 0 \<and> buf_index g = 0 \<and>
    fdata (qf_opaque g) = fdata (qf_opaque f) @ take k (buf_range f 0 (buf_index f)) \<and>
    length (written g) < length (written f)"
  using assms
  by (simp add: qemu_fflush_def wr_ok_def qemu_file_is_writable_def stdio_file_write_ops_def stdio_put_buffer_def
      sys_write_def Let_def qemu_file_get_error_def written_def buf_range_def)

theorem stdio_short_write_lost_witness:
  "\<exists>f g. qemu_put_buffer (qemu_fopen_ops (host_file [] [Short 1]) stdio_file_write_ops) [1, 2, 3] = Some f \<and>
     qemu_fflush f = Some g \<and> qemu_file_get_error g = 0 \<and> fdata (qf_opaque g) = [1]"
proof -
  define f0 where "f0 = qemu_fopen_ops (host_file [] [Short 1]) stdio_file_write_ops"
  obtain f where f: "qemu_put_buffer f0 [1, 2, 3] = Some f" "wr_ok stdio_file_write_ops (\<lambda>_. True) f"
    "fevents (qf_opaque f) = [Short 1]" "fdata (qf_opaque f) = []" "buf_index f = 3" "buf_range f 0 3 = [1, 2, 3]"
    by (simp add: f0_def qemu_fopen_ops_def qemu_put_buffer_def put_loop.simps put_chunk_def buf_store_def Let_def
        stdio_file_write_ops_def qemu_file_get_error_def host_file_def wr_ok_def buf_range_def upt_rec)
  then show ?thesis using stdio_short_write_lost [OF f(2), of 1 "[]"] unfolding f0_def by auto
qed

subsection \<open>A full buffer\<close>

lemma set_error_sticky: "last_error f \<noteq> 0 \<Longrightarrow> qemu_file_set_error f e = f"
  by (simp add: qemu_file_set_error_def)

lemma fill_error_sticky: "qemu_fill_buffer f = Some g \<Longrightarrow> last_error f \<noteq> 0 \<Longrightarrow> last_error g = last_error f"
  by (auto simp: qemu_fill_buffer_def set_error_sticky Let_def split: if_splits option.splits sum.splits prod.splits)

lemma get_error_sticky:
  "qemu_get_buffer f n = Some (bs, g) \<Longrightarrow> last_error f \<noteq> 0 \<Longrightarrow> last_error g = last_error f"
proof (induction f n arbitrary: bs g rule: qemu_get_buffer.induct)
  case (1 f n)
  show ?case
  proof (cases "n = 0")
    case False
    then obtain ds h where h: "qemu_peek_buffer f n 0 = Some (ds, h)"
      using 1(2) by (subst (asm) qemu_get_buffer.simps) (auto split: Option.bind_splits)
    then have e: "last_error h = last_error f"
      using 1(3) fill_error_sticky by (fastforce simp: qemu_peek_buffer_def Let_def split: if_splits Option.bind_splits)
    have e': "last_error (qemu_file_skip h k) = last_error f" for k using e by (simp add: qemu_file_skip_def)
    show ?thesis
    proof (cases "ds = []")
      case True
      then show ?thesis using 1(2) False h e by (subst (asm) qemu_get_buffer.simps) simp
    next
      case ds: False
      then obtain ds' where "qemu_get_buffer (qemu_file_skip h (length ds)) (n - length ds) = Some (ds', g)"
        using 1(2) False h by (subst (asm) qemu_get_buffer.simps) auto
      from 1(1) [OF False h refl ds this] e' 1(3) show ?thesis by simp
    qed
  qed (use 1(2) in \<open>simp add: qemu_get_buffer.simps\<close>)
qed

text \<open>
  A read that finds the buffer full reports an error.  When the buffer holds \<open>IO_BUF_SIZE\<close> bytes
  that nobody has taken yet, as after a peek, a request for more than that asks the back end for 0
  bytes and takes its answer for the end of the stream: the caller gets all its bytes, and the file is
  marked with \<open>-EIO\<close>.
\<close>

theorem full_buffer_read_error:
  assumes "rd_ok stdio_file_read_ops interrupted_reads f" and "buf_index f = 0" and "buf_size f = IO_BUF_SIZE"
    and "last_error f = 0" and "IO_BUF_SIZE < n" and "n \<le> length (unread f)"
  shows "\<exists>g. qemu_get_buffer f n = Some (take n (unread f), g) \<and> qemu_file_get_error g = - EIO"
proof -
  have rd: "\<not> qemu_file_is_writable f" "get_buffer (qf_ops f) = Some stdio_get_buffer"
    using stdio_source.source_readable [OF assms(1)] by simp_all
  obtain s' where s': "stdio_get_buffer (qf_opaque f) (qf_pos f) 0 = (Inr [], s')"
    using stdio_get_ok [of "qf_opaque f" "qf_pos f" 0] assms(1) by (auto simp: rd_ok_def)
  obtain h where h: "qemu_fill_buffer f = Some h" "last_error h = - EIO" "buf_index h = 0" "buf_size h = IO_BUF_SIZE"
    using rd s' assms(2-4) by (simp add: qemu_fill_buffer_def Let_def qemu_file_set_error_def)
  have pk: "qemu_peek_buffer f n 0 = Some (buf_range h 0 IO_BUF_SIZE, h)"
    using rd h assms(2,3,5) by (simp add: qemu_peek_buffer_def Let_def min_def)
  obtain g where g: "qemu_get_buffer f n = Some (take n (unread f), g)"
    using takesE [OF stdio_source.get_buffer_takes [OF assms(1), of "take n (unread f)" "drop n (unread f)"]] assms(6)
    by (metis append_take_drop_id length_take min.absorb2)
  have ne: "buf_range h 0 IO_BUF_SIZE \<noteq> []" by (metis length_buf_range list.size(3) zero_neq_numeral)
  have "\<exists>ds. qemu_get_buffer (qemu_file_skip h IO_BUF_SIZE) (n - IO_BUF_SIZE) = Some (ds, g)"
    using g pk ne assms(5) by (subst (asm) qemu_get_buffer.simps) auto
  then have "last_error g = - EIO"
    using get_error_sticky h(2) by (fastforce simp: qemu_file_skip_def)
  then show ?thesis using g by (simp add: qemu_file_get_error_def)
qed

theorem full_buffer_read_error_witness:
  "\<exists>f g bs. qemu_peek_byte (qemu_fopen_ops (host_file (replicate 40000 1) []) stdio_file_read_ops) 0 = Some (1, f) \<and>
     qemu_file_get_error f = 0 \<and> qemu_get_buffer f 40000 = Some (bs, g) \<and> qemu_file_get_error g = - EIO"
proof -
  define f0 where "f0 = qemu_fopen_ops (host_file (replicate 40000 1) []) stdio_file_read_ops"
  obtain f where f: "qemu_peek_byte f0 0 = Some (1, f)" "buf_index f = 0" "buf_size f = IO_BUF_SIZE" "last_error f = 0"
    by (simp add: f0_def qemu_fopen_ops_def host_file_def qemu_peek_byte_def qemu_fill_buffer_def
        qemu_file_is_writable_def stdio_file_read_ops_def stdio_get_buffer.simps sys_read_def Let_def)
  have f0: "rd_ok stdio_file_read_ops interrupted_reads f0" "unread f0 = replicate 40000 1"
    by (simp_all add: f0_def rd_ok_def qemu_fopen_ops_def unread_def buffered_def buf_range_def to_come_def host_file_def
        interrupted_reads_def)
  have "rd_ok stdio_file_read_ops interrupted_reads f" "length (unread f) = 40000"
    using stdio_source.peek_byte_ok [OF f0(1), of 0] f0(2) f(1) by auto
  from full_buffer_read_error [OF this(1) f(2-4), of 40000] this(2) f(1,4) show ?thesis
    unfolding f0_def by (auto simp: qemu_file_get_error_def)
qed

end
