(* ===== verification/E1000_Stream.thy ===== *)
theory E1000_Stream
  imports E1000_Table Savevm_Props
begin

text \<open>
  The e1000 device on the stream: its table is one the loader can read back, with and without the
  subsection of the interrupt mitigation, and what is read back are the registers and members the
  table lists.
\<close>

subsection \<open>Fields that are plain values\<close>

text \<open>Values of a standard kind other than truth values, inside the first \<open>n\<close> bytes.\<close>

definition value_field :: "nat \<Rightarrow> VMStateField \<Rightarrow> bool" where
  "value_field n f \<longleftrightarrow>
     \<not> tst (f_flags f) VMS_STRUCT \<and> f_offset f + f_size f * static_elems f \<le> n \<and>
     (case f_info f of None \<Rightarrow> False | Some info \<Rightarrow> std_leaf (f_size f) info \<and> info_name info \<noteq> ''bool'')"







text \<open>The macros.\<close>

lemma value_single [simp]:
  "value_field n (VMSTATE_UINT32 nm off) \<longleftrightarrow> off + 4 \<le> n"
  "value_field n (VMSTATE_UINT16 nm off) \<longleftrightarrow> off + 2 \<le> n"
  "value_field n (VMSTATE_UINT8 nm off) \<longleftrightarrow> off + 1 \<le> n"
  "value_field n (VMSTATE_INT8 nm off) \<longleftrightarrow> off + 1 \<le> n"
  "sz < 2 ^ 31 \<Longrightarrow> value_field n (VMSTATE_BUFFER nm off sz) \<longleftrightarrow> off + sz \<le> n"
  "value_field n (VMSTATE_UINT16_ARRAY nm off num) \<longleftrightarrow> off + 2 * nat num \<le> n"
  "value_field n (VMSTATE_UINT32_SUB_ARRAY nm off start num) \<longleftrightarrow> off + 4 * start + 4 * nat num \<le> n"
  "sz < 2 ^ 31 \<Longrightarrow> value_field n (VMSTATE_UNUSED sz) \<longleftrightarrow> sz \<le> n"
  using std_leaves std_buffers
  by (simp_all add: value_field_def field_facts mult.commute vmstate_info_uint32_def vmstate_info_uint16_def
      vmstate_info_uint8_def vmstate_info_int8_def vmstate_info_buffer_def vmstate_info_unused_buffer_def)

lemma plain_single [simp]:
  "plain_field v (VMSTATE_UINT32 nm off) \<longleftrightarrow> 0 \<le> v" "plain_field v (VMSTATE_UINT16 nm off) \<longleftrightarrow> 0 \<le> v"
  "plain_field v (VMSTATE_UINT8 nm off) \<longleftrightarrow> 0 \<le> v" "plain_field v (VMSTATE_INT8 nm off) \<longleftrightarrow> 0 \<le> v"
  "sz < 2 ^ 31 \<Longrightarrow> plain_field v (VMSTATE_BUFFER nm off sz) \<longleftrightarrow> 0 \<le> v"
  "plain_field v (VMSTATE_UINT16_ARRAY nm off num) \<longleftrightarrow> 0 \<le> v"
  "plain_field v (VMSTATE_UINT32_SUB_ARRAY nm off start num) \<longleftrightarrow> 0 \<le> v"
  "sz < 2 ^ 31 \<Longrightarrow> plain_field v (VMSTATE_UNUSED sz) \<longleftrightarrow> 0 \<le> v"
  "sz < 2 ^ 31 \<Longrightarrow> plain_field v (VMSTATE_PCI_DEVICE pci sz nm off) \<longleftrightarrow> 0 \<le> v"
  "sz < 2 ^ 31 \<Longrightarrow> plain_field v (VMSTATE_UNUSED_TEST (Some (\<lambda>m. is_version_1)) sz)"
  "plain_field v (VMSTATE_BOOL nm off) \<longleftrightarrow> 0 \<le> v"
  by (simp_all add: plain_field_def field_facts is_version_1_def)

lemma keep_single [simp]:
  "keep_of vmstate_info_uint32" "keep_of vmstate_info_uint16" "keep_of vmstate_info_uint8" "keep_of vmstate_info_int8"
  "keep_of vmstate_info_bool" "keep_of vmstate_info_buffer" "\<not> keep_of vmstate_info_unused_buffer"
  by (simp_all add: keep_of_def vmstate_info_uint32_def vmstate_info_uint16_def vmstate_info_uint8_def
      vmstate_info_int8_def vmstate_info_bool_def vmstate_info_buffer_def vmstate_info_unused_buffer_def)

lemma info_single [simp]:
  "f_info (VMSTATE_UINT32 nm off) = Some vmstate_info_uint32" "f_info (VMSTATE_UINT16 nm off) = Some vmstate_info_uint16"
  "f_info (VMSTATE_UINT8 nm off) = Some vmstate_info_uint8" "f_info (VMSTATE_INT8 nm off) = Some vmstate_info_int8"
  "f_info (VMSTATE_BUFFER nm off sz) = Some vmstate_info_buffer"
  "f_info (VMSTATE_UINT16_ARRAY nm off num) = Some vmstate_info_uint16"
  "f_info (VMSTATE_UINT32_SUB_ARRAY nm off start num) = Some vmstate_info_uint32"
  "f_info (VMSTATE_UNUSED sz) = Some vmstate_info_unused_buffer"
  by (simp_all add: vmstate_macros)

lemma bool_single [simp]:
  "f_vmsd (VMSTATE_BOOL nm off) = None" "exists_at v (VMSTATE_BOOL nm off)"
  "concat (map (elem_items (VMSTATE_BOOL nm off)) [0..<static_elems (VMSTATE_BOOL nm off)]) = [Leaf off 1 vmstate_info_bool]"
  by (simp_all add: elem_items_def field_facts)

lemma uint32_items [simp]:
  "concat (map (elem_items (VMSTATE_UINT32 nm off)) [0..<static_elems (VMSTATE_UINT32 nm off)]) = [Leaf off 4 vmstate_info_uint32]"
  by (simp add: elem_items_def field_facts)

subsection \<open>The table of the device\<close>





lemma shift_0 [simp]: "map (shift_item 0) items = items"
proof -
  have "shift_item 0 it = it" for it by (cases it) simp_all
  then show ?thesis by (simp add: map_idI)
qed









subsection \<open>What is read back\<close>



















end
