(* ===== verification/Savevm_Registry.thy ===== *)
theory Savevm_Registry
  imports Savevm "HOL-Library.Sublist"
begin

text \<open>
  The table of everything that has state to save (\<^verbatim>\<open>savevm_handlers\<close> of \<^verbatim>\<open>savevm.c\<close>): registering,
  unregistering and finding entries.  A failed assertion is \<open>None\<close>.
\<close>

subsection \<open>Entries\<close>

record MigrationParams =
  mp_blk :: bool
  mp_shared :: bool

record SaveVMHandlers =
  set_params :: "(MigrationParams \<Rightarrow> u64 \<Rightarrow> hmem \<Rightarrow> hmem option) option"
  save_state :: "(u64 \<Rightarrow> fm \<Rightarrow> fm option) option"
  cancel :: "(u64 \<Rightarrow> hmem \<Rightarrow> hmem option) option"
  save_live_complete :: "(u64 \<Rightarrow> fm \<Rightarrow> (int \<times> fm) option) option"
  is_active :: "(u64 \<Rightarrow> hmem \<Rightarrow> bool) option"
  save_live_iterate :: "(u64 \<Rightarrow> fm \<Rightarrow> (int \<times> fm) option) option"
  save_live_setup :: "(u64 \<Rightarrow> fm \<Rightarrow> (int \<times> fm) option) option"
  save_live_pending :: "(u64 \<Rightarrow> u64 \<Rightarrow> fm \<Rightarrow> (u64 \<times> fm) option) option"
  load_state :: "(u64 \<Rightarrow> int \<Rightarrow> fm \<Rightarrow> (int \<times> fm) option) option"

record CompatEntry =
  ce_idstr :: string
  ce_instance_id :: int

record SaveStateEntry =
  se_idstr :: string
  se_instance_id :: int
  se_alias_id :: int
  se_version_id :: int
  se_section_id :: int
  se_ops :: "SaveVMHandlers option"
  se_vmsd :: "VMStateDescription option"
  se_opaque :: u64
  se_compat :: "CompatEntry option"
  se_no_migrate :: bool
  se_is_ram :: bool

record savevm_state =
  savevm_handlers :: "SaveStateEntry list"
  global_section_id :: int

text \<open>Strings in buffers of a fixed size (\<^verbatim>\<open>util/cutils.c\<close>).\<close>

definition pstrcpy :: "nat \<Rightarrow> string \<Rightarrow> string" where
  "pstrcpy bsz str = take (bsz - 1) str"

definition pstrcat :: "string \<Rightarrow> nat \<Rightarrow> string \<Rightarrow> string" where
  "pstrcat buf bsz s = (if length buf < bsz then buf @ pstrcpy (bsz - length buf) s else buf)"

subsection \<open>Instance numbers\<close>

primrec new_instance_loop :: "SaveStateEntry list \<Rightarrow> string \<Rightarrow> int \<Rightarrow> int" where
  "new_instance_loop [] idstr instance_id = instance_id"
| "new_instance_loop (se # ses) idstr instance_id =
     new_instance_loop ses idstr
       (if idstr = se_idstr se \<and> instance_id \<le> se_instance_id se then se_instance_id se + 1 else instance_id)"

definition calculate_new_instance_id :: "SaveStateEntry list \<Rightarrow> string \<Rightarrow> int" where
  "calculate_new_instance_id handlers idstr = new_instance_loop handlers idstr 0"

primrec compat_instance_loop :: "SaveStateEntry list \<Rightarrow> string \<Rightarrow> int \<Rightarrow> int" where
  "compat_instance_loop [] idstr instance_id = instance_id"
| "compat_instance_loop (se # ses) idstr instance_id =
     compat_instance_loop ses idstr
       (case se_compat se of
          None \<Rightarrow> instance_id
        | Some ce \<Rightarrow>
            if idstr = ce_idstr ce \<and> instance_id \<le> ce_instance_id ce then ce_instance_id ce + 1
            else instance_id)"

definition calculate_compat_instance_id :: "SaveStateEntry list \<Rightarrow> string \<Rightarrow> int" where
  "calculate_compat_instance_id handlers idstr = compat_instance_loop handlers idstr 0"

subsection \<open>Registering\<close>

text \<open>
  The part the two registration functions have in common: the name, built from the path of the device
  (if there is a device with a path), the compatibility entry and the instance number.  The path is
  what \<^verbatim>\<open>qdev_get_dev_path\<close> returns.
\<close>

definition name_entry :: "SaveStateEntry list \<Rightarrow> string option \<Rightarrow> string \<Rightarrow> int \<Rightarrow> SaveStateEntry \<Rightarrow> SaveStateEntry" where
  "name_entry handlers path idstr instance_id se =
     (let se = (case path of
                  None \<Rightarrow> se
                | Some p \<Rightarrow>
                    se\<lparr>se_idstr := pstrcat (pstrcpy 256 p) 256 ''/'',
                       se_compat := Some \<lparr>ce_idstr = pstrcpy 256 idstr,
                         ce_instance_id = (if instance_id = - 1 then calculate_compat_instance_id handlers idstr
                                           else instance_id)\<rparr>\<rparr>);
          instance_id = (if path = None then instance_id else - 1);
          se = se\<lparr>se_idstr := pstrcat (se_idstr se) 256 idstr\<rparr>
      in se\<lparr>se_instance_id := (if instance_id = - 1 then calculate_new_instance_id handlers (se_idstr se)
                               else instance_id)\<rparr>)"

definition insert_entry :: "SaveStateEntry \<Rightarrow> savevm_state \<Rightarrow> savevm_state option" where
  "insert_entry se st =
     (if se_compat se \<noteq> None \<and> se_instance_id se \<noteq> 0 then None
      else Some (st\<lparr>savevm_handlers := savevm_handlers st @ [se], global_section_id := global_section_id st + 1\<rparr>))"

definition register_savevm_live ::
  "string option \<Rightarrow> string \<Rightarrow> int \<Rightarrow> int \<Rightarrow> SaveVMHandlers \<Rightarrow> u64 \<Rightarrow> savevm_state \<Rightarrow> savevm_state option" where
  "register_savevm_live path idstr instance_id version_id ops opaque st =
     (let se = \<lparr>se_idstr = '''', se_instance_id = 0, se_alias_id = 0, se_version_id = version_id,
                se_section_id = global_section_id st, se_ops = Some ops, se_vmsd = None, se_opaque = opaque,
                se_compat = None, se_no_migrate = False, se_is_ram = (save_live_setup ops \<noteq> None)\<rparr>
      in insert_entry (name_entry (savevm_handlers st) path idstr instance_id se) st)"

definition no_handlers :: SaveVMHandlers where
  "no_handlers = \<lparr>set_params = None, save_state = None, cancel = None, save_live_complete = None, is_active = None,
     save_live_iterate = None, save_live_setup = None, save_live_pending = None, load_state = None\<rparr>"

definition register_savevm ::
  "string option \<Rightarrow> string \<Rightarrow> int \<Rightarrow> int \<Rightarrow> (u64 \<Rightarrow> fm \<Rightarrow> fm option) option \<Rightarrow>
   (u64 \<Rightarrow> int \<Rightarrow> fm \<Rightarrow> (int \<times> fm) option) option \<Rightarrow> u64 \<Rightarrow> savevm_state \<Rightarrow> savevm_state option" where
  "register_savevm path idstr instance_id version_id save load opaque st =
     register_savevm_live path idstr instance_id version_id
       (no_handlers\<lparr>save_state := save, load_state := load\<rparr>) opaque st"

definition unregister_savevm :: "string option \<Rightarrow> string \<Rightarrow> u64 \<Rightarrow> savevm_state \<Rightarrow> savevm_state" where
  "unregister_savevm path idstr opaque st =
     (let nm = (case path of None \<Rightarrow> '''' | Some p \<Rightarrow> pstrcat (pstrcpy 256 p) 256 ''/'');
          nm = pstrcat nm 256 idstr
      in st\<lparr>savevm_handlers := filter (\<lambda>se. \<not> (se_idstr se = nm \<and> se_opaque se = opaque)) (savevm_handlers st)\<rparr>)"

definition vmstate_register_with_alias_id ::
  "string option \<Rightarrow> int \<Rightarrow> VMStateDescription \<Rightarrow> u64 \<Rightarrow> int \<Rightarrow> int \<Rightarrow> savevm_state \<Rightarrow> savevm_state option" where
  "vmstate_register_with_alias_id path instance_id vmsd opaque alias_id required_for_version st =
     (if \<not> (alias_id = - 1 \<or> required_for_version \<ge> vm_minimum_version_id vmsd) then None
      else
        let se = \<lparr>se_idstr = '''', se_instance_id = 0, se_alias_id = alias_id, se_version_id = vm_version_id vmsd,
                  se_section_id = global_section_id st, se_ops = None, se_vmsd = Some vmsd, se_opaque = opaque,
                  se_compat = None, se_no_migrate = (vm_unmigratable vmsd \<noteq> 0), se_is_ram = False\<rparr>
        in insert_entry (name_entry (savevm_handlers st) path (vm_name vmsd) instance_id se) st)"

text \<open>
  \<^verbatim>\<open>vmstate_unregister\<close> compares the addresses of descriptions; the caller tells which entries have the
  description.
\<close>

definition vmstate_unregister :: "(SaveStateEntry \<Rightarrow> bool) \<Rightarrow> u64 \<Rightarrow> savevm_state \<Rightarrow> savevm_state" where
  "vmstate_unregister same_vmsd opaque st =
     st\<lparr>savevm_handlers := filter (\<lambda>se. \<not> (same_vmsd se \<and> se_opaque se = opaque)) (savevm_handlers st)\<rparr>"

subsection \<open>Finding\<close>

definition se_matches :: "SaveStateEntry \<Rightarrow> string \<Rightarrow> int \<Rightarrow> bool" where
  "se_matches se idstr instance_id \<longleftrightarrow>
     se_idstr se = idstr \<and> (instance_id = se_instance_id se \<or> instance_id = se_alias_id se) \<or>
     sublist idstr (se_idstr se) \<and>
     (case se_compat se of
        None \<Rightarrow> False
      | Some ce \<Rightarrow>
          ce_idstr ce = idstr \<and> (instance_id = ce_instance_id ce \<or> instance_id = se_alias_id se))"

definition find_se :: "SaveStateEntry list \<Rightarrow> string \<Rightarrow> int \<Rightarrow> SaveStateEntry option" where
  "find_se handlers idstr instance_id = find (\<lambda>se. se_matches se idstr instance_id) handlers"

definition qemu_savevm_state_blocked :: "SaveStateEntry list \<Rightarrow> bool" where
  "qemu_savevm_state_blocked handlers = list_ex se_no_migrate handlers"

definition vmstate_load :: "SaveStateEntry \<Rightarrow> int \<Rightarrow> fm \<Rightarrow> (int \<times> fm) option" where
  "vmstate_load se version_id s =
     (case se_vmsd se of
        None \<Rightarrow> (case Option.bind (se_ops se) load_state of None \<Rightarrow> None | Some load \<Rightarrow> load (se_opaque se) version_id s)
      | Some vmsd \<Rightarrow> vmstate_load_state vmsd (se_opaque se) version_id s)"

definition vmstate_save :: "SaveStateEntry \<Rightarrow> fm \<Rightarrow> fm option" where
  "vmstate_save se s =
     (case se_vmsd se of
        None \<Rightarrow> (case Option.bind (se_ops se) save_state of None \<Rightarrow> None | Some save \<Rightarrow> save (se_opaque se) s)
      | Some vmsd \<Rightarrow> vmstate_save_state vmsd (se_opaque se) s)"

subsection \<open>Entries are told apart\<close>

text \<open>No two entries have the same name and instance number.\<close>

definition keys_distinct :: "SaveStateEntry list \<Rightarrow> bool" where
  "keys_distinct handlers = distinct (map (\<lambda>se. (se_idstr se, se_instance_id se)) handlers)"

lemma new_instance_ge: "k \<le> new_instance_loop ses idstr k"
proof (induction ses arbitrary: k)
  case (Cons se ses)
  let ?k = "if idstr = se_idstr se \<and> k \<le> se_instance_id se then se_instance_id se + 1 else k"
  have "k \<le> ?k" by auto
  then show ?case using Cons.IH [of ?k] by simp
qed simp

lemma new_instance_above:
  "se \<in> set ses \<Longrightarrow> se_idstr se = idstr \<Longrightarrow> se_instance_id se < new_instance_loop ses idstr k"
proof (induction ses arbitrary: k)
  case (Cons x ses)
  show ?case
  proof (cases "se = x")
    case True
    let ?k = "if idstr = se_idstr x \<and> k \<le> se_instance_id x then se_instance_id x + 1 else k"
    have "se_instance_id x < ?k" using True Cons.prems(2) by auto
    then show ?thesis using new_instance_ge [of ?k ses idstr] True by simp
  next
    case False
    then show ?thesis using Cons by simp
  qed
qed simp

lemma new_instance_fresh:
  "(idstr, calculate_new_instance_id handlers idstr) \<notin> (\<lambda>se. (se_idstr se, se_instance_id se)) ` set handlers"
  using new_instance_above [of _ handlers idstr 0] by (fastforce simp: calculate_new_instance_id_def)

lemma name_entry_key:
  "instance_id = - 1 \<or> path \<noteq> None \<Longrightarrow>
     se_instance_id (name_entry handlers path idstr instance_id se) =
       calculate_new_instance_id handlers (se_idstr (name_entry handlers path idstr instance_id se))"
  by (auto simp: name_entry_def Let_def)

lemma insert_fresh:
  assumes "insert_entry (name_entry (savevm_handlers st) path idstr instance_id se) st = Some st'"
    and "keys_distinct (savevm_handlers st)" and "instance_id = - 1 \<or> path \<noteq> None"
  shows "keys_distinct (savevm_handlers st')"
  using assms name_entry_key [OF assms(3), of "savevm_handlers st" idstr se]
    new_instance_fresh [of "se_idstr (name_entry (savevm_handlers st) path idstr instance_id se)" "savevm_handlers st"]
  by (auto simp: insert_entry_def keys_distinct_def split: if_splits)

text \<open>An entry is found under its name and number when nothing in front of it matches.\<close>

lemma find_se_self: "se_matches se (se_idstr se) (se_instance_id se)"
  by (simp add: se_matches_def)

lemma find_se_found:
  assumes "handlers = xs @ se # ys" and "list_all (\<lambda>x. \<not> se_matches x (se_idstr se) (se_instance_id se)) xs"
  shows "find_se handlers (se_idstr se) (se_instance_id se) = Some se"
  using assms(2) unfolding find_se_def assms(1) by (induction xs) (auto simp: find_se_self)

end
