(* ===== verification/Savevm_File.thy ===== *)
theory Savevm_File
  imports Savevm_Registry
begin

text \<open>
  Writing all registered state to a stream and reading it back (\<^verbatim>\<open>qemu_savevm_state\<close>,
  \<^verbatim>\<open>qemu_save_device_state\<close> and \<^verbatim>\<open>qemu_loadvm_state\<close> of \<^verbatim>\<open>savevm.c\<close>).  Bringing the state of the
  processors up to date is not part of this code; its effect on the memory is an argument.  Locks and
  trace points are left out.
\<close>

abbreviation (input) QEMU_VM_FILE_MAGIC :: u32 where "QEMU_VM_FILE_MAGIC \<equiv> 0x5145564d"
abbreviation (input) QEMU_VM_FILE_VERSION_COMPAT :: u32 where "QEMU_VM_FILE_VERSION_COMPAT \<equiv> 2"
abbreviation (input) QEMU_VM_FILE_VERSION :: u32 where "QEMU_VM_FILE_VERSION \<equiv> 3"
abbreviation (input) ENOTSUP :: int where "ENOTSUP \<equiv> 95"

text \<open>Actions on the file alone, and on the memory alone.\<close>

definition on_file :: "(QEMUFile \<Rightarrow> QEMUFile option) \<Rightarrow> fm \<Rightarrow> fm option" where
  "on_file act s = map_option (\<lambda>f. (f, snd s)) (act (fst s))"

definition on_mem :: "(hmem \<Rightarrow> hmem option) \<Rightarrow> fm \<Rightarrow> fm option" where
  "on_mem act s = map_option (Pair (fst s)) (act (snd s))"

definition set_error :: "int \<Rightarrow> fm \<Rightarrow> fm" where
  "set_error ret s = (qemu_file_set_error (fst s) ret, snd s)"

subsection \<open>Sections\<close>

text \<open>The kind of a section and its number; then the name, instance and version for a new section.\<close>

definition put_section :: "u8 \<Rightarrow> SaveStateEntry \<Rightarrow> fm \<Rightarrow> fm option" where
  "put_section ty se s = do {
     s \<leftarrow> on_file (\<lambda>f. qemu_put_byte f ty) s;
     on_file (\<lambda>f. qemu_put_be32 f (word_of_int (se_section_id se))) s
   }"

definition put_section_name :: "SaveStateEntry \<Rightarrow> fm \<Rightarrow> fm option" where
  "put_section_name se s = do {
     s \<leftarrow> on_file (\<lambda>f. qemu_put_byte f (of_nat (length (se_idstr se)))) s;
     s \<leftarrow> on_file (\<lambda>f. qemu_put_buffer f (str_bytes (se_idstr se))) s;
     s \<leftarrow> on_file (\<lambda>f. qemu_put_be32 f (word_of_int (se_instance_id se))) s;
     on_file (\<lambda>f. qemu_put_be32 f (word_of_int (se_version_id se))) s
   }"

definition put_file_header :: "fm \<Rightarrow> fm option" where
  "put_file_header s = do {
     s \<leftarrow> on_file (\<lambda>f. qemu_put_be32 f QEMU_VM_FILE_MAGIC) s;
     on_file (\<lambda>f. qemu_put_be32 f QEMU_VM_FILE_VERSION) s
   }"

text \<open>A live handler that is there and not inactive.\<close>

definition live_handler :: "(SaveVMHandlers \<Rightarrow> 'h option) \<Rightarrow> SaveStateEntry \<Rightarrow> hmem \<Rightarrow> 'h option" where
  "live_handler sel se m =
     (case se_ops se of
        None \<Rightarrow> None
      | Some ops \<Rightarrow>
          (case sel ops of
             None \<Rightarrow> None
           | Some h \<Rightarrow>
               (case is_active ops of
                  None \<Rightarrow> Some h
                | Some active \<Rightarrow> if active (se_opaque se) m then Some h else None)))"

definition has_state :: "SaveStateEntry \<Rightarrow> bool" where
  "has_state se \<longleftrightarrow> \<not> (Option.bind (se_ops se) save_state = None \<and> se_vmsd se = None)"

definition save_full_section :: "SaveStateEntry \<Rightarrow> fm \<Rightarrow> fm option" where
  "save_full_section se s = do {
     s \<leftarrow> put_section QEMU_VM_SECTION_FULL se s;
     s \<leftarrow> put_section_name se s;
     vmstate_save se s
   }"

subsection \<open>Saving with live handlers\<close>

primrec setup_loop :: "SaveStateEntry list \<Rightarrow> fm \<Rightarrow> fm option" where
  "setup_loop [] s = Some s"
| "setup_loop (se # ses) s =
     (case live_handler save_live_setup se (snd s) of
        None \<Rightarrow> setup_loop ses s
      | Some setup \<Rightarrow> do {
          s \<leftarrow> put_section QEMU_VM_SECTION_START se s;
          s \<leftarrow> put_section_name se s;
          (ret, s) \<leftarrow> setup (se_opaque se) s;
          if ret < 0 then Some (set_error ret s) else setup_loop ses s
        })"

definition qemu_savevm_state_begin :: "SaveStateEntry list \<Rightarrow> MigrationParams \<Rightarrow> fm \<Rightarrow> fm option" where
  "qemu_savevm_state_begin handlers params s = do {
     s \<leftarrow> for_list handlers
            (\<lambda>se s. case Option.bind (se_ops se) set_params of
               None \<Rightarrow> Some s
             | Some set_p \<Rightarrow> on_mem (set_p params (se_opaque se)) s) s;
     s \<leftarrow> put_file_header s;
     setup_loop handlers s
   }"

primrec iterate_loop :: "SaveStateEntry list \<Rightarrow> int \<Rightarrow> fm \<Rightarrow> (int \<times> fm) option" where
  "iterate_loop [] ret s = Some (ret, s)"
| "iterate_loop (se # ses) ret s =
     (case live_handler save_live_iterate se (snd s) of
        None \<Rightarrow> iterate_loop ses ret s
      | Some iterate \<Rightarrow>
          if qemu_file_rate_limit (fst s) \<noteq> 0 then Some (0, s)
          else do {
            s \<leftarrow> put_section QEMU_VM_SECTION_PART se s;
            (ret, s) \<leftarrow> iterate (se_opaque se) s;
            let s = (if ret < 0 then set_error ret s else s);
            if ret \<le> 0 then Some (ret, s) else iterate_loop ses ret s
          })"

definition qemu_savevm_state_iterate :: "SaveStateEntry list \<Rightarrow> fm \<Rightarrow> (int \<times> fm) option" where
  "qemu_savevm_state_iterate handlers s = iterate_loop handlers 1 s"

text \<open>The loop over the live handlers tells whether one of them failed.\<close>

primrec complete_loop :: "SaveStateEntry list \<Rightarrow> fm \<Rightarrow> (bool \<times> fm) option" where
  "complete_loop [] s = Some (True, s)"
| "complete_loop (se # ses) s =
     (case live_handler save_live_complete se (snd s) of
        None \<Rightarrow> complete_loop ses s
      | Some complete \<Rightarrow> do {
          s \<leftarrow> put_section QEMU_VM_SECTION_END se s;
          (ret, s) \<leftarrow> complete (se_opaque se) s;
          if ret < 0 then Some (False, set_error ret s) else complete_loop ses s
        })"

definition qemu_savevm_state_complete :: "(hmem \<Rightarrow> hmem option) \<Rightarrow> SaveStateEntry list \<Rightarrow> fm \<Rightarrow> fm option" where
  "qemu_savevm_state_complete cpu_synchronize_all_states handlers s = do {
     s \<leftarrow> on_mem cpu_synchronize_all_states s;
     (ok, s) \<leftarrow> complete_loop handlers s;
     if \<not> ok then Some s
     else do {
       s \<leftarrow> for_list (filter has_state handlers) save_full_section s;
       s \<leftarrow> on_file (\<lambda>f. qemu_put_byte f QEMU_VM_EOF) s;
       on_file qemu_fflush s
     }
   }"

definition qemu_savevm_state_pending :: "SaveStateEntry list \<Rightarrow> u64 \<Rightarrow> fm \<Rightarrow> (u64 \<times> fm) option" where
  "qemu_savevm_state_pending handlers max_size s =
     for_list handlers
       (\<lambda>se (ret, s).
          case live_handler save_live_pending se (snd s) of
            None \<Rightarrow> Some (ret, s)
          | Some pending \<Rightarrow> map_option (\<lambda>(n, s). (ret + n, s)) (pending (se_opaque se) max_size s)) (0, s)"

definition qemu_savevm_state_cancel :: "SaveStateEntry list \<Rightarrow> fm \<Rightarrow> fm option" where
  "qemu_savevm_state_cancel handlers s =
     for_list handlers
       (\<lambda>se s. case Option.bind (se_ops se) cancel of
          None \<Rightarrow> Some s
        | Some cancel_f \<Rightarrow> on_mem (cancel_f (se_opaque se)) s) s"

text \<open>The rounds of \<^verbatim>\<open>qemu_savevm_state\<close>, which need not end.\<close>

partial_function (option) iterate_rounds :: "SaveStateEntry list \<Rightarrow> fm \<Rightarrow> fm option" where
  "iterate_rounds handlers s =
     (if qemu_file_get_error (fst s) \<noteq> 0 then Some s
      else do {
        (ret, s) \<leftarrow> qemu_savevm_state_iterate handlers s;
        if ret > 0 then Some s else iterate_rounds handlers s
      })"

definition qemu_savevm_state :: "(hmem \<Rightarrow> hmem option) \<Rightarrow> SaveStateEntry list \<Rightarrow> fm \<Rightarrow> (int \<times> fm) option" where
  "qemu_savevm_state cpu_synchronize_all_states handlers s =
     (if qemu_savevm_state_blocked handlers then Some (- EINVAL, s)
      else do {
        s \<leftarrow> qemu_savevm_state_begin handlers \<lparr>mp_blk = False, mp_shared = False\<rparr> s;
        s \<leftarrow> iterate_rounds handlers s;
        s \<leftarrow> (if qemu_file_get_error (fst s) = 0
               then qemu_savevm_state_complete cpu_synchronize_all_states handlers s else Some s);
        let ret = qemu_file_get_error (fst s);
        s \<leftarrow> (if ret \<noteq> 0 then qemu_savevm_state_cancel handlers s else Some s);
        Some (ret, s)
      })"

definition qemu_save_device_state :: "(hmem \<Rightarrow> hmem option) \<Rightarrow> SaveStateEntry list \<Rightarrow> fm \<Rightarrow> (int \<times> fm) option" where
  "qemu_save_device_state cpu_synchronize_all_states handlers s = do {
     s \<leftarrow> put_file_header s;
     s \<leftarrow> on_mem cpu_synchronize_all_states s;
     s \<leftarrow> for_list (filter (\<lambda>se. \<not> se_is_ram se \<and> has_state se) handlers) save_full_section s;
     s \<leftarrow> on_file (\<lambda>f. qemu_put_byte f QEMU_VM_EOF) s;
     Some (qemu_file_get_error (fst s), s)
   }"

subsection \<open>Loading\<close>

record LoadStateEntry =
  le_se :: SaveStateEntry
  le_section_id :: u32
  le_version_id :: int

definition get_u32 :: "fm \<Rightarrow> (u32 \<times> fm) option" where
  "get_u32 s = map_option (\<lambda>(v, f). (v, f, snd s)) (qemu_get_be32 (fst s))"

text \<open>
  The head of a new section: number, name, instance and version.  A name that the end of the stream
  cuts off is what was read of it.
\<close>

definition get_section_head :: "fm \<Rightarrow> (u32 \<times> u8 list \<times> u32 \<times> u32 \<times> fm) option" where
  "get_section_head s = do {
     (section_id, s) \<leftarrow> get_u32 s;
     (len, f) \<leftarrow> qemu_get_byte (fst s);
     (bs, f) \<leftarrow> qemu_get_buffer f (unat len);
     (instance_id, s) \<leftarrow> get_u32 (f, snd s);
     (version_id, s) \<leftarrow> get_u32 s;
     Some (section_id, cstr bs, instance_id, version_id, s)
   }"

definition bytes_str :: "u8 list \<Rightarrow> string" where
  "bytes_str bs = map (\<lambda>b. char_of (unat b)) bs"

text \<open>
  The loop over the sections: the result and, for the result 0, that the end was reached.  The
  version is an unsigned number on the stream and is compared as such; an instance number becomes a
  signed one.
\<close>

partial_function (option) loadvm_loop ::
  "SaveStateEntry list \<Rightarrow> LoadStateEntry list \<Rightarrow> fm \<Rightarrow> (int \<times> fm) option" where
  "loadvm_loop handlers les s = do {
     (section_type, f) \<leftarrow> qemu_get_byte (fst s);
     let s = (f, snd s);
     if section_type = QEMU_VM_EOF then Some (0, s)
     else if section_type = QEMU_VM_SECTION_START \<or> section_type = QEMU_VM_SECTION_FULL then do {
       (section_id, idstr, instance_id, version_id, s) \<leftarrow> get_section_head s;
       case find_se handlers (bytes_str idstr) (sint instance_id) of
         None \<Rightarrow> Some (- EINVAL, s)
       | Some se \<Rightarrow>
           if version_id > word_of_int (se_version_id se) then Some (- EINVAL, s)
           else do {
             (ret, s) \<leftarrow> vmstate_load se (sint version_id) s;
             if ret < 0 then Some (ret, s)
             else loadvm_loop handlers
                    (\<lparr>le_se = se, le_section_id = section_id, le_version_id = sint version_id\<rparr> # les) s
           }
     }
     else if section_type = QEMU_VM_SECTION_PART \<or> section_type = QEMU_VM_SECTION_END then do {
       (section_id, s) \<leftarrow> get_u32 s;
       case find (\<lambda>le. le_section_id le = section_id) les of
         None \<Rightarrow> Some (- EINVAL, s)
       | Some le \<Rightarrow> do {
           (ret, s) \<leftarrow> vmstate_load (le_se le) (le_version_id le) s;
           if ret < 0 then Some (ret, s) else loadvm_loop handlers les s
         }
     }
     else Some (- EINVAL, s)
   }"

definition qemu_loadvm_state :: "(hmem \<Rightarrow> hmem option) \<Rightarrow> SaveStateEntry list \<Rightarrow> fm \<Rightarrow> (int \<times> fm) option" where
  "qemu_loadvm_state cpu_synchronize_all_post_init handlers s =
     (if qemu_savevm_state_blocked handlers then Some (- EINVAL, s)
      else do {
        (v, s) \<leftarrow> get_u32 s;
        if v \<noteq> QEMU_VM_FILE_MAGIC then Some (- EINVAL, s)
        else do {
          (v, s) \<leftarrow> get_u32 s;
          if v = QEMU_VM_FILE_VERSION_COMPAT then Some (- ENOTSUP, s)
          else if v \<noteq> QEMU_VM_FILE_VERSION then Some (- ENOTSUP, s)
          else do {
            (ret, s) \<leftarrow> loadvm_loop handlers [] s;
            s \<leftarrow> (if ret = 0 then on_mem cpu_synchronize_all_post_init s else Some s);
            Some (if ret = 0 then qemu_file_get_error (fst s) else ret, s)
          }
        }
      })"

end
