(* ===== verification/Machine_File.thy ===== *)
theory Machine_File
  imports Savevm_File Savevm_Props
begin

text \<open>
  The file of a whole machine: what \<^verbatim>\<open>qemu_save_device_state\<close> writes for the registered devices,
  \<^verbatim>\<open>qemu_loadvm_state\<close> gives back to the entries of the same names in another process.
\<close>

subsection \<open>One section\<close>










subsection \<open>Reading a section\<close>

lemma bytes_str_str_bytes [simp]: "bytes_str (str_bytes s) = s"
proof -
  have "char_of (unat (of_char c :: u8)) = c" for c
  proof -
    have "of_char c < (256 :: nat)"
      using of_char_mod_256 [of c, where 'a = nat] by (metis mod_less_divisor zero_less_numeral)
    then have "unat (of_nat (of_char c) :: u8) = of_char c" by (simp add: unsigned_of_nat take_bit_nat_eq_self)
    then show ?thesis by (metis of_nat_of_char char_of_char)
  qed
  then show ?thesis by (simp add: bytes_str_def str_bytes_def map_idI)
qed


subsection \<open>All sections\<close>










subsection \<open>The file\<close>




definition ex_entry :: "u64 \<Rightarrow> SaveStateEntry" where
  "ex_entry opaque = \<lparr>se_idstr = ''dev'', se_instance_id = 0, se_alias_id = - 1, se_version_id = 1, se_section_id = 0,
     se_ops = None, se_vmsd = Some ex_dev, se_opaque = opaque, se_compat = None, se_no_migrate = False, se_is_ram = False\<rparr>"

lemma ex_registered:
  "vmstate_register_with_alias_id None (- 1) ex_dev a (- 1) 0 \<lparr>savevm_handlers = [], global_section_id = 0\<rparr> =
     Some \<lparr>savevm_handlers = [ex_entry a], global_section_id = 1\<rparr>"
  by (simp add: vmstate_register_with_alias_id_def name_entry_def insert_entry_def calculate_new_instance_id_def
      pstrcat_def pstrcpy_def ex_entry_def Let_def) (simp add: ex_dev_def)



subsection \<open>The table of entries\<close>

text \<open>
  The tables that registrations and removals can make, when the choice of the instance number is left
  to the table or the device has a path.
\<close>

inductive registered :: "savevm_state \<Rightarrow> bool" where
  reg_empty: "registered \<lparr>savevm_handlers = [], global_section_id = 0\<rparr>"
| reg_vmstate: "registered st \<Longrightarrow> instance_id = - 1 \<or> path \<noteq> None \<Longrightarrow>
    vmstate_register_with_alias_id path instance_id vmsd opaque alias_id required_for_version st = Some st' \<Longrightarrow>
    registered st'"
| reg_live: "registered st \<Longrightarrow> instance_id = - 1 \<or> path \<noteq> None \<Longrightarrow>
    register_savevm_live path idstr instance_id version_id ops opaque st = Some st' \<Longrightarrow> registered st'"
| unreg_savevm: "registered st \<Longrightarrow> registered (unregister_savevm path idstr opaque st)"
| unreg_vmstate: "registered st \<Longrightarrow> registered (vmstate_unregister same_vmsd opaque st)"

definition sections_distinct :: "savevm_state \<Rightarrow> bool" where
  "sections_distinct st \<longleftrightarrow>
     distinct (map se_section_id (savevm_handlers st)) \<and>
     list_all (\<lambda>se. se_section_id se < global_section_id st) (savevm_handlers st)"

lemma insert_keeps:
  assumes "keys_distinct (savevm_handlers st) \<and> sections_distinct st" and "instance_id = - 1 \<or> path \<noteq> None"
    and "insert_entry (name_entry (savevm_handlers st) path idstr instance_id se) st = Some st'"
    and "se_section_id se = global_section_id st"
  shows "keys_distinct (savevm_handlers st') \<and> sections_distinct st'"
proof -
  have "se_section_id (name_entry (savevm_handlers st) path idstr instance_id se) = global_section_id st"
    using assms(4) by (simp add: name_entry_def Let_def split: option.splits)
  then show ?thesis
    using insert_fresh [OF assms(3)] assms by (fastforce simp: insert_entry_def sections_distinct_def list_all_iff split: if_splits)
qed

lemma filter_keeps:
  "keys_distinct (savevm_handlers st) \<and> sections_distinct st \<Longrightarrow>
     keys_distinct (filter P (savevm_handlers st)) \<and>
     sections_distinct (st\<lparr>savevm_handlers := filter P (savevm_handlers st)\<rparr>)"
  by (auto simp: keys_distinct_def sections_distinct_def list_all_iff distinct_map_filter)

text \<open>
  C11. Entries are told apart.  In every table that registrations and removals can make, no two entries
  have the same name and instance number, and no two have the same section number.
\<close>

theorem entries_told_apart:
  assumes "registered st"
  shows "keys_distinct (savevm_handlers st) \<and> sections_distinct st"
  using assms
proof induction
  case reg_empty
  show ?case by (simp add: keys_distinct_def sections_distinct_def)
next
  case (reg_vmstate st instance_id path vmsd opaque alias_id required_for_version st')
  then show ?case
    by (intro insert_keeps [OF reg_vmstate.IH reg_vmstate.hyps(2)])
      (auto simp: vmstate_register_with_alias_id_def Let_def split: if_splits)
next
  case (reg_live st instance_id path idstr version_id ops opaque st')
  then show ?case
    by (intro insert_keeps [OF reg_live.IH reg_live.hyps(2)]) (auto simp: register_savevm_live_def Let_def)
qed (simp_all add: unregister_savevm_def vmstate_unregister_def filter_keeps Let_def)

theorem entries_told_apart_witness:
  "\<exists>st. registered st \<and> map se_instance_id (savevm_handlers st) = [0, 1] \<and> keys_distinct (savevm_handlers st)"
proof -
  let ?st = "\<lparr>savevm_handlers = [ex_entry 0x100], global_section_id = 1\<rparr>"
  have r: "registered ?st" by (rule reg_vmstate [OF reg_empty _ ex_registered]) simp
  have nm: "vm_name ex_dev = ''dev''" by (simp add: ex_dev_def)
  obtain st' where st': "vmstate_register_with_alias_id None (- 1) ex_dev 0x200 (- 1) 0 ?st = Some st'"
    "map se_instance_id (savevm_handlers st') = [0, 1]"
    by (simp add: vmstate_register_with_alias_id_def name_entry_def insert_entry_def calculate_new_instance_id_def
        pstrcat_def pstrcpy_def ex_entry_def Let_def nm)
  have "registered st'" by (rule reg_vmstate [OF r _ st'(1)]) simp
  then show ?thesis using st'(2) entries_told_apart [of st'] by (intro exI [of _ st']) simp
qed

text \<open>
  An entry made by \<^verbatim>\<open>register_savevm_live\<close> has the alias number 0, since the member is never set.  An
  entry for instance 1 that comes first in the table is therefore taken for instance 0, and the state
  of instance 0 is loaded into the wrong device.
\<close>

theorem unset_alias_shadows:
  "\<exists>st1 st2 se.
     register_savevm None ''timer'' 1 2 save load 0x100 \<lparr>savevm_handlers = [], global_section_id = 0\<rparr> = Some st1 \<and>
     register_savevm None ''timer'' 0 2 save load 0x200 st1 = Some st2 \<and>
     find_se (savevm_handlers st2) ''timer'' 0 = Some se \<and> se_opaque se = 0x100 \<and> se_instance_id se = 1"
  by (simp add: register_savevm_def register_savevm_live_def name_entry_def insert_entry_def pstrcat_def pstrcpy_def
      find_se_def se_matches_def Let_def)

end
