(* ===== verification/Klee_Harness.thy ===== *)
theory Klee_Harness
  imports Disc_Props E1000_Machine
begin

text \<open>
  The KLEE harness (\<^verbatim>\<open>src/harness/e1000/klee_main.c\<close>): the device state it builds from symbolic
  inputs, the snapshot table it fills in by hand and the reset between its two received packets.
\<close>

subsection \<open>The symbolic device\<close>

record klee_inputs =
  ki_link_down :: u32
  ki_mit_timer_on :: bool
  ki_mit_irq_level :: bool
  ki_reg :: "nat \<Rightarrow> u32"
  ki_compat_flags :: u32
  ki_mit_ide :: u32
  ki_rctl_val :: u64

text \<open>The registers that are made symbolic, one by one and as three arrays.\<close>

definition klee_regs :: "nat list" where
  "klee_regs =
     [STATUS, ICR, ICS, IMS, TADV, RDTR, RADV, ITR, CTRL, RCTL, MDIC, EERD, TPT, GPTC, TOTL, TOTH, TDBAH, TDBAL,
      TDH, TCTL, TDT, TDLEN, RDH, RDT, RDLEN, RDBAH, RDBAL, GPRC, TPR, TORL, TORH, VET] @
     [RA..<RA + 32] @ [MTA..<MTA + 128] @ [VFTA..<VFTA + 128]"

text \<open>The state; what \<^verbatim>\<open>malloc\<close> left in the other members is \<open>s\<close>.\<close>

definition klee_state :: "klee_inputs \<Rightarrow> E1000State \<Rightarrow> E1000State" where
  "klee_state inp s =
     s\<lparr>nc := (nc s)\<lparr>link_down := (ki_link_down inp \<noteq> 0)\<rparr>,
       mit_timer_on := ki_mit_timer_on inp, mit_irq_level := ki_mit_irq_level inp,
       mac_reg := (\<lambda>r. if r < 0x8000 then (if r \<in> set klee_regs then ki_reg inp r else 0) else mac_reg s r),
       compat_flags := ki_compat_flags inp, mit_ide := ki_mit_ide inp,
       rxbuf_size := rxbufsize (ucast (ki_rctl_val inp)),
       rxbuf_min_shift := ucast (((ki_rctl_val inp div ucast E1000_RCTL_RDMTS_QUAT) AND 3) + 1)\<rparr>"

subsection \<open>The reset\<close>

text \<open>The only entry of \<^verbatim>\<open>g_dss\<close>; its size is that of the embedded \<^verbatim>\<open>PCIDevice\<close> and both blocks are null pointers.\<close>

definition klee_dss :: "nat \<Rightarrow> VMStateDescription \<Rightarrow> dev_snapshots list" where
  "klee_dss pci_sz vmsd =
     [\<lparr>devname = Some ''e1000'', statesize = c_int pci_sz, snapshot = 0, swapspace = 0, ds_vmsd = vmsd\<rparr>]"

definition flip :: "dev_snapshots list \<Rightarrow> string \<Rightarrow> u64 \<Rightarrow> hmem \<Rightarrow> hmem option" where
  "flip g_dss dev_name d m = device_nap_reset g_dss dev_name d m"

text \<open>
  Every value of every symbolic register is tried, the rest of the register file is 0, and the
  receive buffer has one of the sizes that a write to RCTL can choose.
\<close>

lemma klee_state_registers:
  "\<exists>inp. \<forall>r<0x8000. mac_reg (klee_state inp s) r = (if r \<in> set klee_regs then regs r else 0)"
proof
  let ?inp = "\<lparr>ki_link_down = 0, ki_mit_timer_on = False, ki_mit_irq_level = False, ki_reg = regs, ki_compat_flags = 0,
    ki_mit_ide = 0, ki_rctl_val = 0\<rparr>"
  show "\<forall>r<0x8000. mac_reg (klee_state ?inp s) r = (if r \<in> set klee_regs then regs r else 0)"
    by (simp add: klee_state_def)
qed

lemma klee_state_buffer: "256 \<le> rxbuf_size (klee_state inp s) \<and> rxbuf_size (klee_state inp s) \<le> 16384"
  using rxbufsize_bounds by (simp add: klee_state_def)

text \<open>
  C40. The harness does not survive its reset.  The first thing \<^verbatim>\<open>flip\<close> does is to copy the device to
  the swap space, which is the null pointer; where nothing is mapped at address 0 this is a crash, so
  the packet after the reset is never received.
\<close>

theorem harness_flip_crashes:
  assumes "m 0 = None" and "0 < pci_sz" and "pci_sz < 2 ^ 31"
  shows "flip (klee_dss pci_sz vmsd) ''e1000'' d m = None"
proof -
  have "\<not> mapped m 0 pci_sz" using assms(1,2) by (auto simp: mapped_iff intro!: exI [of _ 0])
  then show ?thesis
    using assms(3)
    by (simp add: flip_def klee_dss_def c_int_small c_size_int memcpy_def mem_read_def mem_write_def Let_def)
qed

theorem harness_flip_crashes_witness:
  "ex_mem 0 = None \<and> flip (klee_dss 0x400 ex_vmsd) ''e1000'' 0x100000 ex_mem = None"
  using harness_flip_crashes [of ex_mem "0x400" ex_vmsd "0x100000"] by (simp add: ex_mem_def)

end
