(* ===== verification/Qom.thy ===== *)
theory Qom
  imports Prelude "HOL-Library.Monad_Syntax"
begin

text \<open>
  The type system that the device casts go through (\<^verbatim>\<open>src/harness/qemu/qom/object.c\<close>; the harness has a
  copy of the casts in \<^verbatim>\<open>klee_external_function_calls.c\<close>).

  A type and a class are numbers that stand for their addresses.  A C string is its address and its
  text: the code compares names by address where it can.  The bytes of a class and of an object behind
  the members that the type system itself uses are a list; the callbacks of a type act on it.  A
  failed assertion, an abort and a null pointer access are \<open>None\<close>, as is a run that does not return.
\<close>

subsection \<open>Types and classes\<close>

record cstring =
  cs_addr :: nat
  cs_text :: string

type_synonym body = "u8 list"

record TypeInfo =
  tf_name :: string
  tf_parent :: "string option"
  tf_instance_size :: nat
  tf_instance_init :: "(body \<Rightarrow> body) option"
  tf_instance_post_init :: "(body \<Rightarrow> body) option"
  tf_instance_finalize :: "(body \<Rightarrow> body) option"
  tf_abstract :: bool
  tf_class_size :: nat
  tf_class_init :: "(body \<Rightarrow> body) option"
  tf_class_base_init :: "(body \<Rightarrow> body) option"
  tf_interfaces :: "string list"

record TypeImpl =
  ti_name :: cstring
  ti_class_size :: nat
  ti_instance_size :: nat
  ti_class_init :: "(body \<Rightarrow> body) option"
  ti_class_base_init :: "(body \<Rightarrow> body) option"
  ti_instance_init :: "(body \<Rightarrow> body) option"
  ti_instance_post_init :: "(body \<Rightarrow> body) option"
  ti_instance_finalize :: "(body \<Rightarrow> body) option"
  ti_abstract :: bool
  ti_parent :: "string option"
  ti_parent_type :: "nat option"
  ti_class :: "nat option"
  ti_interfaces :: "string list"

abbreviation (input) OBJECT_CLASS_CAST_CACHE :: nat where "OBJECT_CLASS_CAST_CACHE \<equiv> 4"
abbreviation (input) OBJECT_CLASS_SIZE :: nat where "OBJECT_CLASS_SIZE \<equiv> 88"
abbreviation (input) INTERFACE_CLASS_SIZE :: nat where "INTERFACE_CLASS_SIZE \<equiv> 96"
abbreviation (input) OBJECT_SIZE :: nat where "OBJECT_SIZE \<equiv> 48"

text \<open>
  A class; \<open>oc_concrete\<close> is the member of \<^verbatim>\<open>InterfaceClass\<close>, kept apart from the body.  The body starts
  behind the caches, which are the first 80 bytes with the two pointers before them.
\<close>

record ObjectClass =
  oc_type :: "nat option"
  oc_interfaces :: "nat list"
  object_cast_cache :: "cstring option list"
  class_cast_cache :: "cstring option list"
  oc_body :: body
  oc_concrete :: "nat option"

record qom =
  q_types :: "TypeImpl list"
  q_classes :: "ObjectClass list"
  type_table :: "string \<Rightarrow> nat option"
  type_interface :: "nat option"
  q_strings :: nat

definition type_at :: "qom \<Rightarrow> nat \<Rightarrow> TypeImpl option" where
  "type_at q t = (if t < length (q_types q) then Some (q_types q ! t) else None)"

definition class_at :: "qom \<Rightarrow> nat \<Rightarrow> ObjectClass option" where
  "class_at q c = (if c < length (q_classes q) then Some (q_classes q ! c) else None)"

definition type_upd :: "nat \<Rightarrow> (TypeImpl \<Rightarrow> TypeImpl) \<Rightarrow> qom \<Rightarrow> qom" where
  "type_upd t u q = q\<lparr>q_types := (q_types q)[t := u (q_types q ! t)]\<rparr>"

definition class_upd :: "nat \<Rightarrow> (ObjectClass \<Rightarrow> ObjectClass) \<Rightarrow> qom \<Rightarrow> qom" where
  "class_upd c u q = q\<lparr>q_classes := (q_classes q)[c := u (q_classes q ! c)]\<rparr>"

subsection \<open>Registering types\<close>

definition type_get_by_name :: "string option \<Rightarrow> qom \<Rightarrow> nat option" where
  "type_get_by_name name q = Option.bind name (type_table q)"

text \<open>\<^verbatim>\<open>g_strdup\<close> returns an address that no other copy has.\<close>

definition type_register_internal :: "TypeInfo \<Rightarrow> qom \<Rightarrow> (nat \<times> qom) option" where
  "type_register_internal info q =
     (if type_table q (tf_name info) \<noteq> None then None
      else
        let t = length (q_types q);
            ti = \<lparr>ti_name = \<lparr>cs_addr = q_strings q, cs_text = tf_name info\<rparr>,
                  ti_class_size = tf_class_size info, ti_instance_size = tf_instance_size info,
                  ti_class_init = tf_class_init info, ti_class_base_init = tf_class_base_init info,
                  ti_instance_init = tf_instance_init info, ti_instance_post_init = tf_instance_post_init info,
                  ti_instance_finalize = tf_instance_finalize info, ti_abstract = tf_abstract info,
                  ti_parent = tf_parent info, ti_parent_type = None, ti_class = None,
                  ti_interfaces = tf_interfaces info\<rparr>
        in Some (t, q\<lparr>q_types := q_types q @ [ti], type_table := (type_table q)(tf_name info \<mapsto> t),
                      q_strings := q_strings q + 1\<rparr>))"

definition type_register :: "TypeInfo \<Rightarrow> qom \<Rightarrow> (nat \<times> qom) option" where
  "type_register info q = (if tf_parent info = None then None else type_register_internal info q)"

text \<open>The two types that the type system itself has; \<^verbatim>\<open>object_instance_init\<close> only adds a property.\<close>

definition register_types :: "qom \<Rightarrow> qom option" where
  "register_types q = do {
     (t, q) \<leftarrow> type_register_internal
       \<lparr>tf_name = ''interface'', tf_parent = None, tf_instance_size = 0, tf_instance_init = None,
        tf_instance_post_init = None, tf_instance_finalize = None, tf_abstract = True,
        tf_class_size = INTERFACE_CLASS_SIZE, tf_class_init = None, tf_class_base_init = None,
        tf_interfaces = []\<rparr> q;
     let q = q\<lparr>type_interface := Some t\<rparr>;
     (_, q) \<leftarrow> type_register_internal
       \<lparr>tf_name = ''object'', tf_parent = None, tf_instance_size = OBJECT_SIZE,
        tf_instance_init = Some (\<lambda>b. b), tf_instance_post_init = None, tf_instance_finalize = None,
        tf_abstract = True, tf_class_size = 0, tf_class_init = None, tf_class_base_init = None,
        tf_interfaces = []\<rparr> q;
     Some q
   }"

subsection \<open>The parents of a type\<close>

definition type_get_parent :: "nat \<Rightarrow> qom \<Rightarrow> (nat option \<times> qom) option" where
  "type_get_parent t q = do {
     ti \<leftarrow> type_at q t;
     if ti_parent_type ti = None \<and> ti_parent ti \<noteq> None then
       case type_get_by_name (ti_parent ti) q of
         None \<Rightarrow> None
       | Some p \<Rightarrow> Some (Some p, type_upd t (\<lambda>ti. ti\<lparr>ti_parent_type := Some p\<rparr>) q)
     else Some (ti_parent_type ti, q)
   }"

definition type_has_parent :: "TypeImpl \<Rightarrow> bool" where
  "type_has_parent ti \<longleftrightarrow> ti_parent ti \<noteq> None"

partial_function (option) type_class_get_size :: "nat \<Rightarrow> qom \<Rightarrow> (nat \<times> qom) option" where
  "type_class_get_size t q = do {
     ti \<leftarrow> type_at q t;
     if ti_class_size ti \<noteq> 0 then Some (ti_class_size ti, q)
     else if type_has_parent ti then do {
       (p, q) \<leftarrow> type_get_parent t q;
       case p of None \<Rightarrow> None | Some p \<Rightarrow> type_class_get_size p q
     }
     else Some (OBJECT_CLASS_SIZE, q)
   }"

partial_function (option) type_object_get_size :: "nat \<Rightarrow> qom \<Rightarrow> (nat \<times> qom) option" where
  "type_object_get_size t q = do {
     ti \<leftarrow> type_at q t;
     if ti_instance_size ti \<noteq> 0 then Some (ti_instance_size ti, q)
     else if type_has_parent ti then do {
       (p, q) \<leftarrow> type_get_parent t q;
       case p of None \<Rightarrow> None | Some p \<Rightarrow> type_object_get_size p q
     }
     else Some (0, q)
   }"

text \<open>The walk of \<^verbatim>\<open>type_is_ancestor\<close>; \<open>type\<close> is null past the root.\<close>

partial_function (option) ancestor_loop :: "nat option \<Rightarrow> nat \<Rightarrow> qom \<Rightarrow> (bool \<times> qom) option" where
  "ancestor_loop ty target q =
     (case ty of
        None \<Rightarrow> Some (False, q)
      | Some t \<Rightarrow>
          if t = target then Some (True, q)
          else do {
            (p, q) \<leftarrow> type_get_parent t q;
            ancestor_loop p target q
          })"

definition type_is_ancestor :: "nat option \<Rightarrow> nat option \<Rightarrow> qom \<Rightarrow> (bool \<times> qom) option" where
  "type_is_ancestor ty target_type q =
     (case target_type of None \<Rightarrow> None | Some target \<Rightarrow> ancestor_loop ty target q)"

subsection \<open>Initializing types\<close>

definition new_class :: "nat \<Rightarrow> qom \<Rightarrow> nat \<times> qom" where
  "new_class sz q =
     (length (q_classes q),
      q\<lparr>q_classes := q_classes q @
          [\<lparr>oc_type = None, oc_interfaces = [], object_cast_cache = replicate OBJECT_CLASS_CAST_CACHE None,
            class_cast_cache = replicate OBJECT_CLASS_CAST_CACHE None, oc_body = replicate (sz - 80) 0,
            oc_concrete = None\<rparr>]\<rparr>)"

text \<open>The copy of the parent's class, caches included, without its interfaces.\<close>

definition inherit_class :: "nat \<Rightarrow> nat \<Rightarrow> nat \<Rightarrow> qom \<Rightarrow> qom option" where
  "inherit_class t p c q = do {
     ti \<leftarrow> type_at q t;
     pi \<leftarrow> type_at q p;
     pc \<leftarrow> Option.bind (ti_class pi) (class_at q);
     if ti_class_size pi \<le> ti_class_size ti then
       Some (class_upd c
         (\<lambda>cl. pc\<lparr>oc_interfaces := [], oc_body := oc_body pc @ drop (length (oc_body pc)) (oc_body cl)\<rparr>) q)
     else None
   }"

text \<open>\<^verbatim>\<open>type_initialize_interface\<close>, with the initialization of a type as an argument.\<close>

definition type_initialize_interface :: "(nat \<Rightarrow> qom \<Rightarrow> qom option) \<Rightarrow> nat \<Rightarrow> string \<Rightarrow> qom \<Rightarrow> qom option" where
  "type_initialize_interface init t parent q = do {
     ti \<leftarrow> type_at q t;
     (i, q) \<leftarrow> type_register
       \<lparr>tf_name = cs_text (ti_name ti) @ ''::'' @ parent, tf_parent = Some parent, tf_instance_size = 0,
        tf_instance_init = None, tf_instance_post_init = None, tf_instance_finalize = None,
        tf_abstract = True, tf_class_size = 0, tf_class_init = None, tf_class_base_init = None,
        tf_interfaces = []\<rparr> q;
     q \<leftarrow> init i q;
     ic \<leftarrow> Option.bind (type_at q i) ti_class;
     c \<leftarrow> Option.bind (type_at q t) ti_class;
     let q = class_upd ic (\<lambda>cl. cl\<lparr>oc_concrete := Some c\<rparr>) q;
     Some (class_upd c (\<lambda>cl. cl\<lparr>oc_interfaces := oc_interfaces cl @ [ic]\<rparr>) q)
   }"

definition object_class_get_name :: "nat \<Rightarrow> qom \<Rightarrow> cstring option" where
  "object_class_get_name c q = do {
     cl \<leftarrow> class_at q c;
     t \<leftarrow> oc_type cl;
     map_option ti_name (type_at q t)
   }"

text \<open>Whether one of the interface classes has a type that descends from a given one.\<close>

primrec interface_loop :: "nat list \<Rightarrow> nat option \<Rightarrow> qom \<Rightarrow> (bool \<times> qom) option" where
  "interface_loop [] t q = Some (False, q)"
| "interface_loop (i # is) t q = do {
     cl \<leftarrow> class_at q i;
     (found, q) \<leftarrow> type_is_ancestor (oc_type cl) t q;
     if found then Some (True, q) else interface_loop is t q
   }"

definition run_class_hook :: "(TypeImpl \<Rightarrow> (body \<Rightarrow> body) option) \<Rightarrow> nat \<Rightarrow> nat \<Rightarrow> qom \<Rightarrow> qom option" where
  "run_class_hook hook t c q =
     map_option (\<lambda>ti. case hook ti of
         None \<Rightarrow> q
       | Some h \<Rightarrow> class_upd c (\<lambda>cl. cl\<lparr>oc_body := h (oc_body cl)\<rparr>) q) (type_at q t)"

partial_function (option) base_init_loop :: "nat option \<Rightarrow> nat \<Rightarrow> qom \<Rightarrow> qom option" where
  "base_init_loop parent c q =
     (case parent of
        None \<Rightarrow> Some q
      | Some p \<Rightarrow> do {
          q \<leftarrow> run_class_hook ti_class_base_init p c q;
          (parent, q) \<leftarrow> type_get_parent p q;
          base_init_loop parent c q
        })"

text \<open>Recursive calls inside the loops keep the definition monotone.\<close>

lemma interface_mono [partial_function_mono]:
  assumes "\<And>t q. mono_option (\<lambda>f. B f t q)"
  shows "mono_option (\<lambda>f. type_initialize_interface (B f) t parent q)"
  unfolding type_initialize_interface_def
proof (intro bind_mono option.const_mono)
  fix r :: "nat \<times> qom" and k :: "nat \<Rightarrow> qom \<Rightarrow> qom option"
  obtain i q' where "r = (i, q')" by (cases r)
  then show "mono_option (\<lambda>f. case r of (i, q) \<Rightarrow> B f i q \<bind> k i)"
    by (simp, intro bind_mono option.const_mono assms)
qed

text \<open>What a type takes over from its parent, with the initialization of a type as an argument.\<close>

definition init_from_parent :: "(nat \<Rightarrow> qom \<Rightarrow> qom option) \<Rightarrow> nat \<Rightarrow> nat \<Rightarrow> string list \<Rightarrow> nat option \<Rightarrow> qom \<Rightarrow> qom option" where
  "init_from_parent init t c ifaces parent q =
     (case parent of
        None \<Rightarrow> Some q
      | Some p \<Rightarrow> do {
          q \<leftarrow> init p q;
          q \<leftarrow> inherit_class t p c q;
          pc \<leftarrow> Option.bind (Option.bind (type_at q p) ti_class) (class_at q);
          q \<leftarrow> for_list (oc_interfaces pc)
            (\<lambda>i q. Option.bind (object_class_get_name i q)
               (\<lambda>name. type_initialize_interface init t (cs_text name) q)) q;
          for_list ifaces
            (\<lambda>name q. do {
               cl \<leftarrow> class_at q c;
               (found, q) \<leftarrow> interface_loop (oc_interfaces cl) (type_get_by_name (Some name) q) q;
               if found then Some q else type_initialize_interface init t name q
             }) q
        })"

lemma from_parent_mono [partial_function_mono]:
  assumes "\<And>t q. mono_option (\<lambda>f. B f t q)"
  shows "mono_option (\<lambda>f. init_from_parent (B f) t c ifaces parent q)"
proof (cases parent)
  case (Some p)
  have "mono_option (\<lambda>f. case r of (found, q) \<Rightarrow> if found then Some q else type_initialize_interface (B f) t name q)"
    for r :: "bool \<times> qom" and name
    by (cases r, cases "fst r") (simp_all add: option.const_mono interface_mono assms)
  then show ?thesis
    unfolding init_from_parent_def Some option.case
    by (intro bind_mono option.const_mono for_list_mono interface_mono assms)
qed (simp add: init_from_parent_def option.const_mono)

partial_function (option) type_initialize :: "nat \<Rightarrow> qom \<Rightarrow> qom option" where
  "type_initialize t q = do {
     ti \<leftarrow> type_at q t;
     if ti_class ti \<noteq> None then Some q
     else do {
       (csz, q) \<leftarrow> type_class_get_size t q;
       let q = type_upd t (\<lambda>ti. ti\<lparr>ti_class_size := csz\<rparr>) q;
       (isz, q) \<leftarrow> type_object_get_size t q;
       let q = type_upd t (\<lambda>ti. ti\<lparr>ti_instance_size := isz\<rparr>) q;
       let (c, q) = new_class csz q;
       let q = type_upd t (\<lambda>ti. ti\<lparr>ti_class := Some c\<rparr>) q;
       (parent, q) \<leftarrow> type_get_parent t q;
       q \<leftarrow> init_from_parent type_initialize t c (ti_interfaces ti) parent q;
       let q = class_upd c (\<lambda>cl. cl\<lparr>oc_type := Some t\<rparr>) q;
       q \<leftarrow> base_init_loop parent c q;
       run_class_hook ti_class_init t c q
     }
   }"

subsection \<open>Objects\<close>

text \<open>An object without its properties; the body starts behind \<^verbatim>\<open>Object\<close>.\<close>

record Object =
  ob_class :: "nat option"
  ob_ref :: u32
  ob_body :: body

partial_function (option) object_init_with_type :: "nat \<Rightarrow> body \<Rightarrow> qom \<Rightarrow> (body \<times> qom) option" where
  "object_init_with_type t obj q = do {
     ti \<leftarrow> type_at q t;
     (obj, q) \<leftarrow> (if type_has_parent ti then do {
                     (p, q) \<leftarrow> type_get_parent t q;
                     case p of None \<Rightarrow> None | Some p \<Rightarrow> object_init_with_type p obj q
                   }
                   else Some (obj, q));
     Some (case ti_instance_init ti of None \<Rightarrow> obj | Some init \<Rightarrow> init obj, q)
   }"

partial_function (option) object_post_init_with_type :: "nat \<Rightarrow> body \<Rightarrow> qom \<Rightarrow> (body \<times> qom) option" where
  "object_post_init_with_type t obj q = do {
     ti \<leftarrow> type_at q t;
     let obj = (case ti_instance_post_init ti of None \<Rightarrow> obj | Some init \<Rightarrow> init obj);
     if type_has_parent ti then do {
       (p, q) \<leftarrow> type_get_parent t q;
       case p of None \<Rightarrow> None | Some p \<Rightarrow> object_post_init_with_type p obj q
     }
     else Some (obj, q)
   }"

definition object_initialize_with_type :: "nat \<Rightarrow> nat option \<Rightarrow> qom \<Rightarrow> (Object \<times> qom) option" where
  "object_initialize_with_type sz ty q =
     (case ty of
        None \<Rightarrow> None
      | Some t \<Rightarrow> do {
          q \<leftarrow> type_initialize t q;
          ti \<leftarrow> type_at q t;
          if OBJECT_SIZE \<le> ti_instance_size ti \<and> \<not> ti_abstract ti \<and> ti_instance_size ti \<le> sz then do {
            (obj, q) \<leftarrow> object_init_with_type t (replicate (ti_instance_size ti - OBJECT_SIZE) 0) q;
            (obj, q) \<leftarrow> object_post_init_with_type t obj q;
            Some (\<lparr>ob_class = ti_class ti, ob_ref = 1, ob_body = obj\<rparr>, q)
          }
          else None
        })"

definition object_initialize :: "nat \<Rightarrow> string \<Rightarrow> qom \<Rightarrow> (Object \<times> qom) option" where
  "object_initialize sz typename q = object_initialize_with_type sz (type_get_by_name (Some typename) q) q"

definition object_new_with_type :: "nat option \<Rightarrow> qom \<Rightarrow> (Object \<times> qom) option" where
  "object_new_with_type ty q =
     (case ty of
        None \<Rightarrow> None
      | Some t \<Rightarrow> do {
          q \<leftarrow> type_initialize t q;
          ti \<leftarrow> type_at q t;
          object_initialize_with_type (ti_instance_size ti) ty q
        })"

definition object_new :: "string \<Rightarrow> qom \<Rightarrow> (Object \<times> qom) option" where
  "object_new typename q = object_new_with_type (type_get_by_name (Some typename) q) q"

partial_function (option) object_deinit :: "nat \<Rightarrow> body \<Rightarrow> qom \<Rightarrow> (body \<times> qom) option" where
  "object_deinit t obj q = do {
     ti \<leftarrow> type_at q t;
     let obj = (case ti_instance_finalize ti of None \<Rightarrow> obj | Some fin \<Rightarrow> fin obj);
     if type_has_parent ti then do {
       (p, q) \<leftarrow> type_get_parent t q;
       case p of None \<Rightarrow> None | Some p \<Rightarrow> object_deinit p obj q
     }
     else Some (obj, q)
   }"

subsection \<open>Casts\<close>

text \<open>The loop over the interfaces of a class: the last one that matches and how many do.\<close>

primrec cast_loop :: "nat list \<Rightarrow> nat \<Rightarrow> nat option \<Rightarrow> nat \<Rightarrow> qom \<Rightarrow> (nat option \<times> nat \<times> qom) option" where
  "cast_loop [] target ret found q = Some (ret, found, q)"
| "cast_loop (i # is) target ret found q = do {
     cl \<leftarrow> class_at q i;
     (yes, q) \<leftarrow> type_is_ancestor (oc_type cl) (Some target) q;
     if yes then cast_loop is target (Some i) (found + 1) q else cast_loop is target ret found q
   }"

definition object_class_dynamic_cast :: "nat option \<Rightarrow> cstring \<Rightarrow> qom \<Rightarrow> (nat option \<times> qom) option" where
  "object_class_dynamic_cast cls typename q =
     (case cls of
        None \<Rightarrow> Some (None, q)
      | Some c \<Rightarrow> do {
          cl \<leftarrow> class_at q c;
          t \<leftarrow> oc_type cl;
          ti \<leftarrow> type_at q t;
          if cs_addr (ti_name ti) = cs_addr typename then Some (Some c, q)
          else
            case type_get_by_name (Some (cs_text typename)) q of
              None \<Rightarrow> Some (None, q)
            | Some target \<Rightarrow> do {
                tc \<leftarrow> Option.bind (ti_class ti) (class_at q);
                (iface, q) \<leftarrow> (if oc_interfaces tc \<noteq> [] then type_is_ancestor (Some target) (type_interface q) q
                               else Some (False, q));
                if iface then do {
                  (ret, found, q) \<leftarrow> cast_loop (oc_interfaces cl) target None 0 q;
                  Some (if found > 1 then None else ret, q)
                }
                else do {
                  (yes, q) \<leftarrow> type_is_ancestor (Some t) (Some target) q;
                  Some (if yes then Some c else None, q)
                }
              }
        })"

definition object_get_class :: "Object \<Rightarrow> nat option" where
  "object_get_class obj = ob_class obj"

definition object_dynamic_cast :: "Object option \<Rightarrow> cstring \<Rightarrow> qom \<Rightarrow> (Object option \<times> qom) option" where
  "object_dynamic_cast obj typename q =
     (case obj of
        None \<Rightarrow> Some (None, q)
      | Some ob \<Rightarrow> do {
          (cls, q) \<leftarrow> object_class_dynamic_cast (object_get_class ob) typename q;
          Some (if cls \<noteq> None then Some ob else None, q)
        })"

text \<open>A cache of string addresses: the oldest one drops out.\<close>

definition in_cache :: "cstring \<Rightarrow> cstring option list \<Rightarrow> bool" where
  "in_cache str cache = list_ex (\<lambda>e. case e of None \<Rightarrow> False | Some s \<Rightarrow> cs_addr s = cs_addr str) cache"

definition push_cache :: "cstring \<Rightarrow> cstring option list \<Rightarrow> cstring option list" where
  "push_cache str cache = tl cache @ [Some str]"

definition object_dynamic_cast_assert :: "bool \<Rightarrow> Object option \<Rightarrow> cstring \<Rightarrow> qom \<Rightarrow> (Object option \<times> qom) option" where
  "object_dynamic_cast_assert CONFIG_QOM_CAST_DEBUG obj typename q =
     (if \<not> CONFIG_QOM_CAST_DEBUG then Some (obj, q)
      else
        case obj of
          None \<Rightarrow> Some (None, q)
        | Some ob \<Rightarrow> do {
            c \<leftarrow> ob_class ob;
            cl \<leftarrow> class_at q c;
            if in_cache typename (object_cast_cache cl) then Some (obj, q)
            else do {
              (inst, q) \<leftarrow> object_dynamic_cast obj typename q;
              if inst = None then None
              else Some (obj, class_upd c (\<lambda>cl. cl\<lparr>object_cast_cache := push_cache typename (object_cast_cache cl)\<rparr>) q)
            }
          })"

definition object_class_dynamic_cast_assert :: "bool \<Rightarrow> nat option \<Rightarrow> cstring \<Rightarrow> qom \<Rightarrow> (nat option \<times> qom) option" where
  "object_class_dynamic_cast_assert CONFIG_QOM_CAST_DEBUG cls typename q =
     (case cls of
        None \<Rightarrow> Some (None, q)
      | Some c \<Rightarrow> do {
          cl \<leftarrow> class_at q c;
          if CONFIG_QOM_CAST_DEBUG \<and> in_cache typename (class_cast_cache cl) then Some (cls, q)
          else if \<not> CONFIG_QOM_CAST_DEBUG \<and> oc_interfaces cl = [] then Some (cls, q)
          else do {
            (ret, q) \<leftarrow> object_class_dynamic_cast cls typename q;
            if ret = None then None
            else if CONFIG_QOM_CAST_DEBUG \<and> ret = cls
            then Some (ret, class_upd c (\<lambda>cl. cl\<lparr>class_cast_cache := push_cache typename (class_cast_cache cl)\<rparr>) q)
            else Some (ret, q)
          }
        })"

definition object_class_by_name :: "string \<Rightarrow> qom \<Rightarrow> (nat option \<times> qom) option" where
  "object_class_by_name typename q =
     (case type_get_by_name (Some typename) q of
        None \<Rightarrow> Some (None, q)
      | Some t \<Rightarrow> do {
          q \<leftarrow> type_initialize t q;
          ti \<leftarrow> type_at q t;
          Some (ti_class ti, q)
        })"

definition object_class_get_parent :: "nat \<Rightarrow> qom \<Rightarrow> (nat option \<times> qom) option" where
  "object_class_get_parent c q = do {
     cl \<leftarrow> class_at q c;
     t \<leftarrow> oc_type cl;
     (p, q) \<leftarrow> type_get_parent t q;
     case p of
       None \<Rightarrow> Some (None, q)
     | Some p \<Rightarrow> do {
         q \<leftarrow> type_initialize p q;
         ti \<leftarrow> type_at q p;
         Some (ti_class ti, q)
       }
   }"

text \<open>The loops are executable.\<close>

lemmas qom_loops [code] = type_class_get_size.simps type_object_get_size.simps ancestor_loop.simps base_init_loop.simps
  type_initialize.simps object_init_with_type.simps object_post_init_with_type.simps object_deinit.simps

end
