(* ===== verification/Qom_Cast.thy ===== *)
theory Qom_Cast
  imports Qom
begin

text \<open>
  What casts promise: a checked cast succeeds exactly for the types that an object's type descends
  from, however the cast caches were filled, copied and shifted before.  The proofs are for types
  without interfaces.
\<close>

subsection \<open>The tree of types\<close>

definition parent_id :: "qom \<Rightarrow> nat \<Rightarrow> nat option" where
  "parent_id q t = Option.bind (Option.bind (type_at q t) ti_parent) (type_table q)"

inductive descends :: "qom \<Rightarrow> nat \<Rightarrow> nat \<Rightarrow> bool" for q where
  descends_refl: "descends q t t"
| descends_step: "parent_id q t = Some p \<Longrightarrow> descends q p u \<Longrightarrow> descends q t u"

text \<open>All ancestors are registered, and there is a root.\<close>

inductive chain_ok :: "qom \<Rightarrow> nat \<Rightarrow> bool" for q where
  chain_root: "type_at q t = Some ti \<Longrightarrow> ti_parent ti = None \<Longrightarrow> chain_ok q t"
| chain_step: "parent_id q t = Some p \<Longrightarrow> chain_ok q p \<Longrightarrow> chain_ok q t"

lemma descends_iff: "descends q t u \<longleftrightarrow> t = u \<or> (\<exists>p. parent_id q t = Some p \<and> descends q p u)"
  by (subst descends.simps) auto

lemma parent_type_at: "parent_id q t = Some p \<Longrightarrow> \<exists>ti nm. type_at q t = Some ti \<and> ti_parent ti = Some nm \<and> type_table q nm = Some p"
  by (auto simp: parent_id_def bind_eq_Some_conv)

text \<open>The part of the state that the tree is made of.\<close>

definition tree :: "qom \<Rightarrow> (string \<Rightarrow> nat option) \<times> (cstring \<times> string option \<times> string list) list" where
  "tree q = (type_table q, map (\<lambda>ti. (ti_name ti, ti_parent ti, ti_interfaces ti)) (q_types q))"

definition name_of :: "qom \<Rightarrow> nat \<Rightarrow> (cstring \<times> string list) option" where
  "name_of q t = map_option (\<lambda>ti. (ti_name ti, ti_interfaces ti)) (type_at q t)"

definition is_a :: "qom \<Rightarrow> nat \<Rightarrow> cstring \<Rightarrow> bool" where
  "is_a q t str \<longleftrightarrow> (\<exists>u. type_table q (cs_text str) = Some u \<and> descends q t u)"

lemma tree_at:
  assumes "tree q' = tree q" and "type_at q t = Some ti"
  shows "\<exists>ti'. type_at q' t = Some ti' \<and> ti_name ti' = ti_name ti \<and> ti_parent ti' = ti_parent ti \<and>
    ti_interfaces ti' = ti_interfaces ti"
proof -
  let ?f = "\<lambda>ti. (ti_name ti, ti_parent ti, ti_interfaces ti)"
  have eq: "map ?f (q_types q') = map ?f (q_types q)" using assms(1) by (simp add: tree_def)
  have len: "length (q_types q') = length (q_types q)" using arg_cong [OF eq, of length] by simp
  have t: "t < length (q_types q)" "ti = q_types q ! t" using assms(2) by (auto simp: type_at_def split: if_splits)
  have "?f (q_types q' ! t) = ?f ti" using arg_cong [OF eq, of "\<lambda>xs. xs ! t"] t len by (simp only: nth_map)
  then show ?thesis using t len by (simp add: type_at_def)
qed

lemma tree_parent_id: "tree q' = tree q \<Longrightarrow> parent_id q' t = parent_id q t"
proof -
  assume *: "tree q' = tree q"
  then have tab: "type_table q' = type_table q" by (simp add: tree_def)
  show ?thesis
  proof (cases "type_at q t")
    case None
    then have "type_at q' t = None" using tree_at [OF * [symmetric], of t] by (cases "type_at q' t") auto
    then show ?thesis using None by (simp add: parent_id_def)
  next
    case (Some ti)
    then show ?thesis using tree_at [OF * Some] tab by (auto simp: parent_id_def)
  qed
qed

lemma tree_chain:
  assumes "chain_ok q t" and "tree q' = tree q"
  shows "chain_ok q' t"
  using assms(1)
proof induction
  case (chain_root t ti)
  then show ?case using tree_at [OF assms(2) chain_root.hyps(1)] by (auto intro: chain_ok.chain_root)
next
  case (chain_step t p)
  then show ?case using tree_parent_id [OF assms(2)] by (metis chain_ok.chain_step)
qed

lemma descends_mono:
  assumes "descends q t u" and "\<And>t p. parent_id q t = Some p \<Longrightarrow> parent_id q' t = Some p"
  shows "descends q' t u"
  using assms(1) by induction (auto intro: descends.intros assms(2))

lemma tree_views:
  assumes "tree q' = tree q"
  shows "name_of q' t = name_of q t" "chain_ok q' t \<longleftrightarrow> chain_ok q t" "descends q' t u \<longleftrightarrow> descends q t u"
    "is_a q' t str \<longleftrightarrow> is_a q t str" "type_table q' = type_table q"
proof -
  show "type_table q' = type_table q" using assms by (simp add: tree_def)
  show "chain_ok q' t \<longleftrightarrow> chain_ok q t" using tree_chain assms by metis
  have *: "descends q' t u \<longleftrightarrow> descends q t u" for u
    using descends_mono tree_parent_id [OF assms] by metis
  then show "descends q' t u \<longleftrightarrow> descends q t u" .
  show "is_a q' t str \<longleftrightarrow> is_a q t str" unfolding is_a_def * using assms by (simp add: tree_def)
  show "name_of q' t = name_of q t"
  proof (cases "type_at q t")
    case None
    then have "type_at q' t = None" using tree_at [OF assms [symmetric], of t] by (cases "type_at q' t") auto
    then show ?thesis using None by (simp add: name_of_def)
  next
    case (Some ti)
    then show ?thesis using tree_at [OF assms Some] by (auto simp: name_of_def)
  qed
qed

text \<open>What the walks through the tree may change: remembered parents and sizes.\<close>

definition type_core :: "TypeImpl \<Rightarrow> TypeImpl" where
  "type_core ti = ti\<lparr>ti_parent_type := None, ti_class_size := 0, ti_instance_size := 0\<rparr>"

definition core :: "qom \<Rightarrow> qom" where
  "core q = q\<lparr>q_types := map type_core (q_types q)\<rparr>"

definition class_of :: "qom \<Rightarrow> nat \<Rightarrow> nat option" where
  "class_of q t = Option.bind (type_at q t) ti_class"

lemma type_core_sel [simp]:
  "ti_name (type_core ti) = ti_name ti" "ti_parent (type_core ti) = ti_parent ti" "ti_class (type_core ti) = ti_class ti"
  "ti_interfaces (type_core ti) = ti_interfaces ti"
  by (simp_all add: type_core_def)

lemma core_core:
  "tree (core q) = tree q" "class_at (core q) = class_at q" "class_of (core q) t = class_of q t"
  by (simp_all add: tree_def core_def class_at_def fun_eq_iff class_of_def type_at_def)

lemma core_sel:
  assumes "core q' = core q"
  shows "tree q' = tree q" "class_at q' = class_at q" "class_of q' t = class_of q t"
  using assms core_core by metis+

lemma map_same_upd: "(\<And>x. f (u x) = f x) \<Longrightarrow> map f (xs[t := u (xs ! t)]) = map f xs"
  by (cases "t < length xs") (simp_all add: map_update list_update_beyond, metis list_update_id nth_map)

lemma core_type_upd [simp]: "(\<And>ti. type_core (u ti) = type_core ti) \<Longrightarrow> core (type_upd t u q) = core q"
  by (simp add: core_def type_upd_def map_same_upd)

lemma type_at_upd:
  "type_at (type_upd t u q) t' = (if t' = t then map_option u (type_at q t) else type_at q t')"
  by (simp add: type_at_def type_upd_def)

subsection \<open>Walks\<close>

text \<open>A remembered parent is the right one.\<close>

definition parents_ok :: "qom \<Rightarrow> bool" where
  "parents_ok q \<longleftrightarrow> (\<forall>t ti p. type_at q t = Some ti \<longrightarrow> ti_parent_type ti = Some p \<longrightarrow> parent_id q t = Some p)"

lemma get_parent_root:
  "type_get_parent t q = Some (None, q') \<Longrightarrow> \<exists>ti. type_at q t = Some ti \<and> ti_parent ti = None"
  by (auto simp: type_get_parent_def bind_eq_Some_conv split: if_splits option.splits)

lemma get_parent_result:
  assumes "parents_ok q" and "type_get_parent t q = Some (r, q')"
  shows "r = parent_id q t \<and> core q' = core q \<and> parents_ok q'"
proof -
  obtain ti where ti: "type_at q t = Some ti" using assms(2) by (auto simp: type_get_parent_def bind_eq_Some_conv)
  show ?thesis
  proof (cases "ti_parent_type ti = None \<and> ti_parent ti \<noteq> None")
    case False
    then have "r = ti_parent_type ti" "q' = q" using assms(2) ti by (auto simp: type_get_parent_def)
    moreover have "ti_parent_type ti = parent_id q t"
    proof (cases "ti_parent_type ti")
      case None
      then show ?thesis using False ti by (simp add: parent_id_def)
    qed (use assms(1) ti in \<open>auto simp: parents_ok_def\<close>)
    ultimately show ?thesis using assms(1) by simp
  next
    case True
    then obtain p where p: "type_get_by_name (ti_parent ti) q = Some p" "r = Some p"
      "q' = type_upd t (\<lambda>ti. ti\<lparr>ti_parent_type := Some p\<rparr>) q"
      using assms(2) ti by (cases "type_get_by_name (ti_parent ti) q") (auto simp: type_get_parent_def)
    have id: "parent_id q t = Some p" using ti p(1) by (simp add: parent_id_def type_get_by_name_def)
    have c: "core q' = core q" unfolding p(3) by (rule core_type_upd) (simp add: type_core_def)
    then have "parents_ok q'"
      using assms(1) id tree_parent_id [OF core_sel(1) [OF c]] unfolding parents_ok_def by (auto simp: p(3) type_at_upd split: if_splits)
    then show ?thesis using id c p(2) by simp
  qed
qed

lemma chain_okE:
  assumes "chain_ok q t"
  obtains ti where "type_at q t = Some ti" "ti_parent ti = None" "parent_id q t = None"
  | ti p where "type_at q t = Some ti" "ti_parent ti \<noteq> None" "parent_id q t = Some p" "chain_ok q p"
  using assms by cases (auto simp: parent_id_def bind_eq_Some_conv)

lemma get_parent_returns:
  assumes "parents_ok q" and "chain_ok q t"
  shows "\<exists>q'. type_get_parent t q = Some (parent_id q t, q')"
proof -
  have "type_get_parent t q \<noteq> None"
    using assms(2)
    by (cases rule: chain_okE) (auto simp: type_get_parent_def type_get_by_name_def parent_id_def split: option.splits)
  then show ?thesis using get_parent_result [OF assms(1)] by fastforce
qed

lemma ancestor_loop_result:
  assumes "chain_ok q0 t" and "core q = core q0" and "parents_ok q"
  shows "\<exists>q'. ancestor_loop (Some t) u q = Some (descends q0 t u, q') \<and> core q' = core q0 \<and> parents_ok q'"
  using assms
proof (induction arbitrary: q)
  case (chain_root t ti)
  have "chain_ok q t" using chain_ok.chain_root [OF chain_root.hyps] core_sel(1) [OF chain_root.prems(1)] by (rule tree_chain)
  then obtain q' where q': "type_get_parent t q = Some (parent_id q t, q')" "core q' = core q" "parents_ok q'"
    using get_parent_returns get_parent_result chain_root.prems(2) by metis
  have "parent_id q t = None"
    using chain_root tree_parent_id [OF core_sel(1) [OF chain_root.prems(1)]] by (simp add: parent_id_def)
  then show ?case
    using q' chain_root tree_parent_id [OF core_sel(1) [OF chain_root.prems(1)], of t]
    by (auto simp: ancestor_loop.simps [of "Some t"] ancestor_loop.simps [of None] descends_iff [of q0 t])
next
  case (chain_step t p)
  have "chain_ok q t" using chain_ok.chain_step [OF chain_step.hyps] core_sel(1) [OF chain_step.prems(1)] by (rule tree_chain)
  then obtain q' where q': "type_get_parent t q = Some (parent_id q t, q')" "core q' = core q" "parents_ok q'"
    using get_parent_returns get_parent_result chain_step.prems(2) by metis
  have "parent_id q t = Some p" using chain_step.hyps(1) tree_parent_id [OF core_sel(1) [OF chain_step.prems(1)]] by simp
  moreover have "ancestor_loop (Some u) u q = Some (True, q)" by (simp add: ancestor_loop.simps [of "Some u"])
  ultimately show ?case
    using q' chain_step.IH [of q'] chain_step.prems chain_step.hyps(1)
    by (cases "t = u") (auto simp: ancestor_loop.simps [of "Some t"] descends_iff [of q0 t] descends_refl)
qed

subsection \<open>The invariant\<close>

text \<open>
  Strings at one address have one text.  A cached string names an ancestor of the type of its class; a
  class that is still being set up has no cached strings.
\<close>

definition str_ok :: "(nat \<Rightarrow> string) \<Rightarrow> cstring \<Rightarrow> bool" where
  "str_ok text_at str \<longleftrightarrow> cs_text str = text_at (cs_addr str)"

definition names_ok :: "(nat \<Rightarrow> string) \<Rightarrow> qom \<Rightarrow> bool" where
  "names_ok text_at q \<longleftrightarrow>
     (\<forall>t name ifaces. name_of q t = Some (name, ifaces) \<longrightarrow>
        str_ok text_at name \<and> type_table q (cs_text name) = Some t \<and> ifaces = [])"

definition cached :: "ObjectClass \<Rightarrow> cstring set" where
  "cached cl = {str. Some str \<in> set (object_cast_cache cl) \<union> set (class_cast_cache cl)}"

definition class_ok :: "(nat \<Rightarrow> string) \<Rightarrow> qom \<Rightarrow> nat \<Rightarrow> ObjectClass \<Rightarrow> bool" where
  "class_ok text_at q c cl \<longleftrightarrow>
     oc_interfaces cl = [] \<and>
     (oc_type cl = None \<longrightarrow> cached cl = {}) \<and>
     (\<forall>t. oc_type cl = Some t \<longrightarrow>
        class_of q t = Some c \<and> chain_ok q t \<and> (\<forall>str\<in>cached cl. str_ok text_at str \<and> is_a q t str))"

definition classes_ok :: "(nat \<Rightarrow> string) \<Rightarrow> qom \<Rightarrow> bool" where
  "classes_ok text_at q \<longleftrightarrow>
     (\<forall>c cl. class_at q c = Some cl \<longrightarrow> class_ok text_at q c cl) \<and>
     (\<forall>t c. class_of q t = Some c \<longrightarrow> (\<exists>cl. class_at q c = Some cl \<and> (oc_type cl = None \<or> oc_type cl = Some t))) \<and>
     (\<forall>t t' c. class_of q t = Some c \<longrightarrow> class_of q t' = Some c \<longrightarrow> t = t')"

definition qom_inv :: "(nat \<Rightarrow> string) \<Rightarrow> qom \<Rightarrow> bool" where
  "qom_inv text_at q \<longleftrightarrow> names_ok text_at q \<and> parents_ok q \<and> classes_ok text_at q"

text \<open>What the invariant looks at, besides the remembered parents; the walks and the callbacks leave it alone.\<close>

definition class_core :: "ObjectClass \<Rightarrow> ObjectClass" where
  "class_core cl = cl\<lparr>oc_body := []\<rparr>"

definition view :: "qom \<Rightarrow>
    ((string \<Rightarrow> nat option) \<times> (cstring \<times> string option \<times> string list) list) \<times> (nat \<Rightarrow> nat option) \<times> (nat \<Rightarrow> ObjectClass option)" where
  "view q = (tree q, class_of q, \<lambda>c. map_option class_core (class_at q c))"

lemma class_core_sel:
  "oc_type (class_core cl) = oc_type cl" "oc_interfaces (class_core cl) = oc_interfaces cl" "cached (class_core cl) = cached cl"
  by (simp_all add: class_core_def cached_def)

lemma core_view: "core q' = core q \<Longrightarrow> view q' = view q"
  using core_sel [of q' q] by (simp add: view_def fun_eq_iff)

lemma view_class:
  assumes "view q' = view q" and "class_at q' c = Some cl'"
  shows "\<exists>cl. class_at q c = Some cl \<and> oc_type cl' = oc_type cl \<and> oc_interfaces cl' = oc_interfaces cl \<and> cached cl' = cached cl"
proof -
  have "map_option class_core (class_at q' c) = map_option class_core (class_at q c)"
    using assms(1) by (simp add: view_def fun_eq_iff)
  then obtain cl where "class_at q c = Some cl" "class_core cl' = class_core cl" using assms(2) by (cases "class_at q c") auto
  then show ?thesis using class_core_sel by metis
qed

lemma view_tree: "view q' = view q \<Longrightarrow> tree q' = tree q" "view q' = view q \<Longrightarrow> class_of q' = class_of q"
  by (simp_all add: view_def)

lemma view_inv:
  assumes "qom_inv text_at q" and v: "view q' = view q" and "parents_ok q'"
  shows "qom_inv text_at q'"
proof -
  note tr = tree_views [OF view_tree(1) [OF v]] and cls = view_tree(2) [OF v]
  have "class_ok text_at q' c cl'" if "class_at q' c = Some cl'" for c cl'
    using view_class [OF v that] assms(1) unfolding qom_inv_def classes_ok_def class_ok_def tr cls by metis
  moreover have "\<exists>cl'. class_at q' c = Some cl' \<and> (oc_type cl' = None \<or> oc_type cl' = Some t)" if "class_of q' t = Some c" for t c
    using view_class [OF v [symmetric]] assms(1) that unfolding qom_inv_def classes_ok_def cls by metis
  moreover have "names_ok text_at q'" using assms(1) unfolding qom_inv_def names_ok_def tr by (elim conjE)
  moreover have "\<forall>t t' c. class_of q' t = Some c \<longrightarrow> class_of q' t' = Some c \<longrightarrow> t = t'"
    using assms(1) unfolding qom_inv_def classes_ok_def cls by (elim conjE)
  ultimately show ?thesis using assms(3) unfolding qom_inv_def classes_ok_def by blast
qed

lemma inv_class:
  assumes "qom_inv text_at q" and "class_at q c = Some cl"
  shows "class_ok text_at q c cl"
  using assms by (simp add: qom_inv_def classes_ok_def)

subsection \<open>Casts\<close>

lemma cast_result:
  assumes "qom_inv text_at q" and "class_at q c = Some cl" and "oc_type cl = Some t" and "str_ok text_at str"
  shows "\<exists>q'. object_class_dynamic_cast (Some c) str q = Some (if is_a q t str then Some c else None, q') \<and>
    core q' = core q \<and> parents_ok q'"
proof -
  have cl: "oc_interfaces cl = []" "chain_ok q t" "class_of q t = Some c"
    using inv_class [OF assms(1,2)] assms(3) by (simp_all add: class_ok_def)
  then obtain ti where ti: "type_at q t = Some ti" "ti_class ti = Some c" by (auto simp: class_of_def bind_eq_Some_conv)
  have nm: "str_ok text_at (ti_name ti)" "type_table q (cs_text (ti_name ti)) = Some t" "parents_ok q"
    using assms(1) ti(1) by (auto simp: qom_inv_def names_ok_def name_of_def)
  show ?thesis
  proof (cases "cs_addr (ti_name ti) = cs_addr str")
    case True
    then have "cs_text str = cs_text (ti_name ti)" using assms(4) nm(1) by (simp add: str_ok_def)
    then have "is_a q t str" using nm(2) by (auto simp: is_a_def descends_refl)
    then show ?thesis using assms(2,3) ti True nm(3) by (simp add: object_class_dynamic_cast_def)
  next
    case False
    note cast = object_class_dynamic_cast_def type_get_by_name_def type_is_ancestor_def is_a_def
    show ?thesis
    proof (cases "type_table q (cs_text str)")
      case None
      then show ?thesis using assms(2,3) ti False nm(3) by (simp add: cast)
    next
      case (Some u)
      obtain q' where "ancestor_loop (Some t) u q = Some (descends q t u, q')" "core q' = core q" "parents_ok q'"
        using ancestor_loop_result [OF cl(2) refl nm(3)] by blast
      then show ?thesis using assms(2,3) ti cl(1) False Some by (auto simp: cast)
    qed
  qed
qed

lemma class_upd_views:
  "tree (class_upd c u q) = tree q" "class_of (class_upd c u q) = class_of q" "parents_ok (class_upd c u q) \<longleftrightarrow> parents_ok q"
  "class_at (class_upd c u q) c' = (if c' = c then map_option u (class_at q c) else class_at q c')"
  by (simp_all add: tree_def class_of_def fun_eq_iff type_at_def class_at_def class_upd_def parents_ok_def parent_id_def)

text \<open>A class may be replaced by one with the type that owns it and good caches.\<close>

lemma replace_class:
  assumes "qom_inv text_at q" and "class_of q t = Some c" and "chain_ok q t"
    and "\<And>cl. class_at q c = Some cl \<Longrightarrow> oc_type (u cl) = Some t \<and> oc_interfaces (u cl) = [] \<and>
      (\<forall>str\<in>cached (u cl). str_ok text_at str \<and> is_a q t str)"
  shows "qom_inv text_at (class_upd c u q)"
proof -
  let ?q = "class_upd c u q"
  note tr = tree_views [OF class_upd_views(1) [of c u q]] class_upd_views(2) [of c u q]
  obtain cl where cl: "class_at q c = Some cl" using assms(1,2) unfolding qom_inv_def classes_ok_def by metis
  have own: "t' = t" if "class_of q t' = Some c" for t' using assms(1,2) that unfolding qom_inv_def classes_ok_def by metis
  have "class_ok text_at ?q c' cl'" if "class_at ?q c' = Some cl'" for c' cl'
  proof (cases "c' = c")
    case True
    then have "cl' = u cl" using that cl by (simp add: class_upd_views(4))
    then show ?thesis using assms(2,3) assms(4) [OF cl] True unfolding class_ok_def tr by simp
  next
    case False
    then have "class_at q c' = Some cl'" using that by (simp add: class_upd_views(4))
    then show ?thesis using inv_class [OF assms(1)] unfolding class_ok_def tr by blast
  qed
  moreover have "\<exists>cl'. class_at ?q c' = Some cl' \<and> (oc_type cl' = None \<or> oc_type cl' = Some t')" if "class_of ?q t' = Some c'" for t' c'
    using that assms(1) own cl assms(4) [OF cl] unfolding tr qom_inv_def classes_ok_def
    by (cases "c' = c") (auto simp: class_upd_views(4))
  moreover have "names_ok text_at ?q" using assms(1) unfolding qom_inv_def names_ok_def tr by (elim conjE)
  moreover have "parents_ok ?q" using assms(1) by (simp add: qom_inv_def class_upd_views(3))
  moreover have "\<forall>t t' c. class_of ?q t = Some c \<longrightarrow> class_of ?q t' = Some c \<longrightarrow> t = t'"
    using assms(1) unfolding qom_inv_def classes_ok_def tr by (elim conjE)
  ultimately show ?thesis unfolding qom_inv_def classes_ok_def by blast
qed

lemma cached_push: "cached (cl\<lparr>object_cast_cache := push_cache str (object_cast_cache cl)\<rparr>) \<subseteq> insert str (cached cl)"
  by (auto simp: cached_def push_cache_def dest: list.set_sel(2) [rotated]) (metis empty_iff list.sel(2) list.set(1) list.set_sel(2))+

lemma cast_assert_result:
  assumes "qom_inv text_at q" and "class_at q c = Some cl" and "oc_type cl = Some t" and "str_ok text_at str" and "ob_class ob = Some c"
  shows "\<exists>q'. object_dynamic_cast_assert True (Some ob) str q = (if is_a q t str then Some (Some ob, q') else None) \<and>
    qom_inv text_at q'"
proof (cases "in_cache str (object_cast_cache cl)")
  case True
  then obtain s where s: "s \<in> cached cl" "cs_addr s = cs_addr str"
    by (auto simp: in_cache_def list_ex_iff cached_def split: option.splits)
  then have "str_ok text_at s" "is_a q t s" using inv_class [OF assms(1,2)] assms(3) by (auto simp: class_ok_def)
  then have "is_a q t str" using s(2) assms(4) by (simp add: is_a_def str_ok_def)
  then show ?thesis using assms True by (auto simp: object_dynamic_cast_assert_def)
next
  case False
  obtain q1 where q1: "object_class_dynamic_cast (Some c) str q = Some (if is_a q t str then Some c else None, q1)"
    "core q1 = core q" "parents_ok q1"
    using cast_result [OF assms(1-4)] by blast
  define u where "u = (\<lambda>cl :: ObjectClass. cl\<lparr>object_cast_cache := push_cache str (object_cast_cache cl)\<rparr>)"
  have inv1: "qom_inv text_at q1" using view_inv [OF assms(1) core_view [OF q1(2)] q1(3)] .
  have cl1: "class_at q1 c = Some cl" using assms(2) core_sel(2) [OF q1(2)] by simp
  have ok: "class_ok text_at q1 c cl" by (rule inv_class [OF inv1 cl1])
  have "qom_inv text_at (class_upd c u q1)" if "is_a q t str"
  proof (rule replace_class [OF inv1])
    show "class_of q1 t = Some c" "chain_ok q1 t" using ok assms(3) by (simp_all add: class_ok_def)
    fix cl' assume "class_at q1 c = Some cl'"
    then show "oc_type (u cl') = Some t \<and> oc_interfaces (u cl') = [] \<and> (\<forall>str\<in>cached (u cl'). str_ok text_at str \<and> is_a q1 t str)"
      using cl1 ok assms(3,4) that cached_push [of str cl] tree_views(4) [OF core_sel(1) [OF q1(2)]]
      by (auto simp: u_def class_ok_def)
  qed
  then show ?thesis
    using False assms(1,2,5) q1(1) u_def inv1
    by (auto simp: object_dynamic_cast_assert_def object_dynamic_cast_def object_get_class_def)
qed

subsection \<open>Initialization\<close>

lemma class_size_walk: "type_class_get_size t q = Some (sz, q') \<Longrightarrow> parents_ok q \<Longrightarrow> core q' = core q \<and> parents_ok q'"
proof (induction t q "(sz, q')" arbitrary: sz q' rule: type_class_get_size.raw_induct [rotated 1, consumes 1])
  case (1 rec t q)
  from 1(2,3) show ?case
    by (auto simp: bind_eq_Some_conv split: if_splits option.splits dest!: get_parent_result [OF 1(3)] 1(1))
qed

lemma object_size_walk: "type_object_get_size t q = Some (sz, q') \<Longrightarrow> parents_ok q \<Longrightarrow> core q' = core q \<and> parents_ok q'"
proof (induction t q "(sz, q')" arbitrary: sz q' rule: type_object_get_size.raw_induct [rotated 1, consumes 1])
  case (1 rec t q)
  from 1(2,3) show ?case
    by (auto simp: bind_eq_Some_conv split: if_splits option.splits dest!: get_parent_result [OF 1(3)] 1(1))
qed

lemma hook_view:
  assumes "run_class_hook hook t c q = Some q'"
  shows "view q' = view q \<and> (parents_ok q' \<longleftrightarrow> parents_ok q)"
proof -
  have "view (class_upd c (\<lambda>cl. cl\<lparr>oc_body := h (oc_body cl)\<rparr>) q) = view q" for h
    by (auto simp: view_def class_upd_views fun_eq_iff option.map_comp class_core_def intro!: option.map_cong)
  then show ?thesis using assms by (auto simp: run_class_hook_def class_upd_views(3) split: option.splits)
qed

lemma base_init_walk:
  "base_init_loop parent c q = Some q' \<Longrightarrow> parents_ok q \<Longrightarrow>
     view q' = view q \<and> parents_ok q' \<and> (\<forall>p. parent = Some p \<longrightarrow> chain_ok q p)"
proof (induction parent c q q' rule: base_init_loop.raw_induct [rotated 1, consumes 1])
  case (1 rec parent c q q')
  show ?case
  proof (cases parent)
    case (Some p)
    then obtain q1 r q2 where q: "run_class_hook ti_class_base_init p c q = Some q1" "type_get_parent p q1 = Some (r, q2)"
      "rec r c q2 = Some q'"
      using 1(2) by (auto simp: bind_eq_Some_conv)
    have q1: "view q1 = view q" "parents_ok q1" using hook_view [OF q(1)] 1(3) by simp_all
    have q2: "r = parent_id q1 p" "core q2 = core q1" "parents_ok q2" using get_parent_result [OF q1(2) q(2)] by simp_all
    note rest = 1(1) [OF q(3) q2(3)]
    have "chain_ok q1 p"
    proof (cases r)
      case None
      then show ?thesis using get_parent_root q(2) by (metis chain_ok.chain_root)
    next
      case (Some p')
      then have "chain_ok q1 p'" using rest tree_views(2) [OF core_sel(1) [OF q2(2)]] by simp
      then show ?thesis using Some q2(1) chain_ok.chain_step by metis
    qed
    then have "chain_ok q p" using tree_views(2) [OF view_tree(1) [OF q1(1)]] by simp
    then show ?thesis using Some rest q1(1) core_view [OF q2(2)] by simp
  qed (use 1(2,3) in simp)
qed

text \<open>Initialization adds classes, and leaves what was there.\<close>

definition grows :: "qom \<Rightarrow> qom \<Rightarrow> bool" where
  "grows q q' \<longleftrightarrow>
     tree q' = tree q \<and> (\<forall>t c. class_of q t = Some c \<longrightarrow> class_of q' t = Some c) \<and>
     (\<forall>c cl. class_at q c = Some cl \<longrightarrow> map_option class_core (class_at q' c) = Some (class_core cl))"

lemma grows_trans:
  assumes "grows q q1" and "grows q1 q2"
  shows "grows q q2"
proof -
  have "map_option class_core (class_at q2 c) = Some (class_core cl)" if at: "class_at q c = Some cl" for c cl
  proof -
    have "map_option class_core (class_at q1 c) = Some (class_core cl)" using assms(1) at unfolding grows_def by blast
    then obtain cl1 where "class_at q1 c = Some cl1" "class_core cl1 = class_core cl" by auto
    then show ?thesis using assms(2) unfolding grows_def by metis
  qed
  then show ?thesis using assms by (simp add: grows_def)
qed

lemma view_grows: "view q' = view q \<Longrightarrow> grows q q'"
  by (auto simp: view_def grows_def fun_eq_iff)

lemma grows_class_upd: "grows q q1 \<Longrightarrow> class_at q c = None \<Longrightarrow> grows q (class_upd c u q1)"
  by (auto simp: grows_def class_upd_views)

text \<open>A class for a type that has none.\<close>

lemma fresh_class:
  fixes q sz t c
  defines "c \<equiv> length (q_classes q)"
  defines "q' \<equiv> type_upd t (\<lambda>ti. ti\<lparr>ti_class := Some c\<rparr>) (snd (new_class sz q))"
  assumes inv: "qom_inv text_at q" and t: "type_at q t = Some ti" "ti_class ti = None"
  shows "qom_inv text_at q'" and "grows q q'" and "class_of q' t = Some c"
    and "\<exists>cl. class_at q' c = Some cl \<and> oc_type cl = None"
proof -
  have tr: "tree q' = tree q"
    by (simp add: tree_def q'_def new_class_def type_upd_def map_same_upd)
  have "type_at (snd (new_class sz q)) t' = type_at q t'" for t' by (simp add: new_class_def type_at_def)
  then have ty: "type_at q' t' = (if t' = t then Some (ti\<lparr>ti_class := Some c\<rparr>) else type_at q t')" for t'
    using t(1) by (simp add: q'_def type_at_upd)
  have cls: "class_of q' t' = (if t' = t then Some c else class_of q t')" for t' by (simp add: class_of_def ty)
  define cl where "cl = \<lparr>oc_type = None, oc_interfaces = [], object_cast_cache = replicate OBJECT_CLASS_CAST_CACHE None,
    class_cast_cache = replicate OBJECT_CLASS_CAST_CACHE None, oc_body = replicate (sz - 80) 0, oc_concrete = None\<rparr>"
  have at: "class_at q' c' = (if c' = c then Some cl else class_at q c')" for c'
    by (auto simp: class_at_def q'_def type_upd_def new_class_def c_def nth_append cl_def)
  have cl: "oc_type cl = None" "oc_interfaces cl = []" "cached cl = {}" by (simp_all add: cl_def cached_def)
  have none: "class_at q c = None" by (simp add: class_at_def c_def)
  have none_t: "class_of q t = None" using t by (simp add: class_of_def)
  note views = tree_views [OF tr]
  have low: "c' \<noteq> c" if "class_of q t' = Some c'" for t' c'
    using inv that none unfolding qom_inv_def classes_ok_def by (metis option.distinct(1))
  have "class_ok text_at q' c' cl'" if "class_at q' c' = Some cl'" for c' cl'
    using that cl inv_class [OF inv, of c' cl'] none_t unfolding at class_ok_def views cls by (auto split: if_splits)
  moreover have "\<exists>cl'. class_at q' c' = Some cl' \<and> (oc_type cl' = None \<or> oc_type cl' = Some t')" if "class_of q' t' = Some c'" for t' c'
    using that inv cl low unfolding cls at qom_inv_def classes_ok_def by (auto split: if_splits)
  moreover have "names_ok text_at q'" using inv unfolding qom_inv_def names_ok_def views by (elim conjE)
  moreover have "parents_ok q'"
    using inv t(1) tree_parent_id [OF tr] unfolding qom_inv_def parents_ok_def by (simp add: ty)
  moreover have "\<forall>t1 t2 c'. class_of q' t1 = Some c' \<longrightarrow> class_of q' t2 = Some c' \<longrightarrow> t1 = t2"
    using inv low unfolding cls qom_inv_def classes_ok_def by (auto split: if_splits)
  ultimately show "qom_inv text_at q'" unfolding qom_inv_def classes_ok_def by blast
  show "grows q q'" using tr none_t none by (auto simp: grows_def cls at)
  show "class_of q' t = Some c" "\<exists>cl. class_at q' c = Some cl \<and> oc_type cl = None" using cls at cl by auto
qed

lemma size_upd:
  assumes "\<And>ti. type_core (u ti) = type_core ti" and "\<And>ti. ti_parent_type (u ti) = ti_parent_type ti" and "parents_ok q"
  shows "core (type_upd t u q) = core q \<and> parents_ok (type_upd t u q)"
proof -
  have c: "core (type_upd t u q) = core q" using assms(1) by (rule core_type_upd)
  then show ?thesis
    using assms(2,3) tree_parent_id [OF core_sel(1) [OF c]] by (auto simp: parents_ok_def type_at_upd split: if_splits)
qed

text \<open>The sizes of a type and its empty class.\<close>

lemma init_class:
  assumes "qom_inv text_at q" and "type_at q t = Some ti" and "ti_class ti = None"
    and "type_class_get_size t q = Some (csz, q1)"
    and "type_object_get_size t (type_upd t (\<lambda>ti. ti\<lparr>ti_class_size := csz\<rparr>) q1) = Some (isz, q2)"
    and "new_class csz (type_upd t (\<lambda>ti. ti\<lparr>ti_instance_size := isz\<rparr>) q2) = (c, q3)"
    and "type_get_parent t (type_upd t (\<lambda>ti. ti\<lparr>ti_class := Some c\<rparr>) q3) = Some (parent, q4)"
  shows "qom_inv text_at q4 \<and> grows q q4 \<and> class_of q4 t = Some c \<and> parent = parent_id q4 t \<and> class_at q c = None \<and>
    (\<exists>cl. class_at q4 c = Some cl \<and> oc_type cl = None) \<and> (parent = None \<longrightarrow> chain_ok q4 t)"
proof -
  let ?q2 = "type_upd t (\<lambda>ti. ti\<lparr>ti_instance_size := isz\<rparr>) q2"
  have ok: "parents_ok q" using assms(1) by (simp add: qom_inv_def)
  have 1: "core q1 = core q" "parents_ok q1" using class_size_walk [OF assms(4) ok] by simp_all
  have "core (type_upd t (\<lambda>ti. ti\<lparr>ti_class_size := csz\<rparr>) q1) = core q1 \<and> parents_ok (type_upd t (\<lambda>ti. ti\<lparr>ti_class_size := csz\<rparr>) q1)"
    by (rule size_upd) (simp_all add: type_core_def 1)
  then have 2: "core q2 = core q" "parents_ok q2" using object_size_walk [OF assms(5)] 1 by simp_all
  have "core ?q2 = core q2 \<and> parents_ok ?q2" by (rule size_upd) (simp_all add: type_core_def 2)
  then have c: "core ?q2 = core q" and p: "parents_ok ?q2" using 2 by simp_all
  have inv: "qom_inv text_at ?q2" by (rule view_inv [OF assms(1) core_view [OF c] p])
  obtain ti2 where ti2: "type_at ?q2 t = Some ti2" using tree_at [OF core_sel(1) [OF c] assms(2)] by blast
  moreover have "class_of ?q2 t = None" using core_sel(3) [OF c, of t] assms(2,3) by (simp add: class_of_def)
  ultimately have none: "ti_class ti2 = None" by (simp add: class_of_def)
  have new: "c = length (q_classes ?q2)" "q3 = snd (new_class csz ?q2)" using assms(6) by (auto simp: new_class_def)
  let ?q3 = "type_upd t (\<lambda>ti. ti\<lparr>ti_class := Some c\<rparr>) q3"
  note fresh = fresh_class [OF inv ti2 none, of csz, folded new]
  have r: "parent = parent_id ?q3 t" "core q4 = core ?q3" "parents_ok q4"
    using get_parent_result [OF _ assms(7)] fresh(1) by (simp_all add: qom_inv_def)
  have "class_at ?q2 c = None" by (simp add: class_at_def new(1))
  then have "class_at q c = None" using core_sel(2) [OF c] by simp
  moreover note v = core_view [OF r(2)] and tr = core_sel(1) [OF r(2)]
  moreover have "grows q q4" using view_grows [OF core_view [OF c]] fresh(2) view_grows [OF v] grows_trans by blast
  moreover have "parent = None \<longrightarrow> chain_ok q4 t"
    using get_parent_root [of t ?q3 q4] assms(7) tree_views(2) [OF tr] chain_root by metis
  ultimately show ?thesis
    using view_inv [OF fresh(1) v r(3)] core_sel(2,3) [OF r(2)] fresh(3,4) r(1) tree_parent_id [OF tr] by simp
qed

text \<open>
  The class of a child starts as a copy of the parent's: what the parent has cached, the child may be
  cast to as well.
\<close>

lemma inherit_inv:
  assumes inv: "qom_inv text_at q" and "class_of q t = Some c" and "parent_id q t = Some p" and "inherit_class t p c q = Some q'"
  obtains v where "q' = class_upd c v q" "\<And>cl. oc_interfaces (v cl) = []"
    "chain_ok q p \<Longrightarrow> qom_inv text_at (class_upd c (\<lambda>cl. (v cl)\<lparr>oc_type := Some t\<rparr>) q)"
proof -
  obtain pi cp pc where pc: "type_at q p = Some pi" "ti_class pi = Some cp" "class_at q cp = Some pc"
    "q' = class_upd c (\<lambda>cl. pc\<lparr>oc_interfaces := [], oc_body := oc_body pc @ drop (length (oc_body pc)) (oc_body cl)\<rparr>) q"
    using assms(4) by (auto simp: inherit_class_def bind_eq_Some_conv split: if_splits)
  have ok: "class_ok text_at q cp pc" by (rule inv_class [OF inv pc(3)])
  have "oc_type pc = None \<or> oc_type pc = Some p"
    using inv pc(1-3) unfolding qom_inv_def classes_ok_def class_of_def by (metis bind.bind_lunit option.inject)
  then have cached: "\<forall>str\<in>cached pc. str_ok text_at str \<and> is_a q t str"
    using ok descends_step [OF assms(3)] unfolding class_ok_def is_a_def by blast
  have "qom_inv text_at (class_upd c (\<lambda>cl. (pc\<lparr>oc_interfaces := [], oc_body := oc_body pc @ drop (length (oc_body pc)) (oc_body cl)\<rparr>)
      \<lparr>oc_type := Some t\<rparr>) q)" if "chain_ok q p"
    using cached by (intro replace_class [OF inv assms(2) chain_step [OF assms(3) that]]) (simp add: cached_def)
  then show ?thesis using that pc(4) by simp
qed

lemma class_upd_twice: "class_upd c u (class_upd c v q) = class_upd c (\<lambda>cl. u (v cl)) q"
  by (cases "c < length (q_classes q)") (simp_all add: class_upd_def list_update_beyond)

lemma from_parent_inv:
  assumes IH: "\<And>t q q'. init t q = Some q' \<Longrightarrow> qom_inv text_at q \<Longrightarrow> qom_inv text_at q' \<and> grows q q'"
    and q: "qom_inv text_at q" "class_of q t = Some c" "parent = parent_id q t" "parent = None \<Longrightarrow> chain_ok q t"
      "\<exists>cl. class_at q c = Some cl \<and> oc_type cl = None"
    and init: "init_from_parent init t c [] parent q = Some q1"
    and base: "base_init_loop parent c (class_upd c u q1) = Some q2"
    and u: "u = (\<lambda>cl. cl\<lparr>oc_type := Some t\<rparr>)"
  shows "qom_inv text_at (class_upd c u q1) \<and> (\<forall>q0. grows q0 q \<longrightarrow> class_at q0 c = None \<longrightarrow> grows q0 (class_upd c u q1))"
proof (cases parent)
  case None
  then have "q1 = q" using init by (simp add: init_from_parent_def)
  moreover have "qom_inv text_at (class_upd c u q)"
    using q(5) inv_class [OF q(1)] by (intro replace_class [OF q(1,2) q(4) [OF None]]) (auto simp: u class_ok_def cached_def)
  ultimately show ?thesis using grows_class_upd by simp
next
  case (Some p)
  then obtain r r' where r: "init p q = Some r" "inherit_class t p c r = Some r'"
    using init by (auto simp: init_from_parent_def bind_eq_Some_conv)
  have inv: "qom_inv text_at r" "grows q r" using IH [OF r(1) q(1)] by simp_all
  then have tr: "tree r = tree q" and t1: "class_of r t = Some c" using q(2) by (simp_all add: grows_def)
  have t2: "parent_id r t = Some p" using q(3) Some tree_parent_id [OF tr, of t] by simp
  from inherit_inv [OF inv(1) t1 t2 r(2)] obtain v where v: "r' = class_upd c v r" "\<And>cl. oc_interfaces (v cl) = []"
    "chain_ok r p \<Longrightarrow> qom_inv text_at (class_upd c (\<lambda>cl. u (v cl)) r)" unfolding u by blast
  have "oc_interfaces pc = []" if "class_at r' cp = Some pc" for cp pc
    using that v(1,2) inv_class [OF inv(1)] by (auto simp: class_upd_views(4) class_ok_def split: if_splits)
  then have "q1 = class_upd c v r"
    using init Some r v(1) by (auto simp: init_from_parent_def bind_eq_Some_conv)
  then have uu: "class_upd c u q1 = class_upd c (\<lambda>cl. u (v cl)) r" by (simp add: class_upd_twice)
  have "parents_ok (class_upd c u q1)" using inv(1) by (simp add: uu class_upd_views(3) qom_inv_def)
  then have "chain_ok (class_upd c u q1) p" using base_init_walk [OF base] Some by simp
  then have "chain_ok r p" unfolding uu using tree_views(2) [OF class_upd_views(1)] by blast
  then show ?thesis unfolding uu using v(3) grows_class_upd grows_trans [OF _ inv(2)] by blast
qed

lemma type_initialize_inv:
  "type_initialize t q = Some q' \<Longrightarrow> qom_inv text_at q \<Longrightarrow> qom_inv text_at q' \<and> grows q q'"
proof (induction t q q' rule: type_initialize.raw_induct [rotated 1, consumes 1])
  case (1 rec t q q')
  obtain ti where ti: "type_at q t = Some ti" using 1(2) by (auto simp: bind_eq_Some_conv)
  have ifs: "ti_interfaces ti = []" using 1(3) ti by (auto simp: qom_inv_def names_ok_def name_of_def)
  show ?case
  proof (cases "ti_class ti = None")
    case False
    then show ?thesis using 1(2,3) ti view_grows by auto
  next
    case True
    define u where "u = (\<lambda>cl :: ObjectClass. cl\<lparr>oc_type := Some t\<rparr>)"
    obtain csz q1 where 2: "type_class_get_size t q = Some (csz, q1)"
      using 1(2) ti True by (cases "type_class_get_size t q") auto
    define r1 where "r1 = type_upd t (\<lambda>ti. ti\<lparr>ti_class_size := csz\<rparr>) q1"
    obtain isz q2 where 3: "type_object_get_size t r1 = Some (isz, q2)"
      using 1(2) ti True 2 by (cases "type_object_get_size t r1") (auto simp: r1_def)
    define r2 where "r2 = type_upd t (\<lambda>ti. ti\<lparr>ti_instance_size := isz\<rparr>) q2"
    obtain c q3 where 4: "new_class csz r2 = (c, q3)" by (cases "new_class csz r2")
    define r3 where "r3 = type_upd t (\<lambda>ti. ti\<lparr>ti_class := Some c\<rparr>) q3"
    obtain parent q4 where 5: "type_get_parent t r3 = Some (parent, q4)"
      using 1(2) ti True 2 3 4 by (cases "type_get_parent t r3") (auto simp: r1_def r2_def r3_def)
    obtain q5 q6 where st: "init_from_parent rec t c [] parent q4 = Some q5"
        "base_init_loop parent c (class_upd c u q5) = Some q6" "run_class_hook ti_class_init t c q6 = Some q'"
      using 1(2) ti True ifs 2 3 4 5 by (auto simp: r1_def r2_def r3_def u_def bind_eq_Some_conv)
    note q4 = init_class [OF 1(3) ti True 2 3 [unfolded r1_def] 4 [unfolded r2_def] 5 [unfolded r3_def]]
    have "qom_inv text_at (class_upd c u q5) \<and> (\<forall>q0. grows q0 q4 \<longrightarrow> class_at q0 c = None \<longrightarrow> grows q0 (class_upd c u q5))"
      by (rule from_parent_inv [OF 1(1) _ _ _ _ _ st(1,2) u_def]) (assumption | use q4 in blast)+
    then have q5: "qom_inv text_at (class_upd c u q5)" "grows q (class_upd c u q5)" using q4 by blast+
    have "view q6 = view (class_upd c u q5)" "parents_ok q6"
      using base_init_walk [OF st(2)] q5(1) by (simp_all add: qom_inv_def)
    then have "view q' = view (class_upd c u q5)" "parents_ok q'" using hook_view [OF st(3)] by simp_all
    then show ?thesis using view_inv [OF q5(1)] grows_trans [OF q5(2) view_grows] by blast
  qed
qed

subsection \<open>All reachable states\<close>

lemma register_inv:
  assumes "qom_inv text_at q" and "type_register_internal info q = Some (t, q')" and "tf_interfaces info = []"
    and "text_at (q_strings q) = tf_name info"
  shows "qom_inv text_at q'"
proof -
  have new: "type_table q (tf_name info) = None" and t: "t = length (q_types q)"
    using assms(2) by (auto simp: type_register_internal_def Let_def split: if_splits)
  obtain ti where ti: "q' = q\<lparr>q_types := q_types q @ [ti], type_table := (type_table q)(tf_name info \<mapsto> t), q_strings := q_strings q + 1\<rparr>"
    "ti_name ti = \<lparr>cs_addr = q_strings q, cs_text = tf_name info\<rparr>" "ti_class ti = None" "ti_parent_type ti = None"
    "ti_interfaces ti = []"
    using assms(2,3) by (auto simp: type_register_internal_def Let_def split: if_splits)
  have at: "type_at q' t' = (if t' = t then Some ti else type_at q t')" for t'
    by (auto simp: type_at_def ti(1) t nth_append)
  have none: "type_at q t = None" by (simp add: type_at_def t)
  then have old: "type_at q' t' = Some ti'" if "type_at q t' = Some ti'" for t' ti' using that by (auto simp: at)
  have tab: "type_table q' nm = Some u" if "type_table q nm = Some u" for nm u using that new by (auto simp: ti(1))
  have par: "parent_id q' t' = Some p" if "parent_id q t' = Some p" for t' p
    using that none tab by (auto simp: parent_id_def at bind_eq_Some_conv)
  have desc: "descends q' t' u" if "descends q t' u" for t' u by (rule descends_mono [OF that par])
  have chain: "chain_ok q' t'" if "chain_ok q t'" for t'
    using that by induction (blast intro: chain_ok.intros par old)+
  have cls: "class_of q' t' = class_of q t'" "class_at q' = class_at q" for t'
    using none ti(3) by (simp_all add: class_of_def at) (simp add: class_at_def ti(1) fun_eq_iff)
  have "class_ok text_at q' c cl" if "class_ok text_at q c cl" for c cl
    using that chain desc tab unfolding class_ok_def cls is_a_def by blast
  then have "classes_ok text_at q'" using assms(1) unfolding qom_inv_def classes_ok_def cls by blast
  moreover have "names_ok text_at q'"
    unfolding names_ok_def
  proof (intro allI impI)
    fix t' name ifaces assume nm: "name_of q' t' = Some (name, ifaces)"
    show "str_ok text_at name \<and> type_table q' (cs_text name) = Some t' \<and> ifaces = []"
    proof (cases "t' = t")
      case True
      then have "name = ti_name ti" "ifaces = []" using nm ti(5) by (simp_all add: name_of_def at)
      then show ?thesis using True assms(4) by (simp add: ti(2) str_ok_def) (simp add: ti(1))
    next
      case False
      then have "name_of q t' = Some (name, ifaces)" using nm by (simp add: name_of_def at)
      then show ?thesis using assms(1) tab unfolding qom_inv_def names_ok_def by blast
    qed
  qed
  moreover have "parents_ok q'"
    using assms(1) par ti(4) unfolding qom_inv_def parents_ok_def by (auto simp: at split: if_splits)
  ultimately show ?thesis by (simp add: qom_inv_def)
qed

lemma object_init_walk: "object_init_with_type t obj q = Some (obj', q') \<Longrightarrow> parents_ok q \<Longrightarrow> core q' = core q \<and> parents_ok q'"
proof (induction t obj q "(obj', q')" arbitrary: obj' q' rule: object_init_with_type.raw_induct [rotated 1, consumes 1])
  case (1 rec t obj q)
  from 1(2,3) show ?case
    by (auto simp: bind_eq_Some_conv split: if_splits option.splits dest!: get_parent_result [OF 1(3)] 1(1))
qed

lemma object_post_init_walk:
  "object_post_init_with_type t obj q = Some (obj', q') \<Longrightarrow> parents_ok q \<Longrightarrow> core q' = core q \<and> parents_ok q'"
proof (induction t obj q "(obj', q')" arbitrary: obj' q' rule: object_post_init_with_type.raw_induct [rotated 1, consumes 1])
  case (1 rec t obj q)
  from 1(2,3) show ?case
    by (auto simp: bind_eq_Some_conv Let_def split: if_splits option.splits dest!: get_parent_result [OF 1(3)] 1(1))
qed

lemma object_initialize_inv:
  assumes "qom_inv text_at q" and "object_initialize_with_type sz ty q = Some (ob, q')"
  shows "qom_inv text_at q'"
proof -
  obtain t q1 body0 body1 q2 body2 where q: "type_initialize t q = Some q1" "object_init_with_type t body0 q1 = Some (body1, q2)"
    "object_post_init_with_type t body1 q2 = Some (body2, q')"
    using assms(2) by (auto simp: object_initialize_with_type_def bind_eq_Some_conv split: option.splits if_splits)
  have inv: "qom_inv text_at q1" using type_initialize_inv [OF q(1) assms(1)] by simp
  then have 1: "core q2 = core q1 \<and> parents_ok q2" using object_init_walk [OF q(2)] by (simp add: qom_inv_def)
  then have "core q' = core q1" "parents_ok q'" using object_post_init_walk [OF q(3)] by simp_all
  then show ?thesis using view_inv [OF inv] core_view by blast
qed

text \<open>
  The states of a program that registers types without interfaces, creates objects and casts; \<open>text_at\<close> is
  the text at the address of a string.
\<close>

inductive qom_run :: "(nat \<Rightarrow> string) \<Rightarrow> qom \<Rightarrow> bool" for text_at where
  run_start: "text_at n = ''interface'' \<Longrightarrow> text_at (n + 1) = ''object'' \<Longrightarrow>
    register_types \<lparr>q_types = [], q_classes = [], type_table = Map.empty, type_interface = None, q_strings = n\<rparr> = Some q \<Longrightarrow>
    qom_run text_at q"
| run_register: "qom_run text_at q \<Longrightarrow> tf_interfaces info = [] \<Longrightarrow> text_at (q_strings q) = tf_name info \<Longrightarrow>
    type_register info q = Some (t, q') \<Longrightarrow> qom_run text_at q'"
| run_class: "qom_run text_at q \<Longrightarrow> object_class_by_name typename q = Some (cls, q') \<Longrightarrow> qom_run text_at q'"
| run_new: "qom_run text_at q \<Longrightarrow> object_new typename q = Some (ob, q') \<Longrightarrow> qom_run text_at q'"
| run_cast: "qom_run text_at q \<Longrightarrow> str_ok text_at str \<Longrightarrow> ob_class ob = Some c \<Longrightarrow> class_at q c = Some cl \<Longrightarrow>
    object_dynamic_cast_assert debug (Some ob) str q = Some (res, q') \<Longrightarrow> qom_run text_at q'"

lemma empty_inv: "qom_inv text_at \<lparr>q_types = [], q_classes = [], type_table = Map.empty, type_interface = None, q_strings = n\<rparr>"
  by (simp add: qom_inv_def names_ok_def parents_ok_def classes_ok_def name_of_def class_of_def type_at_def class_at_def)

lemma interface_inv: "qom_inv text_at (q\<lparr>type_interface := i\<rparr>) \<longleftrightarrow> qom_inv text_at q"
proof -
  have "view (q\<lparr>type_interface := i\<rparr>) = view q" "parents_ok (q\<lparr>type_interface := i\<rparr>) = parents_ok q"
    by (simp_all add: view_def tree_def class_of_def type_at_def class_at_def fun_eq_iff parents_ok_def parent_id_def)
  then show ?thesis using view_inv by (metis qom_inv_def)
qed

lemma run_inv:
  assumes "qom_run text_at q"
  shows "qom_inv text_at q"
  using assms
proof induction
  case (run_start n q)
  obtain t q1 t2 where r: "type_register_internal
       \<lparr>tf_name = ''interface'', tf_parent = None, tf_instance_size = 0, tf_instance_init = None,
        tf_instance_post_init = None, tf_instance_finalize = None, tf_abstract = True,
        tf_class_size = INTERFACE_CLASS_SIZE, tf_class_init = None, tf_class_base_init = None,
        tf_interfaces = []\<rparr> \<lparr>q_types = [], q_classes = [], type_table = Map.empty, type_interface = None, q_strings = n\<rparr> = Some (t, q1)"
    "type_register_internal
       \<lparr>tf_name = ''object'', tf_parent = None, tf_instance_size = OBJECT_SIZE,
        tf_instance_init = Some (\<lambda>b. b), tf_instance_post_init = None, tf_instance_finalize = None,
        tf_abstract = True, tf_class_size = 0, tf_class_init = None, tf_class_base_init = None,
        tf_interfaces = []\<rparr> (q1\<lparr>type_interface := Some t\<rparr>) = Some (t2, q)"
    using run_start(3) by (auto simp: register_types_def bind_eq_Some_conv Let_def)
  have "qom_inv text_at q1" using run_start(1) by (intro register_inv [OF empty_inv r(1)]) simp_all
  moreover have "q_strings q1 = n + 1" using r(1) by (auto simp: type_register_internal_def Let_def)
  ultimately show ?case using run_start(2) by (intro register_inv [OF _ r(2)]) (simp_all add: interface_inv)
next
  case (run_register q info t q')
  then show ?case using register_inv by (auto simp: type_register_def split: if_splits)
next
  case (run_class q typename cls q')
  then show ?case
    using type_initialize_inv by (auto simp: object_class_by_name_def bind_eq_Some_conv split: option.splits)
next
  case (run_new q typename ob q')
  obtain t q1 sz where "type_initialize t q = Some q1" "object_initialize_with_type sz (Some t) q1 = Some (ob, q')"
    using run_new.hyps(2) by (auto simp: object_new_def object_new_with_type_def bind_eq_Some_conv split: option.splits)
  then show ?case using type_initialize_inv [OF _ run_new.IH] object_initialize_inv by blast
next
  case (run_cast q str ob c cl debug res q')
  show ?case
  proof (cases "debug \<and> oc_type cl \<noteq> None")
    case True
    then show ?thesis using run_cast cast_assert_result [OF run_cast.IH run_cast.hyps(4) _ run_cast.hyps(2,3)] by (auto split: if_splits)
  next
    case False
    have "q' = q" if "oc_type cl = None" "debug"
    proof -
      have "cached cl = {}" using inv_class [OF run_cast.IH run_cast.hyps(4)] that(1) by (simp add: class_ok_def)
      then have "\<not> in_cache str (object_cast_cache cl)"
        by (auto simp: in_cache_def list_ex_iff cached_def split: option.splits)
      then show ?thesis
        using run_cast.hyps(3-5) that by (simp add: object_dynamic_cast_assert_def object_dynamic_cast_def object_get_class_def
            object_class_dynamic_cast_def)
    qed
    then have "q' = q" using False run_cast.hyps(5) by (cases debug) (simp_all add: object_dynamic_cast_assert_def)
    then show ?thesis using run_cast.IH by simp
  qed
qed

text \<open>
  C12. Casts.  In every state that registering types without interfaces, creating objects and casting
  them can lead to, casting an object returns, with the object exactly when its type descends from the
  named one; and the checked cast, which looks into the cache of the class first, gives the object in
  the same cases and aborts in all others.
\<close>

theorem casts_exact:
  assumes "qom_run text_at q" and "class_at q c = Some cl" and "oc_type cl = Some t" and "ob_class ob = Some c" and "str_ok text_at str"
  shows "\<exists>q1 q2. object_dynamic_cast (Some ob) str q = Some (if is_a q t str then Some ob else None, q1) \<and>
    object_dynamic_cast_assert True (Some ob) str q = (if is_a q t str then Some (Some ob, q2) else None)"
proof -
  obtain q1 where "object_class_dynamic_cast (Some c) str q = Some (if is_a q t str then Some c else None, q1)"
    using cast_result [OF run_inv [OF assms(1)] assms(2,3,5)] by blast
  then have "object_dynamic_cast (Some ob) str q = Some (if is_a q t str then Some ob else None, q1)"
    using assms(4) by (simp add: object_dynamic_cast_def object_get_class_def)
  then show ?thesis using cast_assert_result [OF run_inv [OF assms(1)] assms(2,3,5,4)] by blast
qed

text \<open>A device type below \<^verbatim>\<open>object\<close>, one object of it, cast to \<^verbatim>\<open>object\<close> through a string constant.\<close>

definition ex_text :: "nat \<Rightarrow> string" where
  "ex_text a = (if a = 0 then ''interface'' else if a = 2 then ''dev'' else ''object'')"

definition ex_info :: TypeInfo where
  "ex_info = \<lparr>tf_name = ''dev'', tf_parent = Some ''object'', tf_instance_size = 64, tf_instance_init = None,
     tf_instance_post_init = None, tf_instance_finalize = None, tf_abstract = False, tf_class_size = 0,
     tf_class_init = None, tf_class_base_init = None, tf_interfaces = []\<rparr>"

definition ex_start :: qom where
  "ex_start = the (register_types
     \<lparr>q_types = [], q_classes = [], type_table = Map.empty, type_interface = None, q_strings = 0\<rparr>)"

definition ex_types :: qom where
  "ex_types = snd (the (type_register ex_info ex_start))"

lemma ex_run: "qom_run ex_text ex_types"
proof -
  have "register_types \<lparr>q_types = [], q_classes = [], type_table = Map.empty, type_interface = None, q_strings = 0\<rparr> = Some ex_start"
    by (simp add: ex_start_def register_types_def type_register_internal_def Let_def)
  then have s: "qom_run ex_text ex_start" by (rule run_start [rotated 2]) (simp_all add: ex_text_def)
  have t: "type_register ex_info ex_start = Some (2, ex_types)" "q_strings ex_start = 2"
    by (simp_all add: ex_types_def ex_start_def register_types_def type_register_def type_register_internal_def ex_info_def Let_def)
  show ?thesis by (rule run_register [OF s _ _ t(1)]) (simp_all add: t(2), simp_all add: ex_info_def ex_text_def)
qed

lemma ex_new:
  "case object_new ''dev'' ex_types of
     None \<Rightarrow> False
   | Some (ob, q) \<Rightarrow> ob_class ob = Some 0 \<and> map_option oc_type (class_at q 0) = Some (Some 2) \<and>
       type_table q ''object'' = Some 1 \<and> parent_id q 2 = Some 1"
  by code_simp

theorem casts_exact_witness:
  "\<exists>ob q q2. object_new ''dev'' ex_types = Some (ob, q) \<and>
     object_dynamic_cast_assert True (Some ob) \<lparr>cs_addr = 9, cs_text = ''object''\<rparr> q = Some (Some ob, q2)"
proof -
  obtain ob q cl where new: "object_new ''dev'' ex_types = Some (ob, q)" "ob_class ob = Some 0"
    and q: "class_at q 0 = Some cl" "oc_type cl = Some 2" "type_table q ''object'' = Some 1" "parent_id q 2 = Some 1"
    using ex_new by (auto split: option.splits)
  have "qom_run ex_text q" by (rule run_new [OF ex_run new(1)])
  moreover have "is_a q 2 \<lparr>cs_addr = 9, cs_text = ''object''\<rparr>"
    using q(3) descends_step [OF q(4) descends_refl] by (simp add: is_a_def)
  ultimately show ?thesis
    using casts_exact [OF _ q(1,2) new(2), of ex_text "\<lparr>cs_addr = 9, cs_text = ''object''\<rparr>"] new(1)
    by (auto simp: str_ok_def ex_text_def)
qed

end
