(* ===== verification/Spec2Isabelle.thy ===== *)
theory Spec2Isabelle
  imports Migration Checksum Iov Net_Queue Disc_Props E1000_Stream Machine_File Klee_Harness Qom_Cast
begin

text \<open>
  A verification library for the e1000 network device of QEMU as it stands in this repository, for the
  code the device rests on, for the migration code that describes and moves its state, and for the
  device snapshots (DISC) that reuse the migration description to reset a device.

  \<^bold>\<open>The program.\<close>  \<^verbatim>\<open>src/harness/e1000/e1000.c\<close> is a device model: a driver in the guest reads and writes
  registers (\<^verbatim>\<open>e1000_mmio_read\<close>, \<^verbatim>\<open>e1000_mmio_write\<close>), the network hands over frames (\<^verbatim>\<open>e1000_receive\<close>,
  through the packet queue of \<^verbatim>\<open>net/queue.c\<close> and the delivery functions of \<^verbatim>\<open>net/net.c\<close>), two timers
  fire, and the model answers with DMA to guest memory, frames to its peer and an interrupt pin.
  Frames are scatter/gather vectors (\<^verbatim>\<open>util/iov.c\<close>) and get their checksums from \<^verbatim>\<open>net/checksum.c\<close>.
  \<^verbatim>\<open>savevm.c\<close> saves and loads devices: buffered files, encodings of fields, the interpreter for
  \<^verbatim>\<open>VMStateDescription\<close> tables (built by the macros of \<^verbatim>\<open>include/migration/vmstate.h\<close>), the table of
  registered devices and the file of the whole machine.  \<^verbatim>\<open>src/snapshot/qemu-1.5.0/hw/core/qdev.c\<close> takes a
  snapshot of the device when it is realized and \<^verbatim>\<open>device_nap_reset\<close> puts the device back to it, except
  for what its migration table lists.  \<^verbatim>\<open>src/harness/e1000/klee_main.c\<close> runs the device and the reset
  under a symbolic executor.  All paths below are relative to \<^verbatim>\<open>src/harness/qemu\<close> unless they start with
  \<^verbatim>\<open>src/\<close>.

  \<^bold>\<open>The network device.\<close>
    \<^item> \<open>Prelude\<close>: words, byte buffers, little- and big-endian accesses, shared lemmas.
    \<^item> \<open>Iov\<close> (\<^verbatim>\<open>util/iov.c\<close>), \<open>Checksum\<close> (\<^verbatim>\<open>net/checksum.c\<close>): vectors are lists of byte lists; every operation
      is compared with the linear buffer (\<open>iov_roundtrip\<close>, \<open>iov_linear\<close>, \<open>checksum_reference\<close>).
    \<^item> \<open>Net_Queue\<close> (\<^verbatim>\<open>net/queue.c\<close>): the queue as a record, its callbacks as arguments.  What a client owes the
      queue is the locale \<open>queue_client\<close>, and \<open>receiver\<close> when it also has to make progress; \<open>E1000_Machine\<close>
      and \<open>E1000_Identity\<close> interpret them on the device (\<open>queue_flush_fifo\<close>, \<open>queue_send_refused\<close>,
      \<open>peer_send_terminates\<close>).
    \<^item> \<open>E1000_Regs\<close> (\<^verbatim>\<open>hw/net/e1000_regs.h\<close>), \<open>E1000_State\<close> (\<^verbatim>\<open>E1000State\<close> and its nested structures): the state
      is a record with the register files as functions from indices; guest memory meets the locale
      \<open>dma_memory\<close>.
    \<^item> \<open>E1000_Intr\<close>: link, causes, mitigation, PHY (\<open>interrupt_contract\<close>, \<open>mitigated_interrupt_arrives\<close>,
      \<open>mitigation_window_bounded\<close>, \<open>icr_read_acknowledges\<close>, \<open>mdic_roundtrip\<close>).
    \<^item> \<open>E1000_Eeprom\<close>: the Microwire port and the contents (\<open>eeprom_valid\<close>, \<open>microwire_read\<close>).
    \<^item> \<open>E1000_Rx\<close>, \<open>E1000_Receive\<close>, \<open>E1000_Scatter\<close>: filter, padding, VLAN stripping, descriptors (\<open>receive_delivers\<close>,
      \<open>receive_not_taken\<close>, \<open>station_address_accepted\<close>, \<open>rx_empty_ring_hangs\<close>).
    \<^item> \<open>E1000_Tx\<close>, \<open>E1000_Transmit\<close>, \<open>E1000_Tx_Loops\<close>, \<open>E1000_Tx_Frames\<close>, \<open>E1000_Tx_Stream\<close>: descriptors,
      segmentation, checksum insertion, tagging and the ring (\<open>tso_stream_preserved\<close>, \<open>transmit_drains\<close>,
      \<open>legacy_frame_sent\<close>, \<open>putsum_correct\<close>, \<open>vlan_roundtrip\<close>, \<open>tso_terminates\<close>, \<open>tso_zero_mss_hangs\<close>).
    \<^item> \<open>E1000_Mmio\<close>: read and write tables, reset, start-up; \<open>E1000_Machine\<close>: everything that can happen to the
      device as an inductive step relation, with the invariant of all reachable states
      (\<open>registers_typed\<close>); \<open>E1000_Identity\<close>: what no step changes; \<open>E1000_Example\<close>: concrete devices.

  \<^bold>\<open>Migration.\<close>
    \<^item> \<open>Host_Memory\<close>: the memory of the process, a partial map from addresses to bytes.
    \<^item> \<open>Qemu_File\<close> (\<^verbatim>\<open>QEMUFile\<close> of \<^verbatim>\<open>savevm.c\<close>): buffers, vectors, errors and two back ends over a host file
      that can take or give less than asked or be interrupted.  \<open>Qemu_Stream\<close>: the locales \<open>byte_sink\<close> and
      \<open>byte_source\<close> say that a file is a stream of bytes; both are interpreted on both back ends
      (\<open>stdio_short_write_lost\<close> and \<open>full_buffer_read_error\<close> show where that ends).
    \<^item> \<open>Vmstate\<close>, \<open>Vmstate_Codec\<close>: the encodings, each an instance of the locale \<open>vmstate_codec\<close>;
      \<open>Vmstate_Fields\<close>: the macros of \<^verbatim>\<open>vmstate.h\<close>; \<open>Savevm\<close>: \<^verbatim>\<open>vmstate_save_state\<close>, \<^verbatim>\<open>vmstate_load_state\<close> and the
      subsections.
    \<^item> \<open>Vmstate_Static\<close>, \<open>Vmstate_Flat\<close>, \<open>Vmstate_Round\<close>, \<open>Vmstate_Sections\<close>, \<open>Savevm_Props\<close>: a description without
      pointers and variable-length fields is a list of items, and what is written for the items is
      read back (\<open>saved_state_loads\<close>, \<open>unknown_subsection_refused\<close>).
    \<^item> \<open>Savevm_Registry\<close>, \<open>Savevm_File\<close>, \<open>Machine_File\<close>: the table of devices and the file of the machine
      (\<open>machine_state_loads\<close>, \<open>entries_told_apart\<close>, \<open>unset_alias_shadows\<close>).
    \<^item> \<open>E1000_Migrate\<close>, \<open>E1000_Table\<close>, \<open>Migration\<close>, \<open>E1000_Stream\<close>: hooks and tables of the device
      (\<open>migration_keeps_interrupts\<close>, \<open>migration_keeps_link\<close>, \<open>e1000_file_roundtrip\<close>,
      \<open>side_effects_not_coalesced\<close>).

  \<^bold>\<open>Object model, snapshots and harness.\<close>
    \<^item> \<open>Qom\<close>, \<open>Qom_Cast\<close> (\<^verbatim>\<open>qom/object.c\<close>): types, classes that start as a copy of their parent's, and casts
      with their caches (\<open>casts_exact\<close>, for types without interfaces; the definitions have them).
    \<^item> \<open>Disc\<close>, \<open>Disc_Reset\<close>, \<open>Disc_Props\<close>: taking a snapshot and the partial reset (\<open>nap_reset_restores\<close>,
      \<open>nap_reset_frame\<close>, \<open>e1000_nap_reset\<close>, \<open>pointer_field_overwritten\<close>).
    \<^item> \<open>Klee_Harness\<close>: the symbolic device and the reset of the harness (\<open>harness_flip_crashes\<close>).

  \<^bold>\<open>Conventions.\<close>  Machine integers are words of their width where they can wrap, \<open>nat\<close> or \<open>int\<close> for sizes and
  signed values that stay small.  Code that may not return is a \<open>partial_function (option)\<close>: the value
  \<open>None\<close> is a run that does not return, and, where it can happen, one that crashes or fails an
  assertion.  There is no fuel; that a loop returns is proved as such (\<open>transmit_drains\<close>,
  \<open>tso_terminates\<close>, \<open>peer_send_terminates\<close>, \<open>receive_delivers\<close>), and so is that it does not where it does
  not.  Timers are deadlines on a virtual clock.  A device that sends to itself in PHY loopback receives
  its frame within the transmit step, as in the code.

  \<^bold>\<open>Parameters.\<close>  The layout of \<^verbatim>\<open>E1000State\<close> before its register file, the migration table of the embedded
  \<^verbatim>\<open>PCIDevice\<close>, the allocator of the snapshots, the effect of bringing processor state up to date and
  the handlers of devices that save themselves are arguments; the properties say what they need of
  them, and each has a concrete instance.

  \<^bold>\<open>Not modelled.\<close>
    \<^item> Properties, reference counts and paths of objects (the second half of \<^verbatim>\<open>qom/object.c\<close>), memory regions,
      interrupt controllers and the rest of PCI: the device meets them only through DMA, the pin and
      reset.
    \<^item> Popen, socket and block device back ends of \<^verbatim>\<open>QEMUFile\<close>, sending vectors on sockets and named
      snapshots in disk images: they are calls to the operating system and to the block layer.
    \<^item> The migration thread and the handlers of guest memory, which run concurrently with the guest: in
      \<open>Savevm_File\<close> a live handler is an argument.
    \<^item> The table macros for timers and processor types, whose contents belong to those parts.
    \<^item> Debug output and trace points, which do not touch the state.
    \<^item> The rest of the two QEMU copies and glib, which the code above does not use or only calls.
\<close>

section \<open>Properties that span components\<close>

text \<open>
  C1. Interrupts.  In every reachable state the interrupt pin is up only while an unmasked cause is
  pending, and a pending unmasked cause has either raised the pin or waits for the end of a
  mitigation window whose timer is armed; ICS reads as ICR and the device's own record of the pin
  is right.
\<close>

theorem interrupt_contract:
  assumes "e1000_reachable s"
  shows "(pci_irq s \<longrightarrow> mac_reg s IMS AND mac_reg s ICR \<noteq> 0) \<and>
    (mac_reg s IMS AND mac_reg s ICR \<noteq> 0 \<longrightarrow> pci_irq s \<or> mit_timer_on s \<and> mit_timer s \<noteq> None) \<and>
    mit_irq_level s = pci_irq s \<and> mac_reg s ICS = mac_reg s ICR"
  using reachable_dev_inv [OF assms]
  by (auto simp: dev_inv_def core_inv_def intr_inv_def intr_pre_def pending_def)

theorem interrupt_contract_witness:
  "\<exists>s. e1000_reachable s \<and> pci_irq s \<and> mac_reg s IMS AND mac_reg s ICR \<noteq> 0"
proof -
  let ?s1 = "set_ims dev0 IMS 4" and ?s2 = "set_ics (set_ims dev0 IMS 4) ICS 4"
  have "e1000_reachable ?s1" using reach_write [OF reach_dev0 mmio_write_ims, of 4] by simp
  then have r: "e1000_reachable ?s2" using reach_write [OF _ mmio_write_ics, of ?s1 4] by simp
  have "pci_irq ?s2"
    by (simp add: set_ims_def set_ics_def set_interrupt_cause_def Let_def pci_set_irq_def
        mit_rearm_def mit_delay_def)
  with r interrupt_contract [OF r] show ?thesis by blast
qed

text \<open>
  C2. Reception.  A frame that passes the filter is scattered over as many receive buffers as it needs:
  read one after the other, the buffers of the descriptors from the head on hold the frame, with the
  VLAN tag stripped where the device strips tags.  Every descriptor is written back with its share of
  the length (checksum bytes included where they are kept), the tag and the done and VLAN bits, and
  only the last one has the end-of-packet bit, whatever the driver left there; the head moves past
  them, and the receive interrupt cause is set.
\<close>

theorem receive_delivers:
  assumes "tst (mac_reg s STATUS) E1000_STATUS_LU" and "tst (mac_reg s RCTL) E1000_RCTL_EN"
    and "f = rx_padded [b]" and "\<not> rx_too_long s (length f)" and "receive_filter s ((!) f) (length f)"
    and "P = rx_payload s f" and "len = length P + fcs_len s" and "n = unat (rxbuf_size s)"
    and "e1000_has_rxbufs s len" and "(k - 1) * n < len" and "len \<le> k * n"
    and "rx_ring_apart s k" and "\<forall>j<k. rx_slot_addr s j \<noteq> 0 \<and> rx_head s (Suc j) \<noteq> mac_reg s RDH"
  shows "\<exists>b' s'. e1000_receive s b = Some (int (length P), b', s') \<and>
    concat (map (\<lambda>j. ram_read (ram s') (rx_slot_addr s j) (length (rx_part n P j))) [0..<k]) = P \<and>
    (\<forall>j<k. rx_desc_decode (ram_read (ram s') (rx_slot s j) 16) =
       rx_filled_desc (rx_special_of s f) (rx_status_of s f) (len - j * n) n (rx_slot_desc s j)) \<and>
    mac_reg s' RDH = rx_head s k \<and> tst (mac_reg s' ICR) E1000_ICR_RXT0"
proof -
  let ?spec = "rx_special_of s f" and ?st = "rx_status_of s f"
  obtain iov1 rest ofs where pos: "rx_pos P 0 rest ofs"
    and eq: "e1000_receive_iov s [b] =
      (if \<not> e1000_has_rxbufs s (length P + fcs_len s) then
         Some (-1, iov1, set_ics s 0 E1000_ICR_RXO)
       else
         case rx_desc_loop (length P) (length P + fcs_len s) ?spec ?st (mac_reg s RDH) rest ofs 0 s of
           None \<Rightarrow> None
         | Some (True, s) \<Rightarrow> Some (-1, iov1, set_ics s 0 E1000_ICR_RXO)
         | Some (False, s) \<Rightarrow> Some (int (length P), iov1, rx_finish (length P) s))"
    by (rule e1000_receive_iov_taken [OF assms(1,2,4,5,3), folded assms(6)])
  have n: "0 < n" and k: "0 < k" using assms(10,11) by (cases n; cases k; simp)+
  define t where "t = rx_after ?spec ?st len P s k"
  have "rx_desc_loop (length P) len ?spec ?st (mac_reg s RDH) rest ofs 0 s = Some (False, t)"
    using rx_desc_loop_scatter [OF assms(12,13), of P len 0 rest ofs ?spec ?st] assms(7,8,10,11) n k pos
    by (simp add: t_def rx_head_def)
  then have recv: "e1000_receive s b = Some (int (length P), hd iov1, rx_finish (length P) t)"
    using assms(7,9) eq by (simp add: e1000_receive_def)
  have "tst (mac_reg (rx_finish n t) ICR) E1000_ICR_RXT0" for n t
    by (simp add: rx_finish_def Let_def set_ics_mac_reg word_and_or_zero_iff E1000_ICR_RXT0_def)
  moreover have "concat (map (\<lambda>j. ram_read (ram t) (rx_slot_addr s j) (length (rx_part n P j))) [0..<k]) = P"
  proof -
    have "map (\<lambda>j. ram_read (ram t) (rx_slot_addr s j) (length (rx_part n P j))) [0..<k] = map (rx_part n P) [0..<k]"
      using rx_mem_stored(1) [OF assms(12), of _ ?spec ?st len P] assms(8) by (simp add: t_def)
    moreover have "concat (map (rx_part n P) [0..<k]) = P" using assms(7,11) by (intro concat_parts) simp
    ultimately show ?thesis by (simp only:)
  qed
  ultimately show ?thesis
    using recv rx_mem_stored(2) [OF assms(12), of _ ?spec ?st len P] assms(8)
    by (auto simp: rx_finish_fields(15) rx_finish_mac_reg(2) t_def)
qed

theorem receive_delivers_witness:
  "\<exists>b' s'. e1000_receive dev_rx3 (replicate 600 7) = Some (600, b', s') \<and> mac_reg s' RDH = 3 \<and>
     ram_read (ram s') 0x1000 256 @ ram_read (ram s') 0x2000 256 @ ram_read (ram s') 0x3000 88 = replicate 600 7"
proof -
  let ?f = "replicate 600 (7 :: u8)"
  have f: "rx_padded [?f] = ?f" by (simp add: rx_padded_def)
  have v: "\<not> is_vlan_packet dev_rx3 ((!) ?f)" by (simp add: is_vlan_packet_def be16_to_cpup_def dev_rx_def)
  then have P: "rx_payload dev_rx3 ?f = ?f" by (simp add: rx_payload_def rx_strips_def)
  have acc: "receive_filter dev_rx3 ((!) ?f) 600"
    using v by (simp add: receive_filter_def vlan_filter_pass_def dev_rx_def E1000_RCTL_UPE_def)
  have len: "fcs_len dev_rx3 = 4" by (simp add: fcs_len_def dev_rx_def E1000_RCTL_SECRC_def)
  have parts: "length (rx_part 256 ?f 0) = 256" "length (rx_part 256 ?f (Suc 0)) = 256" "length (rx_part 256 ?f 2) = 88"
    by (simp_all add: rx_part_def)
  have "\<exists>b' s'. e1000_receive dev_rx3 ?f = Some (int (length ?f), b', s') \<and>
    concat (map (\<lambda>j. ram_read (ram s') (rx_slot_addr dev_rx3 j) (length (rx_part 256 ?f j))) [0..<3]) = ?f \<and>
    (\<forall>j<3. rx_desc_decode (ram_read (ram s') (rx_slot dev_rx3 j) 16) =
       rx_filled_desc (rx_special_of dev_rx3 ?f) (rx_status_of dev_rx3 ?f) (604 - j * 256) 256 (rx_slot_desc dev_rx3 j)) \<and>
    mac_reg s' RDH = rx_head dev_rx3 3 \<and> tst (mac_reg s' ICR) E1000_ICR_RXT0"
    by (rule receive_delivers)
      (simp_all add: f P dev_rx_link dev_rx_conf acc len rx_too_long_def e1000_has_rxbufs_def E1000_RCTL_EN_def
        dev_rx3_apart all_less_3 dev_rx3_addr dev_rx3_heads Suc_1 [unfolded One_nat_def])
  then show ?thesis by (auto simp: dev_rx3_heads dev_rx3_addr parts upt_rec Suc_1 [unfolded One_nat_def])
qed

text \<open>
  C5. Transmission makes progress.  With the transmitter enabled, head and tail inside the ring and
  no segmentation requested, \<^verbatim>\<open>start_xmit\<close> returns, whatever else the guest put into the descriptors,
  and has consumed every descriptor up to the tail.
\<close>

theorem transmit_drains:
  assumes "tst (mac_reg s TCTL) E1000_TCTL_EN" and "\<not> loopback s"
    and "ring_ok (mac_reg s TDH) (mac_reg s TDLEN)" and "ring_ok (mac_reg s TDT) (mac_reg s TDLEN)"
    and "\<And>h. ring_ok h (mac_reg s TDLEN) \<Longrightarrow> no_tso (pci_dma_read s (tx_slot s h) 16)"
  shows "\<exists>s'. start_xmit s = Some s' \<and> mac_reg s' TDH = mac_reg s TDT"
  using assms by (intro start_xmit_drains) (simp_all add: ring_no_tso_def)

theorem transmit_drains_witness: "\<exists>s'. start_xmit dev_tx = Some s' \<and> mac_reg s' TDH = 3"
proof -
  have conf: "mac_reg dev_tx TCTL = 2" "mac_reg dev_tx TDH = 0" "mac_reg dev_tx TDT = 3"
    "mac_reg dev_tx TDLEN = 0x80" by (simp_all add: dev_tx_def)
  have "no_tso (pci_dma_read dev_tx a 16)" for a
    by (simp add: no_tso_def pci_dma_read_def dev_tx_def ram_read_def tx_desc_lower_def upt_conv_Cons
        E1000_TXD_CMD_TSE_def)
  moreover have "\<not> loopback dev_tx" by (simp add: dev_tx_def phy_reg_init_def MII_CR_LOOPBACK_def)
  ultimately show ?thesis
    using transmit_drains [of dev_tx] by (simp add: conf ring_ok_def E1000_TCTL_EN_def)
qed

text \<open>
  C13. A frame from the peer is always dealt with.  In a reachable state in which the receive head is
  inside the ring, sending to the device returns for every frame, whatever the queue and the guest's
  memory hold, and the device stays in such a state.
\<close>

theorem peer_send_terminates:
  assumes "e1000_reachable s" and "ring_ok (mac_reg s RDH) (mac_reg s RDLEN)" and "0 < rxbuf_size s"
  shows "\<exists>ret s'. peer_send s sender flags data cb = Some (ret, s') \<and>
    ring_ok (mac_reg s' RDH) (mac_reg s' RDLEN)"
proof -
  have "rx_ready s"
    using assms reachable_dev_inv [OF assms(1)] by (simp add: rx_ready_def dev_inv_def)
  from e1000_receiver.send_returns [OF this]
  obtain ret queue s' where "qemu_net_queue_send qemu_deliver_packet run_sent_cb qemu_can_send_packet
      (incoming_queue (nc s)) s sender flags data cb = Some (ret, queue, s')" and "rx_ready s'"
    by blast
  then show ?thesis by (simp add: peer_send_def rx_ready_def)
qed

theorem peer_send_terminates_witness:
  "\<exists>s. e1000_reachable s \<and> ring_ok (mac_reg s RDH) (mac_reg s RDLEN) \<and>
     (\<forall>data. \<exists>ret s'. peer_send s 1 0 data None = Some (ret, s') \<and>
        ring_ok (mac_reg s' RDH) (mac_reg s' RDLEN))"
proof -
  obtain s where s: "e1000_reachable s" "ring_ok (mac_reg s RDH) (mac_reg s RDLEN)" "0 < rxbuf_size s"
    using reach_receiver by blast
  then show ?thesis using peer_send_terminates [OF s] by blast
qed

text \<open>
  C16. Checksum offload.  The 16 bits that \<^verbatim>\<open>putsum\<close> stores make the range it covers verify: with the
  value that was in the field before (the pseudo-header sum), the one's complement sum of the range
  is zero.  No other byte changes.
\<close>

theorem putsum_correct:
  assumes "unat n \<le> 65536" and "css \<le> sloc" and "unat sloc + 1 < unat (putsum_end n cse)"
    and "even (unat sloc - unat css)"
  shows "net_checksum_finish
      (net_checksum_add (int (unat (putsum_end n cse) - unat css))
         (\<lambda>i. putsum data n sloc css cse (unat css + i)) +
       ucast (be16_to_cpup data (unat sloc))) = 0 \<and>
    (\<forall>i. i \<noteq> unat sloc \<longrightarrow> i \<noteq> unat sloc + 1 \<longrightarrow> putsum data n sloc css cse i = data i)"
  using putsum_verifies [OF assms] by (simp add: putsum_other)

theorem putsum_correct_witness:
  "net_checksum_finish
     (net_checksum_add 20 (\<lambda>i. putsum (\<lambda>i. of_nat i) 60 24 14 33 (14 + i)) +
      ucast (be16_to_cpup (\<lambda>i. of_nat i) 24)) = 0"
  using putsum_correct [of 60 14 24 33 "\<lambda>i. of_nat i"] by (simp add: putsum_end_def)

text \<open>
  C20. TCP segmentation terminates.  With a nonzero segment size and a buffered packet no larger than a
  segment, the loop over one data descriptor returns.
\<close>

theorem tso_terminates:
  assumes "\<not> loopback s" and "0 < tp_mss (tx s)"
    and "unat (tp_size (tx s)) \<le> unat (tp_hdr_len (tx s)) + unat (tp_mss (tx s))"
    and "tp_tse (tx s)" and "tp_cptse (tx s)"
  shows "\<exists>s'. tx_data s d = Some s'"
proof -
  have "unat (tx_desc_lower d AND 0xffff) < 65536"
    using unat_and_mask16 [of "tx_desc_lower d"] by simp
  then have "\<exists>s'. tso_loop (tx_desc_addr d) (tx_desc_lower d AND 0xffff) (seg_limit s) s = Some s'"
    using assms(1-3) by (intro tso_loop_returns) (simp_all add: unat_seg_limit)
  then show ?thesis using assms(4,5) by (simp add: tx_data_def seg_limit_def Let_def)
qed

theorem tso_terminates_witness:
  "\<exists>s'. tx_data (dev0\<lparr>tx := tx_zero\<lparr>tp_tse := True, tp_cptse := True, tp_mss := 1460, tp_hdr_len := 54\<rparr>\<rparr>)
     [0, 0, 0, 0, 0, 0, 0, 0, 0xff, 0xff, 0, 0, 0, 0, 0, 0] = Some s'"
  by (rule tso_terminates) (simp_all add: phy_reg_init_def MII_CR_LOOPBACK_def tx_zero_def)

text \<open>
  C25. A zero segment size hangs the device.  A context descriptor with a segment size of 0 and a data
  descriptor that reaches past the header make the loop of \<^verbatim>\<open>process_tx_desc\<close> run forever.
\<close>

theorem tso_zero_mss_hangs:
  assumes "tp_mss (tx s) = 0" and "tp_tse (tx s)" and "tp_cptse (tx s)"
    and "unat (tp_size (tx s)) \<le> unat (tp_hdr_len (tx s))"
    and "unat (tp_hdr_len (tx s)) < unat (tp_size (tx s)) + unat (tx_desc_lower d AND 0xffff)"
  shows "tx_data s d = None"
proof -
  have "unat (tx_desc_lower d AND 0xffff) < 65536"
    using unat_and_mask16 [of "tx_desc_lower d"] by simp
  then have "tso_loop (tx_desc_addr d) (tx_desc_lower d AND 0xffff) (seg_limit s) s = None"
    using assms by (intro tso_zero_mss_diverges)
  then show ?thesis using assms(2,3) by (simp add: tx_data_def seg_limit_def Let_def)
qed


theorem tso_zero_mss_hangs_witness:
  "tx_data (dev0\<lparr>tx := tx_zero\<lparr>tp_tse := True, tp_cptse := True, tp_hdr_len := 54\<rparr>\<rparr>)
     [0, 0, 0, 0, 0, 0, 0, 0, 100, 0, 0, 0, 0, 0, 0, 0] = None"
  by (rule tso_zero_mss_hangs) (simp_all add: tx_zero_def tx_desc_lower_def)

text \<open>
  C26. A receive ring of length 0 can hang the device.  With RDLEN 0, a head that is not 0 and null
  buffers in the head descriptor and in descriptor 0, the wrap-around test of the receive loop never
  fires: delivering an accepted frame does not return.
\<close>

theorem rx_empty_ring_hangs:
  assumes "tst (mac_reg s STATUS) E1000_STATUS_LU" and "tst (mac_reg s RCTL) E1000_RCTL_EN"
    and "f = rx_padded [b]" and "\<not> rx_too_long s (length f)" and "receive_filter s ((!) f) (length f)"
    and "e1000_has_rxbufs s (length (rx_payload s f) + fcs_len s)"
    and "mac_reg s RDLEN = 0" and "mac_reg s RDH \<noteq> 0"
    and "rx_buffer_addr (rx_cur_desc s) = 0"
    and "rx_buffer_addr (rx_desc_decode (pci_dma_read s (rx_desc_base s) 16)) = 0"
  shows "e1000_receive s b = None"
proof -
  define P where "P = rx_payload s f"
  obtain iov1 rest ofs where eq: "e1000_receive_iov s [b] =
      (if \<not> e1000_has_rxbufs s (length P + fcs_len s) then
         Some (-1, iov1, set_ics s 0 E1000_ICR_RXO)
       else
         case rx_desc_loop (length P) (length P + fcs_len s) (rx_special_of s f) (rx_status_of s f)
                (mac_reg s RDH) rest ofs 0 s of
           None \<Rightarrow> None
         | Some (True, s) \<Rightarrow> Some (-1, iov1, set_ics s 0 E1000_ICR_RXO)
         | Some (False, s) \<Rightarrow> Some (int (length P), iov1, rx_finish (length P) s))"
    by (rule e1000_receive_iov_taken [OF assms(1,2,4,5,3), folded P_def])
  have "60 \<le> length f" by (simp add: assms(3) length_rx_padded)
  then have pos: "0 < length P + fcs_len s" using length_rx_payload_bounds [of f s] by (auto simp: P_def)
  obtain m where step: "rx_desc_step (length P) (length P + fcs_len s) (rx_special_of s f) (rx_status_of s f)
      rest ofs 0 s = Some (rest, ofs, 0, ring_advance s m)"
    and next_desc: "rx_buffer_addr (rx_cur_desc (ring_advance s m)) = 0" "mac_reg (ring_advance s m) RDH = 0"
    using assms(7-10) by (blast intro: rx_desc_step_null_first)
  have "rx_desc_loop (length P) (length P + fcs_len s) (rx_special_of s f) (rx_status_of s f)
      (mac_reg s RDH) rest ofs 0 (ring_advance s m) = None"
    using next_desc assms(7,8) pos by (intro rx_desc_loop_diverges) simp_all
  then have "rx_desc_loop (length P) (length P + fcs_len s) (rx_special_of s f) (rx_status_of s f)
      (mac_reg s RDH) rest ofs 0 s = None"
    using step next_desc(2) assms(8) pos by (subst rx_desc_loop.simps) simp
  then show ?thesis using assms(6) eq by (simp add: e1000_receive_def P_def [symmetric])
qed


theorem rx_empty_ring_hangs_witness:
  "e1000_receive (dev_rx\<lparr>mac_reg := (mac_reg dev_rx)(RDLEN := 0, RDH := 1), ram := \<lambda>_. 0\<rparr>) (replicate 60 7) = None"
    (is "e1000_receive ?s ?f = None")
proof -
  have null: "rx_buffer_addr (rx_desc_decode (pci_dma_read ?s a 16)) = 0" for a
    by (simp add: pci_dma_read_def ram_read_def rx_desc_decode_def upt_conv_Cons)
  have f: "rx_padded [?f] = ?f" by (simp add: rx_padded_def)
  have v: "\<not> is_vlan_packet ?s ((!) ?f)"
    by (simp add: is_vlan_packet_def be16_to_cpup_def dev_rx_def)
  then have P: "rx_payload ?s ?f = ?f" by (simp add: rx_payload_def rx_strips_def)
  have acc: "receive_filter ?s ((!) ?f) 60"
    using v by (simp add: receive_filter_def vlan_filter_pass_def dev_rx_def E1000_RCTL_UPE_def)
  show ?thesis
    using v
    by (intro rx_empty_ring_hangs [of ?s ?f])
      (simp_all add: f P acc null rx_cur_desc_def rx_too_long_def dev_rx_link dev_rx_conf fcs_len_def
        e1000_has_rxbufs_def E1000_RCTL_EN_def E1000_RCTL_SECRC_def)
qed

text \<open>
  C15. Mitigation does not lose an interrupt.  In a reachable state with an unmasked cause pending and
  the pin low, the mitigation timer is armed, and when it fires the pin goes up.
\<close>

theorem mitigated_interrupt_arrives:
  assumes "e1000_reachable s" and "mac_reg s IMS AND mac_reg s ICR \<noteq> 0" and "\<not> pci_irq s"
  shows "\<exists>t. mit_timer s = Some t \<and> pci_irq (e1000_mit_timer (s\<lparr>mit_timer := None\<rparr>))"
proof -
  have inv: "mit_timer_on s" "mit_timer s \<noteq> None" "\<not> mit_irq_level s"
    using reachable_dev_inv [OF assms(1)] assms(2,3)
    by (auto simp: dev_inv_def core_inv_def intr_inv_def intr_pre_def pending_def)
  have "\<not> E1000_DEV_ID_82547EI_MOBILE \<le> E1000_DEVID" by (simp add: E1000_DEVID_def e1000_mask)
  then have "pci_irq (e1000_mit_timer (s\<lparr>mit_timer := None\<rparr>))"
    using assms(2)
    by (simp add: e1000_mit_timer_def set_interrupt_cause_def Let_def pci_set_irq_def mit_rearm_def)
  with inv(2) show ?thesis by blast
qed

theorem mitigated_interrupt_arrives_witness:
  "\<exists>s. e1000_reachable s \<and> \<not> pci_irq s \<and> pci_irq (e1000_mit_timer (s\<lparr>mit_timer := None\<rparr>))"
proof -
  let ?s = "set_ics dev_mit ICS 4"
  have r: "e1000_reachable ?s" using reach_write [OF reach_dev_mit mmio_write_ics, of 4] by simp
  have "mac_reg ?s IMS AND mac_reg ?s ICR \<noteq> 0" "\<not> pci_irq ?s"
    by (simp_all add: dev_mit_def set_ics_def set_interrupt_cause_def Let_def pci_set_irq_def
        E1000_DEVID_def e1000_mask)
  with mitigated_interrupt_arrives [OF r] r show ?thesis by blast
qed

text \<open>
  C22. The mitigation window is bounded.  From a reachable state, a cause that starts a window arms the
  timer for a time after now and at most \<^verbatim>\<open>0xffff * 4 * 256\<close> nanoseconds away: the 32-bit arithmetic on
  the delay does not wrap.
\<close>

theorem mitigation_window_bounded:
  assumes "e1000_reachable s" and "\<not> mit_timer_on s" and "mit_timer_on (set_interrupt_cause s i v)"
  shows "\<exists>t. mit_timer (set_interrupt_cause s i v) = Some t \<and>
    clock_ns s < t \<and> t \<le> clock_ns s + 0xffff * 4 * 256"
proof -
  have regs: "mac_reg s TADV \<le> 0xffff" "mac_reg s RADV \<le> 0xffff" "mac_reg s ITR \<le> 0xffff"
    using reachable_dev_inv [OF assms(1)] by (simp_all add: dev_inv_def core_inv_def regs_ok_def)
  obtain p c where d: "mit_delay (mac_set ICS c (mac_set ICR c s)) p \<noteq> 0"
    and t: "mit_timer (set_interrupt_cause s i v) =
      Some (clock_ns s + uint (mit_delay (mac_set ICS c (mac_set ICR c s)) p * 256))"
    using assms(2,3)
    by (auto simp: set_interrupt_cause_def Let_def pci_set_irq_def mit_rearm_def qemu_clock_get_ns_def
        split: if_splits)
  have "unat (mit_delay (mac_set ICS c (mac_set ICR c s)) p) \<le> 0xffff * 4"
    using regs by (intro mit_delay_bound) simp_all
  from delay_ns [OF d this] t show ?thesis by simp
qed

theorem mitigation_window_bounded_witness:
  "\<exists>s t. e1000_reachable s \<and> mit_timer (set_interrupt_cause s 0 4) = Some t \<and>
     t \<le> clock_ns s + 0xffff * 4 * 256"
proof -
  let ?s = "set_16bit (set_ims dev0 IMS 4) ITR 100"
  have r: "e1000_reachable ?s" by (rule reach_itr)
  have "\<not> mit_timer_on ?s" "mit_timer_on (set_interrupt_cause ?s 0 4)"
    by (simp_all add: set_ims_def set_ics_def set_16bit_def set_interrupt_cause_def Let_def
        pci_set_irq_def mit_rearm_def mit_delay_def mit_update_delay_def E1000_DEVID_def e1000_mask)
  from mitigation_window_bounded [OF r this] r show ?thesis by blast
qed

text \<open>
  C18. The card keeps its identity.  In every reachable state the 64 EEPROM words add up to
  \<^verbatim>\<open>EEPROM_SUM\<close>, which is what drivers check, and the first three words are the card's address.
\<close>

theorem eeprom_valid:
  assumes "e1000_reachable s"
  shows "(\<Sum>i\<leftarrow>[0..<64]. eeprom_data s i) = EEPROM_SUM \<and>
    (\<forall>i<3. eeprom_data s i = push_bit 8 (ucast (macaddr s ! (2 * i + 1))) OR ucast (macaddr s ! (2 * i)))"
proof -
  obtain mac where "macaddr s = mac" "eeprom_data s = eeprom_init mac"
    using reachable_ident [OF assms] by (auto simp: ident_def)
  then show ?thesis by (simp add: eeprom_init_sum eeprom_init_mac)
qed

theorem eeprom_valid_witness: "(\<Sum>i\<leftarrow>[0..<64]. eeprom_data dev0 i) = EEPROM_SUM"
  using eeprom_valid [OF reach_dev0] by blast

text \<open>
  C19. The Microwire port.  A driver that selects the chip, clocks out a read command for a word and
  clocks in sixteen bits reads that word of the EEPROM, most significant bit first.
\<close>

theorem microwire_read:
  assumes "a < 64"
  shows "fst (mw_read a s) = map (bit (eeprom_data s a)) (rev [0..<16])"
  using assms by (rule mw_read_correct)

theorem microwire_read_witness:
  "fst (mw_read 63 dev0) = map (bit (eeprom_data dev0 63)) (rev [0..<16])"
  by (rule microwire_read) simp

text \<open>
  C23. After a reset the card takes the frames addressed to it.
\<close>

theorem station_address_accepted:
  assumes "length (macaddr s) = 6" and "\<And>i. i < 6 \<Longrightarrow> f i = macaddr s ! i"
  shows "receive_filter (pci_device_reset s) f n"
proof -
  let ?t = "pci_device_reset s" and ?m = "\<lambda>i. macaddr s ! i"
  have t: "mac_reg ?t RCTL = 0" "mac_reg ?t RA = ucast (?m 0) OR push_bit 8 (ucast (?m 1)) OR
      push_bit 16 (ucast (?m 2)) OR push_bit 24 (ucast (?m 3))"
    "mac_reg ?t (RA + 1) = E1000_RAH_AV OR ucast (?m 4) OR push_bit 8 (ucast (?m 5))"
    by (simp_all add: pci_device_reset_def pci_set_irq_def e1000_reset_def Let_def reset_ra_step_def
        upt_conv_Cons mac_reg_init_def e1000_link_down_def or.assoc numeral_2_eq_2 numeral_3_eq_3)
  have "buf_read f 0 6 = map ?m [0..<6]"
    using assms(2) by (auto intro: nth_equalityI)
  moreover have "bytes_le 4 (mac_reg ?t RA) = [?m 0, ?m 1, ?m 2, ?m 3]"
    unfolding t(2) by (rule bytes_le_4)
  moreover have "bytes_le 2 (mac_reg ?t (RA + 1)) = [?m 4, ?m 5]"
    unfolding t(3) by (rule rah_bytes)
  moreover have "[0..<6] = [0, 1, 2, 3, 4, 5 :: nat]" by (simp add: upt_conv_Cons)
  moreover have "tst (mac_reg ?t (RA + 1)) E1000_RAH_AV"
    unfolding t(3) by (simp add: word_and_or_zero_iff e1000_mask)
  ultimately have "ra_match ?t f 0" by (simp add: ra_match_def)
  then have "list_ex (ra_match ?t f) [0..<16]" by (simp add: upt_conv_Cons)
  then show ?thesis by (simp add: receive_filter_def vlan_rx_filter_enabled_def t(1))
qed


theorem station_address_accepted_witness:
  "receive_filter (pci_device_reset dev0) ((!) [0x52, 0x54, 0, 0x12, 0x34, 0x56]) 60"
proof -
  have "macaddr dev0 = [0x52, 0x54, 0, 0x12, 0x34, 0x56]" by simp
  then show ?thesis by (intro station_address_accepted) simp_all
qed

text \<open>
  C3. Segmentation keeps the byte stream.  On a live link, with the header fields inside the header,
  the loop over a data descriptor returns and sends segments of exactly header plus segment size;
  their payloads followed by what stays in the buffer are the payload bytes that were in the buffer
  followed by the bytes of the descriptor's buffer in guest memory.
\<close>

theorem tso_stream_preserved:
  assumes "\<not> loopback s" and "\<not> link_down (nc s)" and "has_peer (nc s)" and "hdr_ok (tx s)"
    and "tp_tse (tx s)" and "tp_cptse (tx s)" and "0 < tp_mss (tx s)"
    and "h = unat (tp_hdr_len (tx s))" and "h + unat (tp_mss (tx s)) < 65536"
    and "unat (tp_size (tx s)) < h + unat (tp_mss (tx s))"
  shows "\<exists>s' fs. tx_data s d = Some s' \<and> sent_packets s' = sent_packets s @ fs \<and>
    (\<forall>f \<in> set fs. length f = h + unat (tp_mss (tx s))) \<and>
    concat (map (drop h) fs) @ tx_payload s' =
      drop h (buf_read (tp_data (tx s)) 0 (unat (tp_size (tx s))) @
              ram_read (ram s) (tx_desc_addr d) (unat (tx_desc_lower d AND 0xffff)))"
proof -
  have "tso_conf s" using assms by (simp add: tso_conf_def on_wire_def unat_seg_limit)
  moreover have "unat (tp_size (tx s)) < unat (seg_limit s)" using assms by (simp add: unat_seg_limit)
  moreover have "unat (tx_desc_lower d AND 0xffff) < 65536"
    using unat_and_mask16 [of "tx_desc_lower d"] by simp
  ultimately show ?thesis
    using tso_loop_wire [of s "tx_desc_lower d AND 0xffff" "tx_desc_addr d"] assms(5,6,8)
    by (simp add: tx_data_def Let_def seg_limit_def [symmetric] unat_seg_limit)
qed

theorem tso_stream_preserved_witness:
  "\<exists>s' fs. tx_data (dev0\<lparr>tx := tx_zero\<lparr>tp_tse := True, tp_cptse := True, tp_mss := 1460, tp_hdr_len := 54,
        tp_ipcss := 14, tp_ipcso := 24, tp_tucss := 34, tp_tucso := 50\<rparr>\<rparr>)
      [0, 0, 0, 0, 0, 0, 0, 0, 0, 0x10, 0, 0, 0, 0, 0, 0] = Some s' \<and>
    sent_packets s' = fs \<and> concat (map (drop 54) fs) @ tx_payload s' = drop 54 (ram_read (\<lambda>_. 0) 0 4096)"
proof -
  have len: "unat (tx_desc_lower [0, 0, 0, 0, 0, 0, 0, 0, 0, 0x10, 0, 0, 0, 0, 0, 0] AND 0xffff) = 4096"
    by (simp add: tx_desc_lower_def)
  have addr: "tx_desc_addr [0, 0, 0, 0, 0, 0, 0, 0, 0, 0x10, 0, 0, 0, 0, 0, 0] = 0"
    by (simp add: tx_desc_addr_def)
  define s where "s = dev0\<lparr>tx := tx_zero\<lparr>tp_tse := True, tp_cptse := True, tp_mss := 1460,
    tp_hdr_len := 54, tp_ipcss := 14, tp_ipcso := 24, tp_tucss := 34, tp_tucso := 50\<rparr>\<rparr>"
  have s: "tp_mss (tx s) = 1460" "tp_hdr_len (tx s) = 54" "tp_size (tx s) = 0" "ram s = (\<lambda>_. 0)"
    "sent_packets s = []" by (simp_all add: s_def tx_zero_def)
  have "\<not> loopback s" "\<not> link_down (nc s)" "has_peer (nc s)" "hdr_ok (tx s)" "tp_tse (tx s)" "tp_cptse (tx s)"
    by (simp_all add: s_def phy_reg_init_def MII_CR_LOOPBACK_def tx_zero_def hdr_ok_def)
  from tso_stream_preserved [OF this, of 54 "[0, 0, 0, 0, 0, 0, 0, 0, 0, 0x10, 0, 0, 0, 0, 0, 0]"]
  show ?thesis unfolding len addr s_def [symmetric] by (auto simp: s)
qed

text \<open>
  C14. A plain frame.  A legacy descriptor that holds a whole packet puts exactly the bytes of the
  guest's buffer on the wire, and leaves the transmit buffer empty.
\<close>

theorem legacy_frame_sent:
  assumes "\<not> loopback s" and "\<not> link_down (nc s)" and "has_peer (nc s)" and "plain_desc s d"
    and "tp_size (tx s) = 0" and "tp_sum_needed (tx s) = 0" and "\<not> tp_vlan_needed (tx s)"
  shows "\<exists>s'. process_tx_desc s d = Some s' \<and> tp_size (tx s') = 0 \<and>
    sent_packets s' = sent_packets s @
      [ram_read (ram s) (tx_desc_addr d) (unat (tx_desc_lower d AND 0xffff))]"
  using assms by (intro plain_frame_wire) (simp_all add: on_wire_def)

theorem legacy_frame_sent_witness:
  "\<exists>s'. process_tx_desc dev0 [0, 0x20, 0, 0, 0, 0, 0, 0, 60, 0, 0, 1, 0, 0, 0, 0] = Some s' \<and>
     sent_packets s' = [ram_read (\<lambda>_. 0) 0x2000 60]"
proof -
  let ?d = "[0, 0x20, 0, 0, 0, 0, 0, 0, 60, 0, 0, 1, 0, 0, 0, 0]"
  have d: "tx_desc_lower ?d = 0x100003C" "tx_desc_addr ?d = 0x2000"
    by (simp_all add: tx_desc_lower_def tx_desc_addr_def)
  then have "plain_desc dev0 ?d"
    by (simp add: plain_desc_def E1000_TXD_CMD_DEXT_def E1000_TXD_CMD_EOP_def is_vlan_txd_def
        E1000_TXD_CMD_VLE_def)
  with legacy_frame_sent [of dev0 ?d] d show ?thesis
    by (auto simp: phy_reg_init_def MII_CR_LOOPBACK_def tx_zero_def)
qed



text \<open>
  C24. Frames that are not taken.  Without a link or with the receiver disabled a frame is refused;
  an oversized frame and one that the filter rejects are swallowed whole; in each case the device and
  the caller's buffer are unchanged.
\<close>

theorem receive_not_taken:
  "(if \<not> tst (mac_reg s STATUS) E1000_STATUS_LU \<or> \<not> tst (mac_reg s RCTL) E1000_RCTL_EN
    then e1000_receive s b = Some (-1, b, s)
    else if rx_too_long s (length (rx_padded [b])) \<or>
            \<not> receive_filter s ((!) (rx_padded [b])) (length (rx_padded [b]))
    then e1000_receive s b = Some (int (length (rx_padded [b])), b, s)
    else \<forall>r b' s'. e1000_receive s b = Some (r, b', s') \<longrightarrow> r = -1 \<or> r = int (length (rx_payload s (rx_padded [b]))))"
proof -
  consider (off) "\<not> tst (mac_reg s STATUS) E1000_STATUS_LU \<or> \<not> tst (mac_reg s RCTL) E1000_RCTL_EN"
    | (drop) "tst (mac_reg s STATUS) E1000_STATUS_LU" "tst (mac_reg s RCTL) E1000_RCTL_EN"
        "rx_too_long s (length (rx_padded [b])) \<or>
         \<not> receive_filter s ((!) (rx_padded [b])) (length (rx_padded [b]))"
    | (take) "tst (mac_reg s STATUS) E1000_STATUS_LU" "tst (mac_reg s RCTL) E1000_RCTL_EN"
        "\<not> rx_too_long s (length (rx_padded [b]))"
        "receive_filter s ((!) (rx_padded [b])) (length (rx_padded [b]))"
    by blast
  then show ?thesis
  proof cases
    case off then show ?thesis by (auto simp: e1000_receive_def e1000_receive_iov_def)
  next
    case drop
    then show ?thesis by (simp add: e1000_receive_def e1000_receive_iov_dropped)
  next
    case take
    then show ?thesis
      by (rule e1000_receive_iov_taken [OF _ _ _ _ refl]) (auto simp: take e1000_receive_def split: option.splits bool.splits if_splits)
  qed
qed

theorem receive_not_taken_witness: "e1000_receive dev0 [1, 2, 3] = Some (-1, [1, 2, 3], dev0)"
  using receive_not_taken [of dev0 "[1, 2, 3]"] by (simp add: dev0_reg mac_reg_init_def)

text \<open>
  C27. Reading ICR returns the causes, clears them and lowers the pin.
\<close>

theorem icr_read_acknowledges:
  "e1000_mmio_read s 0xc0 = (ucast (mac_reg s ICR), set_interrupt_cause s 0 0) \<and>
   mac_reg (set_interrupt_cause s 0 0) ICR = 0 \<and> \<not> pci_irq (set_interrupt_cause s 0 0)"
  by (simp add: mmio_read_icr set_interrupt_cause_def Let_def pci_set_irq_def)

lemma mdic_bits:
  fixes r w :: u32
  defines "v \<equiv> ((r XOR (r AND E1000_MDIC_DATA_MASK)) OR ucast (ucast (w AND E1000_MDIC_DATA_MASK) :: u16)) OR
    E1000_MDIC_READY"
  shows "v AND E1000_MDIC_DATA_MASK = w AND E1000_MDIC_DATA_MASK"
    and "v AND E1000_MDIC_ERROR = r AND E1000_MDIC_ERROR" and "tst v E1000_MDIC_READY"
proof -
  have m: "E1000_MDIC_DATA_MASK = mask 16" "E1000_MDIC_READY = push_bit 28 1" "E1000_MDIC_ERROR = push_bit 30 1"
    by (simp_all add: e1000_mask mask_eq_exp_minus_1)
  show "v AND E1000_MDIC_DATA_MASK = w AND E1000_MDIC_DATA_MASK"
    "v AND E1000_MDIC_ERROR = r AND E1000_MDIC_ERROR"
    unfolding v_def m by (rule bit_word_eqI; simp only: bit_simps; auto)+
  show "tst v E1000_MDIC_READY" by (simp add: v_def word_and_or_zero_iff e1000_mask)
qed

text \<open>
  C28. PHY registers through MDIC: for a register that can be read and written, a write followed by a read returns the written
  value in the data field with the ready bit set and no error.
\<close>

theorem mdic_roundtrip:
  assumes "drop_bit E1000_MDIC_PHY_SHIFT (w AND E1000_MDIC_PHY_MASK) = 1"
    and "drop_bit E1000_MDIC_PHY_SHIFT (r AND E1000_MDIC_PHY_MASK) = 1"
    and "tst w E1000_MDIC_OP_WRITE" and "\<not> tst w E1000_MDIC_OP_READ" and "tst r E1000_MDIC_OP_READ"
    and "w AND E1000_MDIC_REG_MASK = r AND E1000_MDIC_REG_MASK"
    and "phy_regcap (unat (drop_bit E1000_MDIC_REG_SHIFT (r AND E1000_MDIC_REG_MASK))) = PHY_RW"
  shows "mac_reg (set_mdic (set_mdic s MDIC w) MDIC r) MDIC AND E1000_MDIC_DATA_MASK = w AND E1000_MDIC_DATA_MASK \<and>
    mac_reg (set_mdic (set_mdic s MDIC w) MDIC r) MDIC AND E1000_MDIC_ERROR = r AND E1000_MDIC_ERROR \<and>
    tst (mac_reg (set_mdic (set_mdic s MDIC w) MDIC r) MDIC) E1000_MDIC_READY"
proof -
  let ?a = "unat (drop_bit E1000_MDIC_REG_SHIFT (r AND E1000_MDIC_REG_MASK))" and ?m = E1000_MDIC_DATA_MASK
  have cap: "tst (phy_regcap ?a) PHY_R" "tst (phy_regcap ?a) PHY_W"
    using assms(7) by (simp_all add: PHY_RW_def PHY_R_def PHY_W_def)
  define t where "t = set_mdic s MDIC w"
  have "phy_reg (snd (mdic_access s MDIC w)) ?a = ucast (w AND ?m)"
    using assms(1,3,4,6) cap by (simp add: mdic_access_def Let_def)
  then have t: "phy_reg t ?a = ucast (w AND ?m)"
    by (simp add: t_def set_mdic_def Let_def split_beta set_ics_def)
  have "mac_reg (set_mdic t MDIC r) MDIC = ((r XOR (r AND ?m)) OR ucast (phy_reg t ?a)) OR E1000_MDIC_READY"
    using assms(2,5) cap by (simp add: set_mdic_def mdic_access_def Let_def set_ics_mac_reg)
  then show ?thesis
    unfolding t_def [symmetric] t using mdic_bits by simp
qed

theorem mdic_roundtrip_witness:
  "mac_reg (set_mdic (set_mdic dev0 MDIC 0x4241234) MDIC 0x8240000) MDIC AND E1000_MDIC_DATA_MASK = 0x1234"
  using mdic_roundtrip [where w = "0x4241234" and r = "0x8240000" and s = dev0] by (simp add: e1000_mask phy_regcap_def)

section \<open>Properties of the supporting libraries\<close>

text \<open>
  C29. Scatter/gather round trip.  What \<^verbatim>\<open>iov_from_buf\<close> stores in a vector, \<^verbatim>\<open>iov_to_buf\<close> reads back, whatever
  the shape of the vector; the shape and the bytes outside the range are kept.
\<close>

theorem iov_roundtrip:
  assumes "offset + bytes \<le> iov_size iov" and "bytes \<le> length buf"
  shows "\<exists>iov'. iov_from_buf iov offset buf bytes = Some (bytes, iov') \<and>
    iov_to_buf iov' offset bytes = Some (take bytes buf) \<and> map length iov' = map length iov \<and>
    take offset (concat iov') = take offset (concat iov) \<and>
    drop (offset + bytes) (concat iov') = drop (offset + bytes) (concat iov)"
proof -
  obtain n iov' where call: "iov_from_buf iov offset buf bytes = Some (n, iov')"
    using iov_from_buf_defined [OF assms(2), of iov offset] assms(1) by fastforce
  note f = iov_from_buf_SomeD [OF call assms(2)]
  have n: "n = bytes" using f(2) assms(1) by simp
  have len: "length (concat iov) = iov_size iov" by (simp add: iov_size_concat)
  show ?thesis
    using assms call f(3,4) iov_size_cong [OF f(3)] len
    by (simp add: n iov_to_buf_eq)
qed

theorem iov_roundtrip_witness:
  "\<exists>iov'. iov_from_buf [[1, 2], [3], [4, 5, 6]] 1 [7, 8, 9] 3 = Some (3, iov') \<and>
     iov_to_buf iov' 1 3 = Some [7, 8, 9]"
  using iov_roundtrip [of 1 3 "[[1, 2], [3], [4, 5, 6]]" "[7, 8, 9]"] by auto

text \<open>
  C30. A vector is its linear buffer.  Reading a range, copying a sub-vector and cutting bytes off either
  end agree with the same operations on the concatenation of the elements.
\<close>

theorem iov_linear:
  "iov_to_buf iov offset bytes =
     (if offset \<le> length (concat iov) then Some (take bytes (drop offset (concat iov))) else None) \<and>
   concat (snd (iov_discard_front iov n)) = drop n (concat iov) \<and>
   concat (snd (iov_discard_back iov n)) = take (length (concat iov) - n) (concat iov) \<and>
   fst (iov_discard_front iov n) = min n (length (concat iov)) \<and>
   fst (iov_discard_back iov n) = min n (length (concat iov))"
proof -
  obtain t v where front: "iov_discard_front iov n = (t, v)" by force
  obtain u w where bk: "iov_discard_back_loop (rev iov) n = (u, w)" by force
  have "iov_size (rev iov) = length (concat iov)"
    by (simp add: iov_size_concat length_concat rev_map [symmetric])
  with iov_discard_front_eq [OF front] iov_discard_back_loop_eq [OF bk]
  show ?thesis by (simp add: front bk iov_discard_back_def iov_to_buf_eq iov_size_concat)
qed




text \<open>
  C32. Back pressure.  A packet that the receiver cannot take now, because it is not ready
  or because it refuses the packet, is appended to the queue if it has a callback or
  the queue is not full, and the sender is told 0.
\<close>

theorem queue_send_refused:
  assumes "queue_wf queue" and "if can_send r s then deliver r s f d = Some (0, r') else r' = r"
    and "cb \<noteq> None \<or> length (packets queue) < unat (nq_maxlen queue)"
  shows "\<exists>queue'. qemu_net_queue_send deliver run_cb can_send queue r s f d cb = Some (0, queue', r') \<and>
    packets queue' = packets queue @ [\<lparr>np_sender = s, np_flags = f, np_sent_cb = cb, np_data = d\<rparr>] \<and>
    queue_wf queue'"
proof -
  have wf: "nq_count queue = of_nat (length (packets queue))" "\<not> delivering queue" "queue_wf (queue\<lparr>delivering := False\<rparr>)"
    using assms(1) by (simp_all add: queue_wf_def)
  have "unat (nq_count queue) \<le> length (packets queue)" by (simp add: wf(1) unsigned_of_nat take_bit_eq_mod)
  then have "\<not> (nq_count queue \<ge> nq_maxlen queue \<and> cb = None)"
    using assms(3) by (auto simp: word_le_nat_alt)
  then have app: "packets (qemu_net_queue_append q s f d cb) =
      packets q @ [\<lparr>np_sender = s, np_flags = f, np_sent_cb = cb, np_data = d\<rparr>]"
    if "nq_count q = nq_count queue" "nq_maxlen q = nq_maxlen queue" for q
    using that by (auto simp: qemu_net_queue_append_def)
  show ?thesis
  proof (cases "can_send r s")
    case True
    then have "qemu_net_queue_send deliver run_cb can_send queue r s f d cb =
        Some (0, qemu_net_queue_append (queue\<lparr>delivering := False\<rparr>) s f d cb, r')"
      using assms(2) wf(2) by (simp add: qemu_net_queue_send_def qemu_net_queue_deliver_def Let_def)
    then show ?thesis using queue_wf_append [OF wf(3)] app [of "queue\<lparr>delivering := False\<rparr>"] by simp
  next
    case False
    then show ?thesis
      using assms(2) queue_wf_append [OF assms(1)] app [of queue] by (simp add: qemu_net_queue_send_def)
  qed
qed

theorem queue_send_refused_witness:
  "\<exists>queue'. qemu_net_queue_send (\<lambda>r s f d. Some (0, r)) (\<lambda>_ _ _ r. r) (\<lambda>_ _. True) qemu_new_net_queue ()
      1 0 [1, 2, 3] None = Some (0, queue', ()) \<and> length (packets queue') = 1"
  using queue_send_refused [OF queue_wf_new, where can_send = "\<lambda>_ _. True" and r = "()" and
      deliver = "\<lambda>r s f d. Some (0, r)" and cb = None and s = 1 and f = 0 and d = "[1, 2, 3]" and r' = "()"
      and run_cb = "\<lambda>_ _ _ r. r"]
  by (auto simp: qemu_new_net_queue_def)

text \<open>
  C38. Types of the registers.  In every reachable state the ring indices and the mitigation
  delays have 16 bits, the ring lengths are at most 0xfff80, a receiver that is enabled has
  a buffer of at least 256 bytes, and the queue of packets is well formed.
\<close>

theorem registers_typed:
  assumes "e1000_reachable s"
  shows "(\<forall>r \<in> {RDH, RDT, TDH, TDT, ITR, RDTR, RADV, TADV}. mac_reg s r \<le> 0xffff) \<and>
    mac_reg s RDLEN \<le> 0xfff80 \<and> mac_reg s TDLEN \<le> 0xfff80 \<and>
    (mac_reg s RCTL AND E1000_RCTL_EN \<noteq> 0 \<longrightarrow> 256 \<le> rxbuf_size s) \<and> queue_wf (incoming_queue (nc s))"
  using reachable_dev_inv [OF assms]
  by (simp add: dev_inv_def core_inv_def regs_ok_def rx_conf_ok_def rdh_ok_def)

theorem registers_typed_witness:
  "e1000_reachable dev_mit \<and> mac_reg dev_mit ITR \<le> 0xffff \<and> queue_wf (incoming_queue (nc dev_mit))"
  using registers_typed [OF reach_dev_mit] reach_dev_mit by simp

end
